(* ===== verification/Types.thy ===== *)
theory Types
  imports Prelude
begin

text \<open>
  The data of the invoice contract (src/contracts/invoice_liquidity/src): error codes
  (errors.rs), protocol constants (constants.rs, lib.rs), the invoice structs (invoice.rs),
  Config (config.rs), the oracle, multisig, NFT and TWAP structs, and the event payloads
  (events.rs), each event a constructor with its fields in the order of the struct.

  Addresses are opaque; \<open>Symbol\<close>s are strings; \<open>BytesN<32>\<close> values are lists of numbers. The
  values \<open>u32\<close>, \<open>u64\<close> are \<open>nat\<close> and \<open>i128\<close> is \<open>int\<close>; every place where their width matters writes
  the operation of the prelude the source calls.
\<close>

datatype address = Address nat

type_synonym bytes32 = "nat list"

section \<open>Errors\<close>

text \<open>
  The 48 codes of errors.rs, in order, followed by the codes other modules of the crate return
  that errors.rs does not declare (token safety, queue archival, oracle, multisig, upgrade).
\<close>

datatype (plugins del: code size transfer lifting) contract_error =
    InvoiceNotFound | AlreadyFunded | AlreadyPaid | NotFunded | Unauthorized | InvalidAmount
  | InvalidDiscountRate | InvalidDueDate | InvoiceDefaulted | NothingToClaim | NotYetDefaulted
  | OverfundingRejected | InvoiceExpired | BatchTooLarge | AlreadyCancelled | AlreadyInitialized
  | AlreadyAppealed | AppealWindowClosed | NotDefaulted | AlreadyInQueue | NotApprovedFunder
  | InvoiceAppealed | AlreadyDisputed | NotDisputed | InvoiceDisputed | ContractPaused
  | DueDateTooSoon | DueDateTooFar | SelfInvoice | OverpaymentRejected | PayerReputationTooLow
  | ArithmeticOverflow | FeeOnTransferToken | PayerUnverified | OracleDataStale | AmountTooSmall
  | Reentrancy | RateLimited | QueueNotMature | IncompatibleInterfaceVersion | OracleCircuitOpen
  | NoPriceSource | AllPriceSourcesRejected | MaxInvoiceAmountExceeded | GlobalVolumeCapExceeded
  | InvalidTwapWindow | QueueFull | QueueNotStalled
  | AccountFrozen | TokenAuthorizationUnavailable | InsufficientContractBalance
  | TokenDecimalsNotConfigured | TokenDecimalsUnavailable | InvalidTokenDecimals
  | QueueStateArchived | QueueIndexOutOfBounds | FunderIndexOutOfBounds
  | OracleTimestampRegression | OracleDuplicateUpdate | TooManyFeeTiers | TooManyPriceSources
  | TooManyIdentityOracles | InvalidIdentityQuorum | InsufficientTwapObservations
  | InvalidDecayRate | InvalidRepThreshold | UpgradeRemovesTtlFields | RollbackUnsafe
  | MultisigAlreadyConfigured | MultisigNotConfigured | InvalidMultisigConfig
  | NotAuthorizedSigner | AlreadySigned | DuplicateProposal | ProposalNotFound
  | ProposalAlreadyExecuted | ProposalExpired | ThresholdNotReached
  | RotationAlreadyPending | RotationNotFound | RotationTimelockNotExpired

text \<open>
  An entry point fails with an error code or with a host trap (a failed \<open>require_auth\<close>, a
  panic, an arithmetic overflow, a trapping cross-contract call). Either way the host rolls back
  every write and event, so a failure carries no state.
\<close>

datatype failure = Err contract_error | Trap

section \<open>Constants\<close>

definition MAX_DISCOUNT_RATE :: nat where "MAX_DISCOUNT_RATE = 5000"
definition DEFAULT_PAYER_SCORE :: nat where "DEFAULT_PAYER_SCORE = 50"
definition DEFAULT_LP_SCORE :: nat where "DEFAULT_LP_SCORE = 50"
definition TOP_PAYERS_CAPACITY :: nat where "TOP_PAYERS_CAPACITY = 50"
definition CURRENT_STORAGE_VERSION :: nat where "CURRENT_STORAGE_VERSION = 3"
definition DEFAULT_RATE_LIMIT_LEDGERS :: nat where "DEFAULT_RATE_LIMIT_LEDGERS = 120"
definition ADMIN_CHANGE_COOLDOWN_LEDGERS :: nat where "ADMIN_CHANGE_COOLDOWN_LEDGERS = 720"
definition UPGRADE_COOLDOWN_LEDGERS :: nat where "UPGRADE_COOLDOWN_LEDGERS = 1440"
definition ECONOMIC_PARAM_COOLDOWN_LEDGERS :: nat where "ECONOMIC_PARAM_COOLDOWN_LEDGERS = 360"
definition MAX_REPUTATION_DECAY_PERIODS :: nat where "MAX_REPUTATION_DECAY_PERIODS = 1000"
definition QUEUE_DELAY_LEDGERS :: nat where "QUEUE_DELAY_LEDGERS = 120"
definition MAX_FUND_QUEUE_LEN :: nat where "MAX_FUND_QUEUE_LEN = 50"
definition QUEUE_RESOLUTION_TTL_LEDGERS :: nat where "QUEUE_RESOLUTION_TTL_LEDGERS = 720"
definition NEAR_EXPIRY_WINDOW_SECS :: nat where "NEAR_EXPIRY_WINDOW_SECS = 60 * 60 * 24"
definition APPEAL_WINDOW_SECONDS :: nat where "APPEAL_WINDOW_SECONDS = 30 * 24 * 60 * 60"
definition MIN_INVOICE_DURATION :: nat where "MIN_INVOICE_DURATION = 24 * 60 * 60"
definition MAX_INVOICE_DURATION :: nat where "MAX_INVOICE_DURATION = 365 * 24 * 60 * 60"
definition DEFAULT_MAX_ORACLE_AGE_LEDGERS :: nat where "DEFAULT_MAX_ORACLE_AGE_LEDGERS = 17280"

section \<open>Invoices\<close>

datatype referral_code = NoReferral | Present bytes32

datatype invoice_status =
  Pending | Funded | PartiallyFunded | Paid | Defaulted | Appealed | Disputed | Expired | Cancelled

record invoice =
  inv_id :: nat
  freelancer :: address
  payer :: address
  token :: address
  amount :: int
  due_date :: nat
  discount_rate :: nat
  status :: invoice_status
  funder :: "address option"
  funded_at :: "nat option"
  amount_funded :: int
  amount_paid :: int
  referral :: referral_code
  submitter_reputation :: nat

record invoice_core =
  core_id :: nat
  core_freelancer :: address
  core_payer :: address
  core_token :: address
  core_amount :: int
  core_due_date :: nat
  core_discount_rate :: nat
  core_status :: invoice_status
  core_amount_funded :: int
  core_amount_paid :: int

record invoice_metadata =
  meta_funder :: "address option"
  meta_funded_at :: "nat option"
  meta_referral :: referral_code
  meta_submitter_reputation :: nat

record invoice_params =
  p_freelancer :: address
  p_payer :: address
  p_amount :: int
  p_due_date :: nat
  p_discount_rate :: nat
  p_token :: address
  p_referral :: referral_code

record reputation_score =
  rs_score :: nat
  last_activity_ledger :: nat

record reputation_profile =
  rp_address :: address
  invoices_submitted :: nat
  invoices_paid :: nat
  invoices_defaulted :: nat
  rp_score :: nat

record appeal_record =
  evidence_hash :: bytes32
  appealed_at :: nat
  pre_default_score :: nat

record dispute_record =
  reason_hash :: bytes32
  disputed_at :: nat

record top_payer_entry =
  tp_address :: address
  tp_score :: nat

record lp_fund_request =
  lp :: address
  lp_req_score :: nat

type_synonym funders = "(address \<times> int) list"

definition to_core :: "invoice \<Rightarrow> invoice_core" where
  "to_core iv = \<lparr> core_id = inv_id iv, core_freelancer = freelancer iv, core_payer = payer iv,
     core_token = token iv, core_amount = amount iv, core_due_date = due_date iv,
     core_discount_rate = discount_rate iv, core_status = status iv,
     core_amount_funded = amount_funded iv, core_amount_paid = amount_paid iv \<rparr>"

definition to_metadata :: "invoice \<Rightarrow> invoice_metadata" where
  "to_metadata iv = \<lparr> meta_funder = funder iv, meta_funded_at = funded_at iv,
     meta_referral = referral iv, meta_submitter_reputation = submitter_reputation iv \<rparr>"

definition with_metadata :: "invoice_core \<Rightarrow> invoice_metadata \<Rightarrow> invoice" where
  "with_metadata c m = \<lparr> inv_id = core_id c, freelancer = core_freelancer c, payer = core_payer c,
     token = core_token c, amount = core_amount c, due_date = core_due_date c,
     discount_rate = core_discount_rate c, status = core_status c, funder = meta_funder m,
     funded_at = meta_funded_at m, amount_funded = core_amount_funded c,
     amount_paid = core_amount_paid c, referral = meta_referral m,
     submitter_reputation = meta_submitter_reputation m \<rparr>"

section \<open>Configuration\<close>

record config =
  high_rep_threshold :: nat
  bonus_bps :: nat
  min_discount_rate_bps :: nat
  decay_rate_bps :: nat
  decay_period_ledgers :: nat
  dispute_timeout_ledgers :: nat
  xlm_sac_address :: address
  usdc_sac_address :: address
  eurc_sac_address :: address
  price_oracle :: "address option"
  max_oracle_age_ledgers :: nat

section \<open>Oracles, NFTs, multisig, audit log\<close>

datatype oracle_feed_type = Price | Identity | Credit

record oracle_response =
  is_verified :: bool
  resp_timestamp :: nat

record oracle_health_status =
  health_oracle :: address
  last_checked_ledger :: nat
  last_data_timestamp :: nat
  last_data_age_ledgers :: nat
  is_stale :: bool
  consecutive_stale_count :: nat
  consecutive_duplicate_count :: nat

record circuit_recovery_state =
  tripped_oracle :: address
  consecutive_healthy :: nat
  first_healthy_ledger :: nat

record twap_sample =
  sample_timestamp :: nat
  sample_price :: int

record invoice_nft_metadata =
  nft_invoice_id :: nat
  nft_amount :: int
  nft_due_date :: nat
  nft_discount_rate :: nat
  nft_token :: address
  nft_owner :: address
  minted_at :: nat

datatype admin_action =
    Pause | Unpause | RemoveToken address | SetFeeRate nat | SetMaxDiscount nat
  | UpdateMultisig "address list" nat | RotateSigner address address

record multisig_admin =
  signers :: "address list"
  threshold :: nat

datatype proposal_state = ProposalPending | ProposalExecuted | ProposalLapsed

record multisig_proposal =
  proposal_id :: nat
  action :: admin_action
  signers_approved :: "address list"
  proposal_state :: proposal_state
  expires_at :: nat

record pending_rotation =
  old_signer :: address
  new_signer :: address
  effective_at :: nat

record admin_action_record =
  log_seq :: nat
  log_action :: string
  log_admin :: address
  log_ledger :: nat
  log_timestamp :: nat

record rollback_report =
  invoices_checked :: nat
  split_format_count :: nat
  legacy_format_count :: nat
  orphaned_count :: nat
  rollback_safe :: bool

lemmas const_defs = MAX_DISCOUNT_RATE_def DEFAULT_PAYER_SCORE_def DEFAULT_LP_SCORE_def
  TOP_PAYERS_CAPACITY_def CURRENT_STORAGE_VERSION_def DEFAULT_RATE_LIMIT_LEDGERS_def
  ADMIN_CHANGE_COOLDOWN_LEDGERS_def UPGRADE_COOLDOWN_LEDGERS_def
  ECONOMIC_PARAM_COOLDOWN_LEDGERS_def MAX_REPUTATION_DECAY_PERIODS_def QUEUE_DELAY_LEDGERS_def
  MAX_FUND_QUEUE_LEN_def QUEUE_RESOLUTION_TTL_LEDGERS_def NEAR_EXPIRY_WINDOW_SECS_def
  APPEAL_WINDOW_SECONDS_def MIN_INVOICE_DURATION_def MAX_INVOICE_DURATION_def
  DEFAULT_MAX_ORACLE_AGE_LEDGERS_def

text \<open>Splitting an invoice into its hot and cold halves loses nothing.\<close>

lemma split_format_roundtrip: "with_metadata (to_core iv) (to_metadata iv) = iv"
  by (simp add: with_metadata_def to_core_def to_metadata_def)

end
