(* ===== verification/Events.thy ===== *)
theory Events
  imports Types
begin

text \<open>
  The event payloads of src/contracts/invoice_liquidity/src/events.rs. Each struct is a
  constructor with the struct's fields in order; the topics of a publication repeat the event
  name and fields of the payload and are not stored separately. The fee-tier and migration
  events the entry points publish without a struct keep their tuple, and the two queue events
  lib.rs builds but events.rs does not declare (displaced entry, broken tie) keep the fields
  lib.rs gives them.
\<close>

datatype (plugins del: code size transfer lifting) event =
    EvSignerRotationScheduled address address nat
  | EvSignerRotationFinalized address address
  | EvSignerRotationCancelled address address
  | EvOracleRegistered oracle_feed_type "address option" address
  | EvOracleUnregistered oracle_feed_type "address option"
  | EvOracleHealthRecorded oracle_feed_type address bool nat nat nat
  | EvOracleCircuitTripped oracle_feed_type address nat
  | EvOracleCircuitReset oracle_feed_type address
  | EvOracleCircuitRecovered oracle_feed_type address nat nat
  | EvPriceSourceAdded oracle_feed_type address
  | EvPriceSourceRemoved oracle_feed_type address
  | EvIdentityOracleAdded oracle_feed_type address
  | EvIdentityOracleRemoved oracle_feed_type address
  | EvOracleFeederDisagreement oracle_feed_type address nat nat nat
  | EvOracleDataStaleRejected oracle_feed_type address address nat nat nat
  | EvTwapEnabledForFeed oracle_feed_type bool
  | EvTwapWindowUpdated nat nat
  | EvTwapInsufficientData oracle_feed_type address nat nat
  | EvPriceOutlierRejected oracle_feed_type address address int int nat
  | EvInsuranceClaimAttempted nat address bool int
  | EvInsuranceCompensationFailed nat address address
  | EvTokenAdded address nat
  | EvTokenDecimalsCorrected address nat nat address
  | EvPayoutEscrowed nat address address int int
  | EvPendingPayoutClaimed address address int
  | EvTokenRemoved address
  | EvInvoiceSubmitted nat address address address int nat nat referral_code invoice_status nat
  | EvInvoiceUpdated nat address address address int nat nat invoice_status
  | EvInvoiceFunded nat address address address address int int int nat nat "nat option"
      invoice_status address nat nat
  | EvInvoicePaid nat address address address address int int int nat bool invoice_status
  | EvInvoicePartiallyPaid nat address int int int
  | EvContractPaused nat
  | EvContractUnpaused nat
  | EvInvoiceDefaulted nat address address address address int nat nat int invoice_status
  | EvInvoiceTransferred nat address address invoice_status
  | EvInvoiceCancelled nat address invoice_status
  | EvLPPositionTransferred nat address address invoice_status
  | EvAdminChanged address address nat
  | EvParameterUpdated string int int address
  | EvContractUpgraded address bytes32 nat
  | EvDistributionContractUpdated "address option" address address
  | EvPriceOracleUpdated "address option" address address
  | EvContractInitialized address address address address nat
  | EvDefaultAppealed nat address bytes32 nat
  | EvAppealResolved nat address bool nat
  | EvInvoiceDisputed nat address bytes32 nat
  | EvDisputeResolved nat bytes32 nat nat
  | EvDisputeUpheldPayerRefund nat address int
  | EvFundRequested nat address nat
  | EvFundQueueResolved nat address nat
  | EvFundQueueResolutionAttempted nat nat nat bool
  | EvFundQueueRecovered nat "address option" nat bool
  | EvInvoiceExpired nat address invoice_status
  | EvReputationUpdated address nat nat nat nat nat
  | EvInvoiceTokenChanged nat address address
  | EvInvoiceNftMinted nat address int nat nat
  | EvInvoiceNftTransferred nat address address nat
  | EvInvoiceNftBurned nat address nat
  | EvRollbackRehearsalCompleted address rollback_report nat
  | EvEqualScoreManipulationSimulated nat nat nat nat nat nat nat bool
  | EvQueueTieScoreMarginUpdated nat nat address
  | EvFundQueueEntryDisplaced nat address nat address nat
  | EvFundQueueTieBroken nat nat nat address
  | EvFeeTiersUpdated nat
  | EvMigrated nat nat nat

end
