(* ===== verification/Storage.thy ===== *)
theory Storage
  imports Events
begin

text \<open>
  The contract's storage (src/contracts/invoice_liquidity/src/storage.rs, and the storage helpers
  of invoice.rs) and the host environment.

  Every \<open>DataKey\<close> of storage.rs is a field: a single key is an option, a parametrised key a map.
  The fields are grouped into one record per component, so that an operation's frame is a
  statement about whole components. An absent entry is \<open>None\<close>; the getters apply the source's
  \<open>unwrap_or\<close> default. Entry lifetimes (\<open>extend_ttl\<close>) are not part of the state.

  The rest of the ledger (token, oracle, distribution and insurance contracts) is a value of the
  type variable \<open>'w\<close> that is only touched through the record \<open>ext\<close> of calls the contract makes;
  \<open>None\<close> is a call that traps. \<open>env\<close> is Soroban's \<open>Env\<close>: ledger time and sequence, the
  contract's own address, the addresses that authorised the invocation, the random draw, the
  remaining lifetimes of storage entries, and the limits the source names but does not declare.
\<close>

section \<open>The host environment\<close>

record 'w ext =
  x_balance :: "'w \<Rightarrow> address \<Rightarrow> address \<Rightarrow> int option"
  x_transfer :: "'w \<Rightarrow> address \<Rightarrow> address set \<Rightarrow> address \<Rightarrow> address \<Rightarrow> int \<Rightarrow> 'w option"
  x_decimals :: "'w \<Rightarrow> address \<Rightarrow> nat option"
  x_authorized :: "'w \<Rightarrow> address \<Rightarrow> address \<Rightarrow> bool option"
  x_payer_data :: "'w \<Rightarrow> address \<Rightarrow> address \<Rightarrow> oracle_response option"
  x_price :: "'w \<Rightarrow> address \<Rightarrow> address \<Rightarrow> int option"
  x_oracle_version :: "'w \<Rightarrow> address \<Rightarrow> nat option"
  x_accrue_lp :: "'w \<Rightarrow> address \<Rightarrow> address \<Rightarrow> int \<Rightarrow> 'w option"
  x_accrue_settlement :: "'w \<Rightarrow> address \<Rightarrow> address \<Rightarrow> address \<Rightarrow> bool \<Rightarrow> 'w option"
  x_is_enrolled :: "'w \<Rightarrow> address \<Rightarrow> address \<Rightarrow> bool option"
  x_claim :: "'w \<Rightarrow> address \<Rightarrow> nat \<Rightarrow> address \<Rightarrow> (int \<times> 'w) option"

text \<open>The keys whose remaining lifetime the upgrade guard reads.\<close>

datatype ttl_key =
    TtlInvoiceCore nat | TtlInvoiceMetadata nat | TtlFundQueue nat | TtlFundQueueOpenedAt nat
  | TtlQueueResolution nat

record 'w env =
  timestamp :: nat
  sequence :: nat
  self :: address
  auths :: "address set"
  prng :: nat
  ext :: "'w ext"
  MAX_FEE_TIERS :: nat
  MAX_PRICE_SOURCES_PER_FEED :: nat
  MAX_IDENTITY_ORACLES_PER_FEED :: nat
  get_ttl :: "ttl_key \<Rightarrow> nat"
  TTL_MIN_LEDGERS_BEFORE_UPGRADE :: nat
  TTL_UPGRADE_SAMPLE_SIZE :: nat
  ROLLBACK_SAMPLE_SIZE :: nat

section \<open>Storage\<close>

record instance_store =
  admin :: "address option"
  cfg :: "config option"
  fee_rate :: "nat option"
  max_discount_rate :: "nat option"
  distribution_contract :: "address option"
  paused :: "bool option"
  min_payer_reputation :: "nat option"
  max_invoice_amount :: "int option"
  invoice_count :: "nat option"
  fee_tiers :: "(int \<times> nat) list option"
  storage_version :: "nat option"
  reentrancy_lock :: "bool option"
  rate_limit :: "string \<rightharpoonup> nat"
  insurance_pool :: "address option"
  last_pause_timestamp :: "nat option"
  queue_tie_score_margin :: "nat option"

record invoice_store =
  invoice_at :: "nat \<rightharpoonup> invoice"
  invoice_core_at :: "nat \<rightharpoonup> invoice_core"
  invoice_metadata_at :: "nat \<rightharpoonup> invoice_metadata"
  invoice_funders :: "nat \<rightharpoonup> funders"
  next_id :: "nat option"
  appeal :: "nat \<rightharpoonup> appeal_record"
  pre_default_payer_score :: "nat \<rightharpoonup> nat"
  dispute :: "nat \<rightharpoonup> dispute_record"

record index_store =
  submitter_invoices :: "address \<rightharpoonup> nat list"
  lp_invoices :: "address \<rightharpoonup> nat list"
  referral_count :: "bytes32 \<rightharpoonup> nat"

record reputation_store =
  payer_score :: "address \<rightharpoonup> reputation_score"
  reputation :: "address \<rightharpoonup> reputation_profile"
  lp_score :: "address \<rightharpoonup> nat"
  top_payers_heap :: "top_payer_entry list option"

record queue_store =
  fund_queue :: "nat \<rightharpoonup> lp_fund_request list"
  queue_resolution :: "nat \<rightharpoonup> address"
  fund_queue_opened_at :: "nat \<rightharpoonup> nat"
  queue_resolved_at :: "nat \<rightharpoonup> nat"

record token_store =
  approved_token :: "address \<rightharpoonup> bool"
  token_list :: "address list option"
  token_decimals :: "address \<rightharpoonup> nat"
  pending_payout_at :: "address \<times> address \<rightharpoonup> int"
  pending_payout_total_at :: "address \<rightharpoonup> int"
  token_volume :: "address \<rightharpoonup> int"
  token_volume_cap :: "address \<rightharpoonup> int"

record stats_store =
  total_invoices :: "nat option"
  total_funded :: "nat option"
  total_paid :: "nat option"
  total_volume_usdc :: "int option"
  total_volume_eurc :: "int option"
  total_volume_xlm :: "int option"

record nft_store =
  invoice_nft :: "nat \<rightharpoonup> invoice_nft_metadata"
  invoice_nft_owner :: "nat \<rightharpoonup> address"

record oracle_store =
  oracle_registry :: "oracle_feed_type \<rightharpoonup> address"
  token_oracle :: "oracle_feed_type \<times> address \<rightharpoonup> address"
  oracle_health :: "oracle_feed_type \<times> address \<rightharpoonup> oracle_health_status"
  oracle_interface_version :: "oracle_feed_type \<rightharpoonup> nat"
  oracle_circuit_tripped :: "oracle_feed_type \<times> address \<rightharpoonup> bool"
  oracle_circuit_recovery :: "oracle_feed_type \<times> address \<rightharpoonup> circuit_recovery_state"
  price_sources :: "oracle_feed_type \<rightharpoonup> address list"
  max_price_deviation_bps :: "nat option"
  identity_oracles :: "oracle_feed_type \<rightharpoonup> address list"
  identity_quorum :: "nat option"
  twap_enabled :: "oracle_feed_type \<rightharpoonup> bool"
  twap_window_ledgers :: "nat option"
  min_twap_observations :: "nat option"
  twap_samples :: "oracle_feed_type \<times> address \<rightharpoonup> twap_sample list"

record multisig_store =
  multisig :: "multisig_admin option"
  proposal :: "nat \<rightharpoonup> multisig_proposal"
  next_proposal_id :: "nat option"
  pending_action :: "admin_action \<rightharpoonup> nat"
  rotation :: "pending_rotation option"

record log_store =
  admin_action_count :: "nat option"
  admin_action_log :: "nat \<rightharpoonup> admin_action_record"

record 'w state =
  inst :: instance_store
  invs :: invoice_store
  idxs :: index_store
  reps :: reputation_store
  ques :: queue_store
  toks :: token_store
  stats :: stats_store
  nfts :: nft_store
  orcs :: oracle_store
  mss :: multisig_store
  alog :: log_store
  wld :: 'w
  evs :: "event list"

text \<open>A contract that was just deployed: no storage entry exists.\<close>

definition fresh_state :: "'w \<Rightarrow> 'w state" where
  "fresh_state w = \<lparr>
     inst = \<lparr> admin = None, cfg = None, fee_rate = None, max_discount_rate = None,
       distribution_contract = None, paused = None, min_payer_reputation = None,
       max_invoice_amount = None, invoice_count = None, fee_tiers = None, storage_version = None,
       reentrancy_lock = None, rate_limit = Map.empty, insurance_pool = None,
       last_pause_timestamp = None, queue_tie_score_margin = None \<rparr>,
     invs = \<lparr> invoice_at = Map.empty, invoice_core_at = Map.empty, invoice_metadata_at = Map.empty,
       invoice_funders = Map.empty, next_id = None, appeal = Map.empty,
       pre_default_payer_score = Map.empty, dispute = Map.empty \<rparr>,
     idxs = \<lparr> submitter_invoices = Map.empty, lp_invoices = Map.empty, referral_count = Map.empty \<rparr>,
     reps = \<lparr> payer_score = Map.empty, reputation = Map.empty, lp_score = Map.empty,
       top_payers_heap = None \<rparr>,
     ques = \<lparr> fund_queue = Map.empty, queue_resolution = Map.empty, fund_queue_opened_at = Map.empty,
       queue_resolved_at = Map.empty \<rparr>,
     toks = \<lparr> approved_token = Map.empty, token_list = None, token_decimals = Map.empty,
       pending_payout_at = Map.empty, pending_payout_total_at = Map.empty, token_volume = Map.empty,
       token_volume_cap = Map.empty \<rparr>,
     stats = \<lparr> total_invoices = None, total_funded = None, total_paid = None,
       total_volume_usdc = None, total_volume_eurc = None, total_volume_xlm = None \<rparr>,
     nfts = \<lparr> invoice_nft = Map.empty, invoice_nft_owner = Map.empty \<rparr>,
     orcs = \<lparr> oracle_registry = Map.empty, token_oracle = Map.empty, oracle_health = Map.empty,
       oracle_interface_version = Map.empty, oracle_circuit_tripped = Map.empty,
       oracle_circuit_recovery = Map.empty, price_sources = Map.empty, max_price_deviation_bps = None,
       identity_oracles = Map.empty, identity_quorum = None, twap_enabled = Map.empty,
       twap_window_ledgers = None, min_twap_observations = None, twap_samples = Map.empty \<rparr>,
     mss = \<lparr> multisig = None, proposal = Map.empty, next_proposal_id = None,
       pending_action = Map.empty, rotation = None \<rparr>,
     alog = \<lparr> admin_action_count = None, admin_action_log = Map.empty \<rparr>,
     wld = w, evs = [] \<rparr>"

text \<open>
  Concrete environments for the examples: a ledger without any other contract, and an invocation
  of the contract at \<open>Address 0\<close> at a given time and sequence, authorised by a given set.
\<close>

definition no_contracts :: "'w ext" where
  "no_contracts = \<lparr> x_balance = (\<lambda>_ _ _. None), x_transfer = (\<lambda>_ _ _ _ _ _. None),
     x_decimals = (\<lambda>_ _. None), x_authorized = (\<lambda>_ _ _. None), x_payer_data = (\<lambda>_ _ _. None),
     x_price = (\<lambda>_ _ _. None), x_oracle_version = (\<lambda>_ _. None), x_accrue_lp = (\<lambda>_ _ _ _. None),
     x_accrue_settlement = (\<lambda>_ _ _ _ _. None), x_is_enrolled = (\<lambda>_ _ _. None),
     x_claim = (\<lambda>_ _ _ _. None) \<rparr>"

definition call_env :: "'w ext \<Rightarrow> nat \<Rightarrow> nat \<Rightarrow> address set \<Rightarrow> 'w env" where
  "call_env x ts sq as = \<lparr> timestamp = ts, sequence = sq, self = Address 0, auths = as, prng = 0,
     ext = x, MAX_FEE_TIERS = 10, MAX_PRICE_SOURCES_PER_FEED = 10, MAX_IDENTITY_ORACLES_PER_FEED = 10,
     get_ttl = (\<lambda>_. 200000), TTL_MIN_LEDGERS_BEFORE_UPGRADE = 1000, TTL_UPGRADE_SAMPLE_SIZE = 20,
     ROLLBACK_SAMPLE_SIZE = 20 \<rparr>"

type_synonym 'a result = "failure + 'a"
type_synonym ('w, 'a) outcome = "failure + 'a \<times> 'w state"

text \<open>Publishing an event; a failed \<open>require_auth\<close> traps.\<close>

definition publish :: "event \<Rightarrow> 'w state \<Rightarrow> 'w state" where
  "publish ev s = s\<lparr> evs := evs s @ [ev] \<rparr>"

definition require_auth :: "'w env \<Rightarrow> address \<Rightarrow> unit result" where
  "require_auth e a = (if a \<in> auths e then Inr () else Inl Trap)"

abbreviation err :: "contract_error \<Rightarrow> failure + 'a" where
  "err c \<equiv> Inl (Err c)"

definition ok_or_err :: "'a option \<Rightarrow> contract_error \<Rightarrow> 'a result" where
  "ok_or_err m c = ok_or m (Err c)"

text \<open>\<open>expect\<close> and \<open>unwrap\<close>, and calls to other contracts that trap.\<close>

definition expect :: "'a option \<Rightarrow> 'a result" where
  "expect m = ok_or m Trap"

lemma ok_or_err_simps [simp]: "ok_or_err None c = err c" "ok_or_err (Some x) c = Inr x"
  by (simp_all add: ok_or_err_def)

lemma ok_or_err_eq_Inr [res_simps]: "ok_or_err m c = Inr x \<longleftrightarrow> m = Some x"
  by (simp add: ok_or_err_def res_simps)

lemma expect_simps [simp]: "expect None = Inl Trap" "expect (Some x) = Inr x"
  by (simp_all add: expect_def)

lemma expect_eq_Inr [res_simps]: "expect m = Inr x \<longleftrightarrow> m = Some x"
  by (simp add: expect_def res_simps)

lemma require_auth_eq_Inr [res_simps]: "require_auth e a = Inr u \<longleftrightarrow> a \<in> auths e"
  by (simp add: require_auth_def)

lemma require_auth_mem [simp]: "a \<in> auths e \<Longrightarrow> require_auth e a = Inr ()"
  by (simp add: require_auth_def)

end
