(* ===== verification/InvoiceStore.thy ===== *)
theory InvoiceStore
  imports Storage
begin

text \<open>
  The storage helpers of src/contracts/invoice_liquidity/src/invoice.rs (invoice records, funder
  lists, submitter and LP indices, appeals, disputes, statistics, pause flag, rollout caps) and
  of storage.rs (configuration getters and setters, the split invoice format). lib.rs imports the
  invoice.rs versions where both files define a helper; the split writer and readers of storage.rs
  keep a \<open>split_\<close> prefix here.

  The lemmas give the read-after-write laws of the invoice records, the two invoice formats, and
  the index operations.
\<close>

named_theorems store_defs

section \<open>Configuration\<close>

abbreviation get_admin :: "'w state \<Rightarrow> address option" where
  "get_admin s \<equiv> admin (inst s)"

abbreviation get_config :: "'w state \<Rightarrow> config option" where
  "get_config s \<equiv> cfg (inst s)"

definition store_admin :: "address \<Rightarrow> 'w state \<Rightarrow> 'w state" where [store_defs]:
  "store_admin a s = s\<lparr> inst := (inst s)\<lparr> admin := Some a \<rparr> \<rparr>"

definition set_config :: "config \<Rightarrow> 'w state \<Rightarrow> 'w state" where [store_defs]:
  "set_config c s = s\<lparr> inst := (inst s)\<lparr> cfg := Some c \<rparr> \<rparr>"

definition get_insurance_pool :: "'w state \<Rightarrow> address option" where
  "get_insurance_pool s = insurance_pool (inst s)"

definition store_insurance_pool :: "address \<Rightarrow> 'w state \<Rightarrow> 'w state" where [store_defs]:
  "store_insurance_pool a s = s\<lparr> inst := (inst s)\<lparr> insurance_pool := Some a \<rparr> \<rparr>"

definition is_paused :: "'w state \<Rightarrow> bool" where
  "is_paused s = unwrap_or (paused (inst s)) False"

definition set_paused :: "'w env \<Rightarrow> bool \<Rightarrow> 'w state \<Rightarrow> 'w state" where [store_defs]:
  "set_paused e b s =
     (let s1 = s\<lparr> inst := (inst s)\<lparr> paused := Some b \<rparr> \<rparr>
      in if b then s1\<lparr> inst := (inst s1)\<lparr> last_pause_timestamp := Some (timestamp e) \<rparr> \<rparr> else s1)"

definition get_last_pause_timestamp :: "'w state \<Rightarrow> nat" where
  "get_last_pause_timestamp s = unwrap_or (last_pause_timestamp (inst s)) 0"

section \<open>Invoice records\<close>

definition save_invoice :: "invoice \<Rightarrow> 'w state \<Rightarrow> 'w state" where [store_defs]:
  "save_invoice i s = s\<lparr> invs := (invs s)\<lparr> invoice_at := (invoice_at (invs s))(inv_id i \<mapsto> i) \<rparr> \<rparr>"

definition load_invoice :: "nat \<Rightarrow> 'w state \<Rightarrow> invoice result" where
  "load_invoice n s = expect (invoice_at (invs s) n)"

definition invoice_exists :: "nat \<Rightarrow> 'w state \<Rightarrow> bool" where
  "invoice_exists n s \<longleftrightarrow> invoice_at (invs s) n \<noteq> None"

definition try_load_invoice :: "nat \<Rightarrow> 'w state \<Rightarrow> invoice option" where
  "try_load_invoice n s =
     (case (invoice_core_at (invs s) n, invoice_metadata_at (invs s) n) of
        (Some c, Some m) \<Rightarrow> Some (with_metadata c m)
      | _ \<Rightarrow> invoice_at (invs s) n)"

definition split_save_invoice :: "invoice \<Rightarrow> 'w state \<Rightarrow> 'w state" where [store_defs]:
  "split_save_invoice i s = s\<lparr> invs := (invs s)\<lparr>
     invoice_core_at := (invoice_core_at (invs s))(inv_id i \<mapsto> to_core i),
     invoice_metadata_at := (invoice_metadata_at (invs s))(inv_id i \<mapsto> to_metadata i) \<rparr> \<rparr>"

definition split_load_invoice :: "nat \<Rightarrow> 'w state \<Rightarrow> invoice result" where
  "split_load_invoice n s =
     (case (invoice_core_at (invs s) n, invoice_metadata_at (invs s) n) of
        (Some c, Some m) \<Rightarrow> Inr (with_metadata c m)
      | _ \<Rightarrow> expect (invoice_at (invs s) n))"

definition split_invoice_exists :: "nat \<Rightarrow> 'w state \<Rightarrow> bool" where
  "split_invoice_exists n s \<longleftrightarrow>
     invoice_core_at (invs s) n \<noteq> None \<or> invoice_at (invs s) n \<noteq> None"

definition try_load_invoice_core :: "nat \<Rightarrow> 'w state \<Rightarrow> invoice_core option" where
  "try_load_invoice_core n s =
     (case invoice_core_at (invs s) n of
        Some c \<Rightarrow> Some c
      | None \<Rightarrow> map_option to_core (invoice_at (invs s) n))"

definition load_invoice_core :: "nat \<Rightarrow> 'w state \<Rightarrow> invoice_core result" where
  "load_invoice_core n s = expect (try_load_invoice_core n s)"

definition read_next_invoice_id :: "'w state \<Rightarrow> nat" where
  "read_next_invoice_id s = unwrap_or (next_id (invs s)) 1"

definition write_next_invoice_id :: "nat \<Rightarrow> 'w state \<Rightarrow> 'w state" where [store_defs]:
  "write_next_invoice_id n s = s\<lparr> invs := (invs s)\<lparr> next_id := Some n \<rparr> \<rparr>"

definition next_invoice_id :: "'w state \<Rightarrow> ('w, nat) outcome" where
  "next_invoice_id s =
     (let current_id = read_next_invoice_id s in
      and_then (ok_or_err (checked_add_u64 current_id 1) ArithmeticOverflow) (\<lambda>n.
        Inr (current_id, write_next_invoice_id n s)))"

section \<open>Funder lists, appeals, disputes\<close>

definition get_invoice_funders :: "nat \<Rightarrow> 'w state \<Rightarrow> funders" where
  "get_invoice_funders n s = unwrap_or (invoice_funders (invs s) n) []"

definition save_invoice_funders :: "nat \<Rightarrow> funders \<Rightarrow> 'w state \<Rightarrow> 'w state" where [store_defs]:
  "save_invoice_funders n fs s = s\<lparr> invs := (invs s)\<lparr> invoice_funders :=
     (if fs = [] then (invoice_funders (invs s))(n := None)
      else (invoice_funders (invs s))(n \<mapsto> fs)) \<rparr> \<rparr>"

definition save_appeal :: "nat \<Rightarrow> appeal_record \<Rightarrow> 'w state \<Rightarrow> 'w state" where [store_defs]:
  "save_appeal n r s = s\<lparr> invs := (invs s)\<lparr> appeal := (appeal (invs s))(n \<mapsto> r) \<rparr> \<rparr>"

definition save_pre_default_payer_score :: "nat \<Rightarrow> nat \<Rightarrow> 'w state \<Rightarrow> 'w state" where [store_defs]:
  "save_pre_default_payer_score n sc s = s\<lparr> invs := (invs s)\<lparr>
     pre_default_payer_score := (pre_default_payer_score (invs s))(n \<mapsto> sc) \<rparr> \<rparr>"

definition save_dispute :: "nat \<Rightarrow> dispute_record \<Rightarrow> 'w state \<Rightarrow> 'w state" where [store_defs]:
  "save_dispute n r s = s\<lparr> invs := (invs s)\<lparr> dispute := (dispute (invs s))(n \<mapsto> r) \<rparr> \<rparr>"

section \<open>Indices\<close>

definition get_submitter_invoices :: "address \<Rightarrow> 'w state \<Rightarrow> nat list" where
  "get_submitter_invoices a s = unwrap_or (submitter_invoices (idxs s) a) []"

definition add_invoice_to_submitter :: "address \<Rightarrow> nat \<Rightarrow> 'w state \<Rightarrow> 'w state" where [store_defs]:
  "add_invoice_to_submitter a n s = s\<lparr> idxs := (idxs s)\<lparr> submitter_invoices :=
     (submitter_invoices (idxs s))(a \<mapsto> get_submitter_invoices a s @ [n]) \<rparr> \<rparr>"

definition remove_invoice_from_submitter :: "address \<Rightarrow> nat \<Rightarrow> 'w state \<Rightarrow> 'w state" where [store_defs]:
  "remove_invoice_from_submitter a n s =
     (let ids = filter (\<lambda>i. i \<noteq> n) (get_submitter_invoices a s) in
      s\<lparr> idxs := (idxs s)\<lparr> submitter_invoices :=
        (submitter_invoices (idxs s))(a := if ids = [] then None else Some ids) \<rparr> \<rparr>)"

definition get_lp_invoices :: "address \<Rightarrow> 'w state \<Rightarrow> nat list" where
  "get_lp_invoices a s = unwrap_or (lp_invoices (idxs s) a) []"

definition add_invoice_to_lp :: "address \<Rightarrow> nat \<Rightarrow> 'w state \<Rightarrow> 'w state" where [store_defs]:
  "add_invoice_to_lp a n s =
     (if n \<in> set (get_lp_invoices a s) then s
      else s\<lparr> idxs := (idxs s)\<lparr> lp_invoices :=
        (lp_invoices (idxs s))(a \<mapsto> get_lp_invoices a s @ [n]) \<rparr> \<rparr>)"

definition remove_invoice_from_lp :: "address \<Rightarrow> nat \<Rightarrow> 'w state \<Rightarrow> 'w state" where [store_defs]:
  "remove_invoice_from_lp a n s =
     (let ids = filter (\<lambda>i. i \<noteq> n) (get_lp_invoices a s) in
      s\<lparr> idxs := (idxs s)\<lparr> lp_invoices :=
        (lp_invoices (idxs s))(a := if ids = [] then None else Some ids) \<rparr> \<rparr>)"

section \<open>Rollout caps and statistics\<close>

definition get_min_payer_reputation :: "'w state \<Rightarrow> nat" where
  "get_min_payer_reputation s = unwrap_or (min_payer_reputation (inst s)) 0"

definition store_min_payer_reputation :: "nat \<Rightarrow> 'w state \<Rightarrow> 'w state" where [store_defs]:
  "store_min_payer_reputation v s = s\<lparr> inst := (inst s)\<lparr> min_payer_reputation := Some v \<rparr> \<rparr>"

definition get_max_invoice_amount :: "'w state \<Rightarrow> int" where
  "get_max_invoice_amount s = unwrap_or (max_invoice_amount (inst s)) 0"

definition store_max_invoice_amount :: "int \<Rightarrow> 'w state \<Rightarrow> 'w state" where [store_defs]:
  "store_max_invoice_amount v s = s\<lparr> inst := (inst s)\<lparr> max_invoice_amount := Some v \<rparr> \<rparr>"

definition get_token_volume_cap :: "address \<Rightarrow> 'w state \<Rightarrow> int" where
  "get_token_volume_cap t s = unwrap_or (token_volume_cap (toks s) t) 0"

definition store_token_volume_cap :: "address \<Rightarrow> int \<Rightarrow> 'w state \<Rightarrow> 'w state" where [store_defs]:
  "store_token_volume_cap t v s =
     s\<lparr> toks := (toks s)\<lparr> token_volume_cap := (token_volume_cap (toks s))(t \<mapsto> v) \<rparr> \<rparr>"

definition get_token_volume :: "address \<Rightarrow> 'w state \<Rightarrow> int" where
  "get_token_volume t s = unwrap_or (token_volume (toks s) t) 0"

definition is_xlm_token :: "address \<Rightarrow> 'w state \<Rightarrow> bool" where
  "is_xlm_token t s = (case get_config s of Some c \<Rightarrow> t = xlm_sac_address c | None \<Rightarrow> False)"

definition is_usdc_token :: "address \<Rightarrow> 'w state \<Rightarrow> bool" where
  "is_usdc_token t s = (case get_config s of Some c \<Rightarrow> t = usdc_sac_address c | None \<Rightarrow> False)"

definition is_eurc_token :: "address \<Rightarrow> 'w state \<Rightarrow> bool" where
  "is_eurc_token t s = (case get_config s of Some c \<Rightarrow> t = eurc_sac_address c | None \<Rightarrow> False)"

definition add_volume :: "address \<Rightarrow> int \<Rightarrow> 'w state \<Rightarrow> 'w state" where [store_defs]:
  "add_volume t a s =
     (let s1 = s\<lparr> toks := (toks s)\<lparr> token_volume :=
            (token_volume (toks s))(t \<mapsto> saturating_add (get_token_volume t s) a) \<rparr> \<rparr>
      in if is_xlm_token t s1 then
           s1\<lparr> stats := (stats s1)\<lparr> total_volume_xlm :=
             Some (saturating_add (unwrap_or (total_volume_xlm (stats s1)) 0) a) \<rparr> \<rparr>
         else if is_usdc_token t s1 then
           s1\<lparr> stats := (stats s1)\<lparr> total_volume_usdc :=
             Some (saturating_add (unwrap_or (total_volume_usdc (stats s1)) 0) a) \<rparr> \<rparr>
         else if is_eurc_token t s1 then
           s1\<lparr> stats := (stats s1)\<lparr> total_volume_eurc :=
             Some (saturating_add (unwrap_or (total_volume_eurc (stats s1)) 0) a) \<rparr> \<rparr>
         else s1)"

definition increment_total_invoices :: "'w state \<Rightarrow> 'w state" where [store_defs]:
  "increment_total_invoices s = s\<lparr> stats := (stats s)\<lparr> total_invoices :=
     Some (sat_add_u64 (unwrap_or (total_invoices (stats s)) 0) 1) \<rparr> \<rparr>"

definition increment_total_funded :: "'w state \<Rightarrow> 'w state" where [store_defs]:
  "increment_total_funded s = s\<lparr> stats := (stats s)\<lparr> total_funded :=
     Some (sat_add_u64 (unwrap_or (total_funded (stats s)) 0) 1) \<rparr> \<rparr>"

definition increment_total_paid :: "'w state \<Rightarrow> 'w state" where [store_defs]:
  "increment_total_paid s = s\<lparr> stats := (stats s)\<lparr> total_paid :=
     Some (sat_add_u64 (unwrap_or (total_paid (stats s)) 0) 1) \<rparr> \<rparr>"

definition get_queue_tie_score_margin :: "'w state \<Rightarrow> nat" where
  "get_queue_tie_score_margin s = unwrap_or (queue_tie_score_margin (inst s)) 0"

definition set_queue_tie_score_margin :: "nat \<Rightarrow> 'w state \<Rightarrow> 'w state" where [store_defs]:
  "set_queue_tie_score_margin m s = s\<lparr> inst := (inst s)\<lparr> queue_tie_score_margin := Some (min m 50) \<rparr> \<rparr>"

text \<open>No invoice is stored in the split format: the case in every state the entry points reach.\<close>

definition no_split :: "'w state \<Rightarrow> bool" where
  "no_split s \<longleftrightarrow> invoice_core_at (invs s) = Map.empty"

declare publish_def [store_defs]

section \<open>Lemmas\<close>

text \<open>
  Both invoice formats are record stores: an invoice that was saved is found under its id, and
  saving it leaves every other id alone.
\<close>

locale invoice_repository =
  fixes save :: "invoice \<Rightarrow> 's \<Rightarrow> 's"
    and find :: "nat \<Rightarrow> 's \<Rightarrow> invoice option"
  assumes find_save: "find n (save i s) = (if n = inv_id i then Some i else find n s)"
begin

lemma find_save_all:
  "distinct (map inv_id is) \<Longrightarrow> i \<in> set is \<Longrightarrow> find (inv_id i) (fold save is s) = Some i"
proof (induction "is" arbitrary: s rule: rev_induct)
  case (snoc x xs)
  then show ?case by (auto simp: find_save) (metis imageI)
qed simp

lemma find_save_all_other:
  "n \<notin> inv_id ` set is \<Longrightarrow> find n (fold save is s) = find n s"
  by (induction "is" arbitrary: s) (auto simp: find_save)

end

interpretation legacy_repo: invoice_repository save_invoice "\<lambda>n s. invoice_at (invs s) n"
  by unfold_locales (simp add: save_invoice_def)

interpretation split_repo: invoice_repository split_save_invoice try_load_invoice
  by unfold_locales (simp add: split_save_invoice_def try_load_invoice_def split_format_roundtrip
      split: option.splits)

text \<open>
  The two formats do not mix: where both halves of an invoice are stored, the readers that prefer
  them do not see what the legacy writer saves.
\<close>

lemma legacy_write_hidden_by_split:
  assumes "invoice_core_at (invs s) (inv_id i) = Some c"
    and "invoice_metadata_at (invs s) (inv_id i) = Some m"
  shows "try_load_invoice (inv_id i) (save_invoice i s) = Some (with_metadata c m)"
  using assms by (simp add: try_load_invoice_def save_invoice_def)

lemma try_load_no_split: "no_split s \<Longrightarrow> try_load_invoice n s = invoice_at (invs s) n"
  by (simp add: try_load_invoice_def no_split_def)

lemma try_load_invoice_frame: "invs s' = invs s \<Longrightarrow> try_load_invoice n s' = try_load_invoice n s"
  by (simp add: try_load_invoice_def split: option.splits)

lemma load_invoice_eq_Inr [res_simps]: "load_invoice n s = Inr i \<longleftrightarrow> invoice_at (invs s) n = Some i"
  by (simp add: load_invoice_def res_simps)

lemma next_invoice_id_eq_Inr [res_simps]:
  "next_invoice_id s = Inr (n, s') \<longleftrightarrow>
     n = read_next_invoice_id s \<and> n + 1 \<le> u64_max \<and> s' = write_next_invoice_id (n + 1) s"
  by (auto simp: next_invoice_id_def Let_def res_simps)

lemma funders_save_same [simp]: "get_invoice_funders n (save_invoice_funders n fs s) = fs"
  by (simp add: get_invoice_funders_def save_invoice_funders_def)

lemma funders_save_other [simp]:
  "m \<noteq> n \<Longrightarrow> get_invoice_funders m (save_invoice_funders n fs s) = get_invoice_funders m s"
  by (simp add: get_invoice_funders_def save_invoice_funders_def)

lemma get_invoice_funders_frame:
  "invoice_funders (invs s') n = invoice_funders (invs s) n \<Longrightarrow>
     get_invoice_funders n s' = get_invoice_funders n s"
  by (simp add: get_invoice_funders_def)

text \<open>The LP index holds an invoice once however often its LP funds it.\<close>

lemma add_invoice_to_lp_spec:
  assumes "distinct (get_lp_invoices a s)"
  shows "distinct (get_lp_invoices a (add_invoice_to_lp a n s))"
    and "set (get_lp_invoices a (add_invoice_to_lp a n s)) = insert n (set (get_lp_invoices a s))"
  using assms by (auto simp: add_invoice_to_lp_def get_lp_invoices_def)

lemma remove_invoice_from_lp_spec:
  "get_lp_invoices a (remove_invoice_from_lp a n s) = filter (\<lambda>i. i \<noteq> n) (get_lp_invoices a s)"
  by (simp add: remove_invoice_from_lp_def get_lp_invoices_def Let_def)

lemma is_paused_frame: "inst s' = inst s \<Longrightarrow> is_paused s' = is_paused s"
  by (simp add: is_paused_def)

end
