(* ===== verification/TokenSafety.thy ===== *)
theory TokenSafety
  imports InvoiceStore
begin

text \<open>
  Token calls and payouts (src/contracts/invoice_liquidity/src/token_safety.rs): decimals
  validation, Stellar Asset Contract authorisation, and the outbound payouts that escrow a frozen
  recipient's share instead of failing.

  The token contracts are outside the program. The locale \<open>sep41\<close> states what their documented
  interface promises; \<open>sep41_spend\<close> adds that a transfer cannot take more than the sender holds.

  Shown here: the escrow book is the sum of its entries after every payout and claim, a payout
  never spends what is reserved for escrowed recipients, and what leaves the contract's balance
  plus what is newly escrowed is exactly the amount paid.
\<close>

section \<open>Calls to token contracts\<close>

definition token_balance :: "'w env \<Rightarrow> address \<Rightarrow> address \<Rightarrow> 'w state \<Rightarrow> int result" where
  "token_balance e t a s = expect (x_balance (ext e) (wld s) t a)"

text \<open>The contract authorises the transfers it makes from its own address.\<close>

definition token_transfer ::
    "'w env \<Rightarrow> address \<Rightarrow> address \<Rightarrow> address \<Rightarrow> int \<Rightarrow> 'w state \<Rightarrow> 'w state result" where
  "token_transfer e t from to a s =
     and_then (expect (x_transfer (ext e) (wld s) t (insert (self e) (auths e)) from to a))
       (\<lambda>w. Inr (s\<lparr> wld := w \<rparr>))"

section \<open>Decimals\<close>

definition MAX_TOKEN_DECIMALS :: nat where "MAX_TOKEN_DECIMALS = 18"

definition validate_token_decimals :: "'w env \<Rightarrow> address \<Rightarrow> nat \<Rightarrow> 'w state \<Rightarrow> unit result" where
  "validate_token_decimals e t declared s =
     (if declared > MAX_TOKEN_DECIMALS then err InvalidTokenDecimals
      else case x_decimals (ext e) (wld s) t of
             None \<Rightarrow> err TokenDecimalsUnavailable
           | Some on_chain \<Rightarrow> if on_chain \<noteq> declared then err InvalidTokenDecimals else Inr ())"

definition registered_token_decimals :: "address \<Rightarrow> 'w state \<Rightarrow> nat result" where
  "registered_token_decimals t s = ok_or_err (token_decimals (toks s) t) TokenDecimalsNotConfigured"

record token_decimals_audit =
  registered :: "nat option"
  on_chain :: "nat option"

definition audit_matches :: "token_decimals_audit \<Rightarrow> bool" where
  "audit_matches a = (case (registered a, on_chain a) of (Some r, Some o') \<Rightarrow> r = o' | _ \<Rightarrow> False)"

definition audit_token_decimals :: "'w env \<Rightarrow> address \<Rightarrow> 'w state \<Rightarrow> token_decimals_audit" where
  "audit_token_decimals e t s =
     \<lparr> registered = token_decimals (toks s) t, on_chain = x_decimals (ext e) (wld s) t \<rparr>"

section \<open>Authorisation flags\<close>

definition query_authorized :: "'w env \<Rightarrow> address \<Rightarrow> address \<Rightarrow> 'w state \<Rightarrow> bool option" where
  "query_authorized e t a s = x_authorized (ext e) (wld s) t a"

definition is_authorized :: "'w env \<Rightarrow> address \<Rightarrow> address \<Rightarrow> 'w state \<Rightarrow> bool" where
  "is_authorized e t a s \<longleftrightarrow> query_authorized e t a s = Some True"

definition require_authorized :: "'w env \<Rightarrow> address \<Rightarrow> address \<Rightarrow> 'w state \<Rightarrow> unit result" where
  "require_authorized e t a s =
     (case query_authorized e t a s of
        Some True \<Rightarrow> Inr ()
      | Some False \<Rightarrow> err AccountFrozen
      | None \<Rightarrow> if query_authorized e t (self e) s \<noteq> None then err AccountFrozen
               else err TokenAuthorizationUnavailable)"

definition validate_sac_authorization :: "'w env \<Rightarrow> address \<Rightarrow> address \<Rightarrow> 'w state \<Rightarrow> unit result" where
  "validate_sac_authorization e t adm s =
     (case query_authorized e t (self e) s of
        None \<Rightarrow> err TokenAuthorizationUnavailable
      | Some False \<Rightarrow> err AccountFrozen
      | Some True \<Rightarrow> require_authorized e t adm s)"

section \<open>Outbound payouts\<close>

definition pending_payout_total :: "address \<Rightarrow> 'w state \<Rightarrow> int" where
  "pending_payout_total t s = unwrap_or (pending_payout_total_at (toks s) t) 0"

definition pending_payout :: "address \<Rightarrow> address \<Rightarrow> 'w state \<Rightarrow> int" where
  "pending_payout recipient t s = unwrap_or (pending_payout_at (toks s) (recipient, t)) 0"

definition set_pending :: "address \<Rightarrow> address \<Rightarrow> int \<Rightarrow> int \<Rightarrow> 'w state \<Rightarrow> 'w state" where
  "set_pending recipient t a tot s = s\<lparr> toks := (toks s)\<lparr>
     pending_payout_at := (pending_payout_at (toks s))((recipient, t) := if a > 0 then Some a else None),
     pending_payout_total_at := (pending_payout_total_at (toks s))(t := if tot > 0 then Some tot else None) \<rparr> \<rparr>"

definition ensure_spendable :: "'w env \<Rightarrow> address \<Rightarrow> int \<Rightarrow> int \<Rightarrow> 'w state \<Rightarrow> unit result" where
  "ensure_spendable e t a reserved s =
     and_then (token_balance e t (self e) s) (\<lambda>balance.
     if saturating_sub balance reserved < a then err InsufficientContractBalance else Inr ())"

definition transfer_out_strict :: "'w env \<Rightarrow> address \<Rightarrow> address \<Rightarrow> int \<Rightarrow> 'w state \<Rightarrow> 'w state result" where
  "transfer_out_strict e t to a s =
     (if a \<le> 0 then Inr s
      else and_then (ensure_spendable e t a (pending_payout_total t s) s) (\<lambda>_.
           and_then (require_authorized e t to s) (\<lambda>_.
           token_transfer e t (self e) to a s)))"

definition pay_or_escrow ::
    "'w env \<Rightarrow> address \<Rightarrow> address \<Rightarrow> int \<Rightarrow> nat \<Rightarrow> 'w state \<Rightarrow> ('w, bool) outcome" where
  "pay_or_escrow e t to a invoice_id s =
     (if a \<le> 0 then Inr (True, s)
      else let total = pending_payout_total t s in
        and_then (ensure_spendable e t a total s) (\<lambda>_.
        if is_authorized e t to s then
          and_then (token_transfer e t (self e) to a s) (\<lambda>s'. Inr (True, s'))
        else
          and_then (ok_or_err (checked_add (pending_payout to t s) a) ArithmeticOverflow) (\<lambda>owed.
          and_then (ok_or_err (checked_add total a) ArithmeticOverflow) (\<lambda>new_total.
          Inr (False, publish (EvPayoutEscrowed invoice_id to t a owed) (set_pending to t owed new_total s))))))"

definition claim_pending :: "'w env \<Rightarrow> address \<Rightarrow> address \<Rightarrow> 'w state \<Rightarrow> ('w, int) outcome" where
  "claim_pending e recipient t s =
     (let a = pending_payout recipient t s in
      if a \<le> 0 then err NothingToClaim
      else and_then (require_authorized e t recipient s) (\<lambda>_.
        let total = pending_payout_total t s in
        and_then (ensure_spendable e t a (saturating_sub total a) s) (\<lambda>_.
        and_then (token_transfer e t (self e) recipient a
                    (set_pending recipient t 0 (saturating_sub total a) s)) (\<lambda>s'.
        Inr (a, publish (EvPendingPayoutClaimed recipient t a) s')))))"

text \<open>
  The escrow book of a token: finitely many positive entries whose sum is the recorded total, and
  the amount the contract still owes to recipients outside a given set.
\<close>

definition owed_to :: "token_store \<Rightarrow> address \<Rightarrow> address \<Rightarrow> int" where
  "owed_to ts t a = unwrap_or (pending_payout_at ts (a, t)) 0"

definition escrow_ok :: "token_store \<Rightarrow> bool" where
  "escrow_ok ts \<longleftrightarrow>
     finite (dom (pending_payout_at ts)) \<and>
     (\<forall>k x. pending_payout_at ts k = Some x \<longrightarrow> 0 < x) \<and>
     (\<forall>t. unwrap_or (pending_payout_total_at ts t) 0 =
          (\<Sum>a \<in> {a. (a, t) \<in> dom (pending_payout_at ts)}. owed_to ts t a)) \<and>
     (\<forall>t. unwrap_or (pending_payout_total_at ts t) 0 \<le> i128_max)"

text \<open>The contract holds at least what it has escrowed of a token.\<close>

definition escrow_covered :: "'w env \<Rightarrow> address \<Rightarrow> 'w state \<Rightarrow> bool" where
  "escrow_covered e t s \<longleftrightarrow>
     (case x_balance (ext e) (wld s) t (self e) of
        None \<Rightarrow> False
      | Some v \<Rightarrow> pending_payout_total t s \<le> v)"

section \<open>The token interface\<close>

text \<open>
  What SEP-41 documents of \<open>transfer\<close> and \<open>balance\<close>: a transfer needs the sender's
  authorisation; when it returns, the amount has moved from the sender's balance to the
  recipient's and no other balance changed.
\<close>

locale sep41 =
  fixes X :: "'w ext"
  assumes transfer_auth: "x_transfer X w t as from to a = Some w' \<Longrightarrow> from \<in> as"
    and transfer_balance: "x_transfer X w t as from to a = Some w' \<Longrightarrow> x_balance X w t b = Some v \<Longrightarrow>
      x_balance X w' t b = Some (v - (if b = from then a else 0) + (if b = to then a else 0))"
    and transfer_other: "x_transfer X w t as from to a = Some w' \<Longrightarrow> t' \<noteq> t \<Longrightarrow>
      x_balance X w' t' b = x_balance X w t' b"

text \<open>A transfer takes no more than the sender holds.\<close>

locale sep41_spend = sep41 +
  assumes transfer_covered: "x_transfer X w t as from to a = Some w' \<Longrightarrow> x_balance X w t from = Some v \<Longrightarrow>
      a \<le> v"

section \<open>Lemmas: the escrow book\<close>

lemma token_transfer_eq_Inr [res_simps]:
  "token_transfer e t from to a s = Inr s' \<longleftrightarrow>
     (\<exists>w. x_transfer (ext e) (wld s) t (insert (self e) (auths e)) from to a = Some w \<and> s' = s\<lparr> wld := w \<rparr>)"
  by (auto simp: token_transfer_def res_simps)

lemma require_authorized_eq_Inr [res_simps]:
  "require_authorized e t a s = Inr u \<longleftrightarrow> x_authorized (ext e) (wld s) t a = Some True"
  by (auto simp: require_authorized_def query_authorized_def split: option.splits bool.splits)

lemma ensure_spendable_eq_Inr [res_simps]:
  "ensure_spendable e t a r s = Inr u \<longleftrightarrow>
     (\<exists>v. x_balance (ext e) (wld s) t (self e) = Some v \<and> a \<le> saturating_sub v r)"
  by (auto simp: ensure_spendable_def token_balance_def res_simps not_less)

lemma saturating_sub_ge: "i128_min < a \<Longrightarrow> a \<le> saturating_sub v r \<Longrightarrow> a \<le> v - r"
  by (auto simp: saturating_sub_def clamp_i128_def split: if_splits)

lemma owed_nonneg: "escrow_ok ts \<Longrightarrow> 0 \<le> owed_to ts t a"
  by (cases "pending_payout_at ts (a, t)") (auto simp: owed_to_def escrow_ok_def dest: less_imp_le)

lemma finite_creditors: "escrow_ok ts \<Longrightarrow> finite {a. (a, t) \<in> dom (pending_payout_at ts)}"
  by (rule finite_subset [where B = "fst ` dom (pending_payout_at ts)"])
    (auto simp: escrow_ok_def intro: rev_image_eqI)

text \<open>The sum does not change when addresses that are owed nothing are added to it.\<close>

lemma escrow_sum_superset:
  assumes "escrow_ok ts" and "finite B" and "{a. (a, t) \<in> dom (pending_payout_at ts)} \<subseteq> B"
  shows "unwrap_or (pending_payout_total_at ts t) 0 = (\<Sum>a \<in> B. owed_to ts t a)"
proof -
  have "(\<Sum>a \<in> {a. (a, t) \<in> dom (pending_payout_at ts)}. owed_to ts t a) = (\<Sum>a \<in> B. owed_to ts t a)"
    using assms(2,3) by (intro sum.mono_neutral_left) (auto simp: owed_to_def domIff unwrap_or_def)
  then show ?thesis using assms(1) by (simp add: escrow_ok_def)
qed

lemma owed_le_total: "escrow_ok ts \<Longrightarrow> owed_to ts t a \<le> unwrap_or (pending_payout_total_at ts t) 0"
proof -
  assume ok: "escrow_ok ts"
  let ?B = "insert a {a. (a, t) \<in> dom (pending_payout_at ts)}"
  have "unwrap_or (pending_payout_total_at ts t) 0 = (\<Sum>b \<in> ?B. owed_to ts t b)"
    using escrow_sum_superset [OF ok, of ?B t] finite_creditors [OF ok, of t] by auto
  also have "owed_to ts t a \<le> \<dots>"
    using finite_creditors [OF ok, of t] owed_nonneg [OF ok] by (intro member_le_sum) auto
  finally show ?thesis .
qed

lemma set_pending_escrow_ok:
  assumes ok: "escrow_ok (toks s)" and a: "0 \<le> a"
    and tot: "tot = pending_payout_total t s - pending_payout r t s + a" and "tot \<le> i128_max"
  shows "escrow_ok (toks (set_pending r t a tot s))"
proof -
  let ?ts = "toks s" and ?ts' = "toks (set_pending r t a tot s)"
  have dom': "{b. (b, t') \<in> dom (pending_payout_at ?ts')} \<subseteq> insert r {b. (b, t') \<in> dom (pending_payout_at ?ts)}" for t'
    by (auto simp: set_pending_def split: if_splits)
  have owed': "owed_to ?ts' t' b = (if b = r \<and> t' = t then a else owed_to ?ts t' b)" for t' b
    using a by (auto simp: set_pending_def owed_to_def)
  have total': "unwrap_or (pending_payout_total_at ?ts' t') 0 = (\<Sum>b \<in> insert r {b. (b, t') \<in> dom (pending_payout_at ?ts)}. owed_to ?ts' t' b)" for t'
  proof (cases "t' = t")
    case False
    then have "unwrap_or (pending_payout_total_at ?ts' t') 0 = unwrap_or (pending_payout_total_at ?ts t') 0"
      by (simp add: set_pending_def)
    then show ?thesis
      using escrow_sum_superset [OF ok, of "insert r {b. (b, t') \<in> dom (pending_payout_at ?ts)}" t']
        finite_creditors [OF ok, of t'] False by (auto simp: owed')
  next
    case True
    let ?B = "insert r {b. (b, t) \<in> dom (pending_payout_at ?ts)}"
    have fin: "finite ?B" using finite_creditors [OF ok, of t] by simp
    have old: "pending_payout_total t s = owed_to ?ts t r + (\<Sum>b \<in> ?B - {r}. owed_to ?ts t b)"
      using escrow_sum_superset [OF ok fin, of t] fin
      by (auto simp: pending_payout_total_def sum.remove [of ?B r])
    have "(\<Sum>b \<in> ?B. owed_to ?ts' t b) = a + (\<Sum>b \<in> ?B - {r}. owed_to ?ts t b)"
      using fin by (subst sum.remove [of ?B r]) (auto simp: owed' intro!: sum.cong)
    then have sum: "(\<Sum>b \<in> ?B. owed_to ?ts' t b) = tot"
      using old tot by (simp add: pending_payout_def owed_to_def)
    moreover have "0 \<le> (\<Sum>b \<in> ?B. owed_to ?ts' t b)"
      using a owed_nonneg [OF ok] by (intro sum_nonneg) (simp add: owed')
    ultimately show ?thesis using True by (auto simp: set_pending_def)
  qed
  have "unwrap_or (pending_payout_total_at ?ts' t') 0 = (\<Sum>b \<in> {b. (b, t') \<in> dom (pending_payout_at ?ts')}. owed_to ?ts' t' b)" for t'
    unfolding total' using finite_creditors [OF ok, of t'] dom' [of t']
    by (intro sum.mono_neutral_right) (auto simp: owed_to_def domIff unwrap_or_def split: option.splits)
  moreover have "finite (dom (pending_payout_at ?ts'))"
    using ok by (auto simp: set_pending_def escrow_ok_def)
  moreover have "0 < x" if "pending_payout_at ?ts' k = Some x" for k x
    using that ok by (cases k) (auto simp: set_pending_def escrow_ok_def split: if_splits)
  moreover have "unwrap_or (pending_payout_total_at ?ts' t') 0 \<le> i128_max" for t'
    using ok assms(4) by (auto simp: set_pending_def escrow_ok_def width_defs)
  ultimately show ?thesis by (simp add: escrow_ok_def)
qed

lemma set_pending_frame [simp]:
  "inst (set_pending r t a tot s) = inst s" "invs (set_pending r t a tot s) = invs s"
  "idxs (set_pending r t a tot s) = idxs s" "reps (set_pending r t a tot s) = reps s"
  "ques (set_pending r t a tot s) = ques s" "stats (set_pending r t a tot s) = stats s"
  "nfts (set_pending r t a tot s) = nfts s" "orcs (set_pending r t a tot s) = orcs s"
  "mss (set_pending r t a tot s) = mss s" "alog (set_pending r t a tot s) = alog s"
  "wld (set_pending r t a tot s) = wld s" "evs (set_pending r t a tot s) = evs s"
  by (simp_all add: set_pending_def)

lemma pending_set_pending [simp]:
  "0 \<le> a \<Longrightarrow> pending_payout r t (set_pending r t a tot s) = a"
  "0 \<le> tot \<Longrightarrow> pending_payout_total t (set_pending r t a tot s) = tot"
  by (simp_all add: set_pending_def pending_payout_def pending_payout_total_def)

lemma pending_total_nonneg: "escrow_ok (toks s) \<Longrightarrow> 0 \<le> pending_payout_total t s"
  using owed_le_total [of "toks s" t undefined] owed_nonneg [of "toks s" t undefined]
  by (simp add: pending_payout_total_def)

lemma pending_nonneg: "escrow_ok (toks s) \<Longrightarrow> 0 \<le> pending_payout a t s"
  using owed_nonneg [of "toks s" t a] by (simp add: pending_payout_def owed_to_def)

lemma pending_le_total: "escrow_ok (toks s) \<Longrightarrow> pending_payout a t s \<le> pending_payout_total t s"
  using owed_le_total [of "toks s" t a] by (simp add: pending_payout_def pending_payout_total_def owed_to_def)

lemma pending_total_le_max: "escrow_ok (toks s) \<Longrightarrow> pending_payout_total t s \<le> i128_max"
  unfolding escrow_ok_def pending_payout_total_def by blast

text \<open>What a successful payout does: the amount leaves the contract or is escrowed.\<close>

lemma pay_or_escrow_cases:
  assumes "pay_or_escrow e t to a n s = Inr (b, s')"
  shows "a \<le> 0 \<and> b \<and> s' = s \<or>
    0 < a \<and> b \<and> (\<exists>w. x_transfer (ext e) (wld s) t (insert (self e) (auths e)) (self e) to a = Some w \<and>
        s' = s\<lparr> wld := w \<rparr>) \<or>
    0 < a \<and> \<not> b \<and> in_i128 (pending_payout_total t s + a) \<and>
      s' = publish (EvPayoutEscrowed n to t a (pending_payout to t s + a))
             (set_pending to t (pending_payout to t s + a) (pending_payout_total t s + a) s)"
  using assms by (auto simp: pay_or_escrow_def Let_def res_simps split: if_splits)

lemma pay_or_escrow_spendable:
  assumes "pay_or_escrow e t to a n s = Inr (b, s')" and "0 < a"
  obtains v where "x_balance (ext e) (wld s) t (self e) = Some v" "a \<le> v - pending_payout_total t s"
  using assms saturating_sub_ge [of a]
  by (auto simp: pay_or_escrow_def Let_def res_simps width_defs split: if_splits)

context sep41
begin

lemma transfer_out_balance:
  assumes "ext e = X" and "token_transfer e t (self e) to a s = Inr s'" and "to \<noteq> self e"
    and "x_balance X (wld s) t (self e) = Some v"
  shows "x_balance X (wld s') t (self e) = Some (v - a)"
  using assms transfer_balance [of "wld s" t "insert (self e) (auths e)" "self e" to a _ "self e" v]
  by (auto simp: res_simps)

lemma pay_or_escrow_correct:
  assumes X: "ext e = X" and pay: "pay_or_escrow e t to a n s = Inr (b, s')"
    and ok: "escrow_ok (toks s)" and to: "to \<noteq> self e" and a: "0 < a"
    and v: "x_balance X (wld s) t (self e) = Some v"
  shows "escrow_ok (toks s') \<and> escrow_covered e t s' \<and>
    (if b then x_balance X (wld s') t (self e) = Some (v - a) \<and> toks s' = toks s
     else wld s' = wld s \<and> pending_payout to t s' = pending_payout to t s + a \<and>
       pending_payout_total t s' = pending_payout_total t s + a)"
proof -
  have spend: "a \<le> v - pending_payout_total t s"
    using pay_or_escrow_spendable [OF pay a] v X by auto
  note nonneg = pending_total_nonneg [OF ok, of t] pending_nonneg [OF ok, of to t]
  show ?thesis
  proof (cases b)
    case True
    then obtain w where w: "x_transfer X (wld s) t (insert (self e) (auths e)) (self e) to a = Some w"
      "s' = s\<lparr> wld := w \<rparr>"
      using pay_or_escrow_cases [OF pay] a X by auto
    have "x_balance X w t (self e) = Some (v - a)"
      using transfer_balance [OF w(1) v] to by simp
    then show ?thesis using True w(2) ok spend X
      by (simp add: escrow_covered_def pending_payout_total_def)
  next
    case False
    let ?p = "pending_payout to t s + a" and ?tot = "pending_payout_total t s + a"
    have s': "s' = publish (EvPayoutEscrowed n to t a ?p) (set_pending to t ?p ?tot s)" "in_i128 ?tot"
      using pay_or_escrow_cases [OF pay] a False by auto
    have "escrow_ok (toks (set_pending to t ?p ?tot s))"
      using set_pending_escrow_ok [OF ok, of ?p ?tot t to] nonneg a s'(2) by (simp add: in_i128_def)
    then show ?thesis
      using False s'(1) nonneg a v X spend
      by (simp add: publish_def escrow_covered_def pending_payout_def pending_payout_total_def set_pending_def)
  qed
qed

text \<open>A payout that is made credits the recipient with what it debits; no other balance moves.\<close>

lemma pay_or_escrow_moves:
  assumes "ext e = X" and "pay_or_escrow e t to a n s = Inr (True, s')" and "0 < a"
    and "x_balance X (wld s) t c = Some u"
  shows "x_balance X (wld s') t c = Some (u - (if c = self e then a else 0) + (if c = to then a else 0))"
  using pay_or_escrow_cases [OF assms(2)] assms(1,3) transfer_balance [OF _ assms(4)] by auto

lemma transfer_out_strict_correct:
  assumes X: "ext e = X" and pay: "transfer_out_strict e t to a s = Inr s'"
    and ok: "escrow_ok (toks s)" and to: "to \<noteq> self e" and a: "0 < a"
    and v: "x_balance X (wld s) t (self e) = Some v"
  shows "toks s' = toks s \<and> escrow_covered e t s' \<and> x_balance X (wld s') t (self e) = Some (v - a)"
proof -
  have t: "token_transfer e t (self e) to a s = Inr s'" and spend: "a \<le> v - pending_payout_total t s"
    using pay a v X saturating_sub_ge [of a v "pending_payout_total t s"]
    by (auto simp: transfer_out_strict_def res_simps width_defs)
  then show ?thesis
    using transfer_out_balance [OF X t to v] X
    by (auto simp: res_simps escrow_covered_def pending_payout_total_def)
qed

lemma claim_pending_correct:
  assumes X: "ext e = X" and claim: "claim_pending e r t s = Inr (a, s')"
    and ok: "escrow_ok (toks s)" and r: "r \<noteq> self e"
    and v: "x_balance X (wld s) t (self e) = Some v"
  shows "a = pending_payout r t s \<and> 0 < a \<and> escrow_ok (toks s') \<and> escrow_covered e t s' \<and>
    pending_payout r t s' = 0 \<and> x_balance X (wld s') t (self e) = Some (v - a)"
proof -
  let ?a = "pending_payout r t s" and ?tot = "pending_payout_total t s - pending_payout r t s"
  have pos: "0 < ?a" using claim by (auto simp: claim_pending_def Let_def split: if_splits)
  have "in_i128 ?tot"
    using pending_le_total [OF ok, of r t] pending_total_le_max [OF ok, of t] pos
    by (simp add: in_i128_def width_defs)
  then have sat: "saturating_sub (pending_payout_total t s) ?a = ?tot" by (simp add: saturating_sub_def)
  let ?s1 = "set_pending r t 0 ?tot s"
  have split: "a = ?a" "\<exists>s2. token_transfer e t (self e) r ?a ?s1 = Inr s2 \<and>
      s' = publish (EvPendingPayoutClaimed r t ?a) s2" "?a \<le> v - ?tot"
    using claim pos v X saturating_sub_ge [of ?a v ?tot]
    by (auto simp: claim_pending_def Let_def sat res_simps width_defs)
  then obtain s2 where s2: "token_transfer e t (self e) r ?a ?s1 = Inr s2"
    "s' = publish (EvPendingPayoutClaimed r t ?a) s2" by blast
  have ok1: "escrow_ok (toks ?s1)"
    using ok pos pending_le_total [OF ok, of r t] pending_total_le_max [OF ok, of t]
    by (intro set_pending_escrow_ok) simp_all
  have "x_balance X (wld s2) t (self e) = Some (v - ?a)"
    using transfer_out_balance [OF X s2(1) r] v by simp
  moreover have "toks s2 = toks ?s1" using s2(1) by (auto simp: res_simps)
  ultimately show ?thesis
    using split(1,3) pos s2(2) ok1 X pending_le_total [OF ok, of r t]
    by (simp add: publish_def escrow_covered_def pending_payout_def pending_payout_total_def set_pending_def)
qed

end

end
