(* ===== verification/Access.thy ===== *)
theory Access
  imports InvoiceStore
begin

text \<open>
  Access control (src/contracts/invoice_liquidity/src/access.rs): the role checks, the
  reentrancy lock, the per-function rate limit and the admin action audit log.

  Shown here: two accepted calls of a rate-limited function are at least its cooldown apart, and
  the audit log is the ring buffer of the most recent actions, newest first, as its reader reports.
\<close>

section \<open>Roles\<close>

definition require_admin :: "'w env \<Rightarrow> 'w state \<Rightarrow> unit result" where
  "require_admin e s = and_then (ok_or_err (admin (inst s)) Unauthorized) (require_auth e)"

definition require_submitter_by_id :: "'w env \<Rightarrow> address \<Rightarrow> nat \<Rightarrow> 'w state \<Rightarrow> unit result" where
  "require_submitter_by_id e caller n s =
     (if \<not> invoice_exists n s then err InvoiceNotFound
      else and_then (load_invoice n s) (\<lambda>i.
           and_then (require_auth e caller) (\<lambda>_.
           if caller \<noteq> freelancer i then err Unauthorized else Inr ())))"

definition require_payer_by_id :: "'w env \<Rightarrow> nat \<Rightarrow> 'w state \<Rightarrow> unit result" where
  "require_payer_by_id e n s =
     (if \<not> invoice_exists n s then err InvoiceNotFound
      else and_then (load_invoice n s) (\<lambda>i. require_auth e (payer i)))"

definition require_lp_by_id :: "'w env \<Rightarrow> address \<Rightarrow> nat \<Rightarrow> 'w state \<Rightarrow> unit result" where
  "require_lp_by_id e caller n s =
     (if \<not> invoice_exists n s then err InvoiceNotFound
      else and_then (require_auth e caller) (\<lambda>_.
           if caller \<notin> fst ` set (get_invoice_funders n s) then err Unauthorized else Inr ()))"

section \<open>Reentrancy lock\<close>

definition set_lock :: "bool \<Rightarrow> 'w state \<Rightarrow> 'w state" where
  "set_lock b s = s\<lparr> inst := (inst s)\<lparr> reentrancy_lock := Some b \<rparr> \<rparr>"

definition lock_reentrancy :: "'w state \<Rightarrow> 'w state result" where
  "lock_reentrancy s =
     (if unwrap_or (reentrancy_lock (inst s)) False then err Reentrancy else Inr (set_lock True s))"

definition unlock_reentrancy :: "'w state \<Rightarrow> 'w state" where
  "unlock_reentrancy s = set_lock False s"

section \<open>Rate limit\<close>

definition check_rate_limit :: "'w env \<Rightarrow> string \<Rightarrow> nat \<Rightarrow> 'w state \<Rightarrow> 'w state result" where
  "check_rate_limit e fn_name cooldown_ledgers s =
     (let updated = s\<lparr> inst := (inst s)\<lparr> rate_limit := (rate_limit (inst s))(fn_name \<mapsto> sequence e) \<rparr> \<rparr>
      in case rate_limit (inst s) fn_name of
           Some prev \<Rightarrow>
             if sequence e < sat_add_u32 prev (as_u32 cooldown_ledgers) then err RateLimited
             else Inr updated
         | None \<Rightarrow> Inr updated)"

definition clear_rate_limit :: "string \<Rightarrow> 'w state \<Rightarrow> 'w state" where
  "clear_rate_limit fn_name s = s\<lparr> inst := (inst s)\<lparr> rate_limit := (rate_limit (inst s))(fn_name := None) \<rparr> \<rparr>"

section \<open>Admin action audit log\<close>

definition ADMIN_ACTION_LOG_CAPACITY :: nat where "ADMIN_ACTION_LOG_CAPACITY = 50"

text \<open>The sequence counter is a plain \<open>seq + 1\<close>, which traps at the top of \<open>u64\<close>.\<close>

definition record_admin_action :: "'w env \<Rightarrow> string \<Rightarrow> 'w state \<Rightarrow> 'w state result" where
  "record_admin_action e act s =
     (case admin (inst s) of
        None \<Rightarrow> Inr s
      | Some a \<Rightarrow>
          let sq = unwrap_or (admin_action_count (alog s)) 0;
              rec = \<lparr> log_seq = sq, log_action = act, log_admin = a, log_ledger = sequence e,
                      log_timestamp = timestamp e \<rparr>;
              slot = sq mod ADMIN_ACTION_LOG_CAPACITY
          in and_then (expect (checked_add_u64 sq 1)) (\<lambda>sq'.
             Inr (s\<lparr> alog := (alog s)\<lparr> admin_action_log := (admin_action_log (alog s))(slot \<mapsto> rec),
                                     admin_action_count := Some sq' \<rparr> \<rparr>)))"

definition get_recent_admin_actions :: "nat \<Rightarrow> 'w state \<Rightarrow> admin_action_record list" where
  "get_recent_admin_actions limit s =
     (let total = unwrap_or (admin_action_count (alog s)) 0;
          count = min (min limit ADMIN_ACTION_LOG_CAPACITY) total
      in List.map_filter
           (\<lambda>i. admin_action_log (alog s) ((total - 1 - i) mod ADMIN_ACTION_LOG_CAPACITY)) [0..<count])"

text \<open>
  The abstract log is the list of every action ever recorded; the ring buffer holds its last
  \<open>ADMIN_ACTION_LOG_CAPACITY\<close> entries, each at its sequence number modulo the capacity.
\<close>

definition log_refines :: "admin_action_record list \<Rightarrow> log_store \<Rightarrow> bool" where
  "log_refines hist l \<longleftrightarrow>
     unwrap_or (admin_action_count l) 0 = length hist \<and>
     (\<forall>k < length hist. length hist \<le> k + ADMIN_ACTION_LOG_CAPACITY \<longrightarrow>
        admin_action_log l (k mod ADMIN_ACTION_LOG_CAPACITY) = Some (hist ! k))"

declare set_lock_def [store_defs] unlock_reentrancy_def [store_defs]

section \<open>Lemmas\<close>

lemma require_admin_eq_Inr [res_simps]:
  "require_admin e s = Inr u \<longleftrightarrow> (\<exists>a. admin (inst s) = Some a \<and> a \<in> auths e)"
  by (auto simp: require_admin_def res_simps)

lemma require_submitter_by_id_eq_Inr [res_simps]:
  "require_submitter_by_id e c n s = Inr u \<longleftrightarrow>
     (\<exists>i. invoice_at (invs s) n = Some i \<and> c = freelancer i \<and> c \<in> auths e)"
  by (auto simp: require_submitter_by_id_def invoice_exists_def res_simps)

lemma require_payer_by_id_eq_Inr [res_simps]:
  "require_payer_by_id e n s = Inr u \<longleftrightarrow> (\<exists>i. invoice_at (invs s) n = Some i \<and> payer i \<in> auths e)"
  by (auto simp: require_payer_by_id_def invoice_exists_def res_simps)

lemma require_lp_by_id_eq_Inr [res_simps]:
  "require_lp_by_id e c n s = Inr u \<longleftrightarrow>
     (\<exists>i. invoice_at (invs s) n = Some i) \<and> c \<in> auths e \<and> c \<in> fst ` set (get_invoice_funders n s)"
  by (auto simp: require_lp_by_id_def invoice_exists_def res_simps)

lemma lock_reentrancy_eq_Inr [res_simps]:
  "lock_reentrancy s = Inr s' \<longleftrightarrow>
     \<not> unwrap_or (reentrancy_lock (inst s)) False \<and> s' = set_lock True s"
  by (auto simp: lock_reentrancy_def)

lemma check_rate_limit_eq_Inr [res_simps]:
  "check_rate_limit e f c s = Inr s' \<longleftrightarrow>
     (\<forall>prev. rate_limit (inst s) f = Some prev \<longrightarrow> sat_add_u32 prev (as_u32 c) \<le> sequence e) \<and>
     s' = s\<lparr> inst := (inst s)\<lparr> rate_limit := (rate_limit (inst s))(f \<mapsto> sequence e) \<rparr> \<rparr>"
  by (auto simp: check_rate_limit_def Let_def not_less split: option.splits if_splits)

text \<open>
  Between two accepted calls of the same function with no call in between, the ledger advanced by
  the cooldown, as long as the first call's ledger plus the cooldown does not leave \<open>u32\<close>.
\<close>

lemma rate_limit_spacing:
  assumes "check_rate_limit e1 f c s = Inr s1" and "rate_limit (inst s2) f = rate_limit (inst s1) f"
    and "check_rate_limit e2 f c s2 = Inr s3" and "c \<le> u32_max" and "sequence e1 + c \<le> u32_max"
  shows "sequence e1 + c \<le> sequence e2"
  using assms by (auto simp: res_simps sat_add_u32_def as_u32_id)

lemma record_admin_action_eq_Inr:
  assumes "record_admin_action e act s = Inr s'"
  shows "\<exists>l. s' = s\<lparr> alog := l \<rparr>"
proof (cases "admin (inst s)")
  case None
  then have "s' = s\<lparr> alog := alog s \<rparr>" using assms by (simp add: record_admin_action_def)
  then show ?thesis by blast
next
  case (Some a)
  then show ?thesis using assms by (auto simp: record_admin_action_def Let_def res_simps)
qed

lemma ring_slot_neq:
  assumes "k < n" and "n < k + c"
  shows "k mod c \<noteq> n mod (c :: nat)"
proof
  assume "k mod c = n mod c"
  then have "c dvd n - k" using assms(1) by (metis mod_eq_dvd_iff_nat less_imp_le)
  then show False using assms by (auto dest: dvd_imp_le)
qed

lemma record_admin_action_refines:
  assumes "record_admin_action e act s = Inr s'" and "admin (inst s) = Some a"
    and "log_refines hist (alog s)"
  shows "log_refines (hist @ [\<lparr> log_seq = length hist, log_action = act, log_admin = a,
           log_ledger = sequence e, log_timestamp = timestamp e \<rparr>]) (alog s')"
  using assms ring_slot_neq [of _ "length hist" ADMIN_ACTION_LOG_CAPACITY]
  by (auto simp: record_admin_action_def log_refines_def Let_def res_simps nth_append less_Suc_eq)

lemma map_filter_all_Some:
  "(\<And>x. x \<in> set xs \<Longrightarrow> f x = Some (g x)) \<Longrightarrow> List.map_filter f xs = map g xs"
  by (induction xs) (simp_all add: List.map_filter_simps)

lemma get_recent_admin_actions_refines:
  assumes "log_refines hist (alog s)"
  shows "get_recent_admin_actions limit s =
    take (min limit ADMIN_ACTION_LOG_CAPACITY) (rev hist)"
proof -
  let ?c = "min (min limit ADMIN_ACTION_LOG_CAPACITY) (length hist)"
  have "List.map_filter
      (\<lambda>i. admin_action_log (alog s) ((length hist - 1 - i) mod ADMIN_ACTION_LOG_CAPACITY)) [0..<?c]
    = map (\<lambda>i. hist ! (length hist - 1 - i)) [0..<?c]"
    using assms by (intro map_filter_all_Some) (auto simp: log_refines_def)
  also have "\<dots> = take ?c (rev hist)"
    by (rule nth_equalityI) (auto simp: rev_nth)
  also have "\<dots> = take (min limit ADMIN_ACTION_LOG_CAPACITY) (rev hist)"
    by (metis length_rev take_take take_all order_refl min.commute)
  finally show ?thesis
    using assms by (simp add: get_recent_admin_actions_def log_refines_def Let_def)
qed

end
