(* ===== verification/TopPayers.thy ===== *)
theory TopPayers
  imports InvoiceStore
begin

text \<open>
  The leaderboard of payers (src/contracts/invoice_liquidity/src/top_payers.rs): a binary
  min-heap of at most \<open>TOP_PAYERS_CAPACITY\<close> entries kept in a vector. Reading or writing outside
  the vector traps, as \<open>get(..).unwrap()\<close> and \<open>set\<close> do.

  Shown here: the sift loops terminate, never trap on the indices they are called with, permute
  the vector and restore the heap order; a score update keeps the heap ordered, bounded and free
  of duplicate payers; the leaderboard view is sorted and leaves out only entries that score no
  more than the ones it lists.
\<close>

section \<open>Heap\<close>

definition parent_index :: "nat \<Rightarrow> nat" where "parent_index i = (i - 1) div 2"
definition left_child :: "nat \<Rightarrow> nat" where "left_child i = sat_add_u32 (sat_mul_u32 i 2) 1"
definition right_child :: "nat \<Rightarrow> nat" where "right_child i = sat_add_u32 (sat_mul_u32 i 2) 2"

abbreviation entry_score :: "top_payer_entry \<Rightarrow> nat" where "entry_score \<equiv> tp_score"

function sift_up :: "top_payer_entry list \<Rightarrow> nat \<Rightarrow> top_payer_entry list result" where
  "sift_up heap index =
     (if index = 0 then Inr heap else
      let parent = parent_index index in
      and_then (expect (vec_get heap index)) (\<lambda>current.
      and_then (expect (vec_get heap parent)) (\<lambda>parent_entry.
        if entry_score parent_entry \<le> entry_score current then Inr heap
        else sift_up (heap[parent := current, index := parent_entry]) parent)))"
  by pat_completeness auto
termination
  by (relation "measure snd") (auto simp: parent_index_def)

definition smaller_of :: "top_payer_entry list \<Rightarrow> nat \<Rightarrow> nat \<Rightarrow> nat result" where
  "smaller_of heap child smallest =
     (if child < length heap then
        and_then (expect (vec_get heap child)) (\<lambda>child_entry.
        and_then (expect (vec_get heap smallest)) (\<lambda>smallest_entry.
        Inr (if entry_score child_entry < entry_score smallest_entry then child else smallest)))
      else Inr smallest)"

definition smallest_of :: "top_payer_entry list \<Rightarrow> nat \<Rightarrow> nat result" where
  "smallest_of heap index =
     and_then (smaller_of heap (left_child index) index) (smaller_of heap (right_child index))"

lemma smallest_of_cases:
  assumes "smallest_of heap index = Inr smallest"
  shows "smallest = index \<or>
    smallest < length heap \<and> (smallest = left_child index \<or> smallest = right_child index)"
  using assms by (auto simp: smallest_of_def smaller_of_def res_simps split: if_splits)

function sift_down :: "top_payer_entry list \<Rightarrow> nat \<Rightarrow> top_payer_entry list result" where
  "sift_down heap index =
     and_then (smallest_of heap index) (\<lambda>smallest.
       if smallest = index then Inr heap
       else and_then (expect (vec_get heap index)) (\<lambda>current.
            and_then (expect (vec_get heap smallest)) (\<lambda>swap_entry.
            sift_down (heap[index := swap_entry, smallest := current]) smallest)))"
  by pat_completeness auto
termination
proof (relation "measure (\<lambda>(heap, index).
    if index \<le> u32_max then length heap - index else length heap + 1)", goal_cases)
  case (2 heap index smallest current swap_entry)
  then show ?case
    using smallest_of_cases [OF 2(1)]
    by (auto simp: left_child_def right_child_def sat_add_u32_def sat_mul_u32_def min_def u32_max_def
        split: if_splits)
qed simp

definition find_payer :: "top_payer_entry list \<Rightarrow> address \<Rightarrow> nat option" where
  "find_payer heap p = List.find (\<lambda>i. tp_address (heap ! i) = p) [0..<length heap]"

definition remove_payer_from_heap ::
    "top_payer_entry list \<Rightarrow> address \<Rightarrow> top_payer_entry list result" where
  "remove_payer_from_heap heap p =
     (case find_payer heap p of
        None \<Rightarrow> Inr heap
      | Some index \<Rightarrow>
          let last_index = length heap - 1 in
          and_then (if index \<noteq> last_index
                    then and_then (expect (vec_get heap last_index)) (\<lambda>l. Inr (heap[index := l]))
                    else Inr heap) (\<lambda>heap1.
          let heap2 = butlast heap1 in
          if index < length heap2 then
            and_then (expect (vec_get heap2 index)) (\<lambda>current.
            if index > 0 then
              and_then (expect (vec_get heap2 (parent_index index))) (\<lambda>parent_entry.
              if entry_score current < entry_score parent_entry then sift_up heap2 index
              else sift_down heap2 index)
            else sift_down heap2 index)
          else Inr heap2))"

definition insert_into_heap ::
    "top_payer_entry list \<Rightarrow> address \<Rightarrow> nat \<Rightarrow> top_payer_entry list result" where
  "insert_into_heap heap p sc =
     (if length heap < TOP_PAYERS_CAPACITY then
        sift_up (heap @ [\<lparr> tp_address = p, tp_score = sc \<rparr>]) (length heap)
      else and_then (expect (vec_get heap 0)) (\<lambda>min_entry.
        if sc \<le> tp_score min_entry then Inr heap
        else sift_down (heap[0 := \<lparr> tp_address = p, tp_score = sc \<rparr>]) 0))"

definition update_heap :: "address \<Rightarrow> nat \<Rightarrow> top_payer_entry list \<Rightarrow> top_payer_entry list result" where
  "update_heap p new_score heap =
     and_then (remove_payer_from_heap heap p) (\<lambda>h. insert_into_heap h p new_score)"

section \<open>Storage\<close>

definition get_top_payers_heap :: "'w state \<Rightarrow> top_payer_entry list" where
  "get_top_payers_heap s = unwrap_or (top_payers_heap (reps s)) []"

definition save_top_payers_heap :: "top_payer_entry list \<Rightarrow> 'w state \<Rightarrow> 'w state" where [store_defs]:
  "save_top_payers_heap heap s =
     s\<lparr> reps := (reps s)\<lparr> top_payers_heap := (if heap = [] then None else Some heap) \<rparr> \<rparr>"

definition update_top_payers_on_score_change ::
    "address \<Rightarrow> nat \<Rightarrow> 'w state \<Rightarrow> 'w state result" where
  "update_top_payers_on_score_change p new_score s =
     and_then (update_heap p new_score (get_top_payers_heap s)) (\<lambda>heap.
     Inr (save_top_payers_heap heap s))"

section \<open>The leaderboard view\<close>

text \<open>\<open>best_index\<close> is the scan over the entries not used yet; the first of equal scores wins.\<close>

fun best_index :: "top_payer_entry list \<Rightarrow> nat list \<Rightarrow> nat list \<Rightarrow> nat option \<Rightarrow> nat option" where
  "best_index heap used [] best = best"
| "best_index heap used (i # is) best =
     (if i \<in> set used then best_index heap used is best
      else case best of
             None \<Rightarrow> best_index heap used is (Some i)
           | Some b \<Rightarrow>
               best_index heap used is (if tp_score (heap ! i) > tp_score (heap ! b) then Some i else Some b))"

fun select_top :: "nat \<Rightarrow> top_payer_entry list \<Rightarrow> nat list \<Rightarrow> nat list" where
  "select_top 0 heap used = used"
| "select_top (Suc n) heap used =
     (case best_index heap used [0..<length heap] None of
        None \<Rightarrow> used
      | Some i \<Rightarrow> select_top n heap (used @ [i]))"

definition get_top_payers :: "nat \<Rightarrow> 'w state \<Rightarrow> top_payer_entry list" where
  "get_top_payers limit s =
     (let heap = get_top_payers_heap s in
      if heap = [] \<or> limit = 0 then []
      else map ((!) heap) (select_top (min limit (length heap)) heap []))"

text \<open>
  The heap order, and the order everywhere except below (\<open>down_ok\<close>) or above (\<open>up_ok\<close>) one index.
\<close>

definition heap_ok :: "top_payer_entry list \<Rightarrow> bool" where
  "heap_ok h \<longleftrightarrow> (\<forall>i < length h. 0 < i \<longrightarrow> entry_score (h ! parent_index i) \<le> entry_score (h ! i))"

definition up_ok :: "top_payer_entry list \<Rightarrow> nat \<Rightarrow> bool" where
  "up_ok h k \<longleftrightarrow>
     (\<forall>i < length h. 0 < i \<and> i \<noteq> k \<longrightarrow> entry_score (h ! parent_index i) \<le> entry_score (h ! i)) \<and>
     (\<forall>i < length h. 0 < i \<and> parent_index i = k \<and> 0 < k \<longrightarrow>
        entry_score (h ! parent_index k) \<le> entry_score (h ! i))"

definition down_ok :: "top_payer_entry list \<Rightarrow> nat \<Rightarrow> bool" where
  "down_ok h k \<longleftrightarrow>
     (\<forall>i < length h. 0 < i \<and> parent_index i \<noteq> k \<longrightarrow>
        entry_score (h ! parent_index i) \<le> entry_score (h ! i)) \<and>
     (\<forall>i < length h. 0 < i \<and> parent_index i = k \<and> 0 < k \<longrightarrow>
        entry_score (h ! parent_index k) \<le> entry_score (h ! i))"

definition leaderboard_ok :: "top_payer_entry list \<Rightarrow> bool" where
  "leaderboard_ok h \<longleftrightarrow>
     heap_ok h \<and> length h \<le> TOP_PAYERS_CAPACITY \<and> distinct (map tp_address h)"

text \<open>The selected indices so far: distinct, sorted by score, and no index left out scores higher.\<close>

definition top_selection :: "top_payer_entry list \<Rightarrow> nat list \<Rightarrow> bool" where
  "top_selection heap used \<longleftrightarrow>
     distinct used \<and> set used \<subseteq> {..<length heap} \<and>
     sorted_wrt (\<lambda>i j. tp_score (heap ! j) \<le> tp_score (heap ! i)) used \<and>
     (\<forall>i \<in> set used. \<forall>j < length heap. j \<notin> set used \<longrightarrow> tp_score (heap ! j) \<le> tp_score (heap ! i))"

declare sift_up.simps [simp del] sift_down.simps [simp del]

section \<open>Lemmas: the sift loops\<close>

lemma parent_index_less: "0 < i \<Longrightarrow> parent_index i < i"
  by (simp add: parent_index_def)

lemma parent_index_eq: "0 < i \<Longrightarrow> parent_index i = k \<longleftrightarrow> i = 2 * k + 1 \<or> i = 2 * k + 2"
  by (auto simp: parent_index_def)

lemma child_index:
  "2 * k + 2 \<le> u32_max \<Longrightarrow> left_child k = 2 * k + 1"
  "2 * k + 2 \<le> u32_max \<Longrightarrow> right_child k = 2 * k + 2"
  by (simp_all add: left_child_def right_child_def sat_add_u32_def sat_mul_u32_def)

lemma up_ok_swap:
  assumes k: "0 < k" "k < length h" and up: "up_ok h k"
    and lt: "entry_score (h ! k) < entry_score (h ! parent_index k)"
  shows "up_ok (h[parent_index k := h ! k, k := h ! parent_index k]) (parent_index k)"
proof -
  let ?p = "parent_index k"
  let ?h = "h[?p := h ! k, k := h ! ?p]"
  have p: "?p < k" "?p < length h" using k parent_index_less [of k] by simp_all
  have ordered: "entry_score (h ! parent_index i) \<le> entry_score (h ! i)"
    if "i < length h" "0 < i" "i \<noteq> k" for i
    using up that by (simp add: up_ok_def)
  have below: "entry_score (h ! ?p) \<le> entry_score (h ! i)"
    if "i < length h" "0 < i" "parent_index i = k" for i
    using up that k by (simp add: up_ok_def)
  have "entry_score (?h ! parent_index i) \<le> entry_score (?h ! i)"
    if i: "i < length h" "0 < i" "i \<noteq> ?p" for i
  proof (cases "i = k \<or> parent_index i = k")
    case True
    then show ?thesis using i p k lt below [of i] parent_index_less [of i] by (auto simp: nth_list_update)
  next
    case False
    then show ?thesis using i p lt ordered [of i] by (auto simp: nth_list_update)
  qed
  moreover have "entry_score (?h ! parent_index ?p) \<le> entry_score (?h ! i)"
    if i: "i < length h" "0 < i" "parent_index i = ?p" "0 < ?p" for i
    using i p k lt ordered [of ?p] ordered [of i] parent_index_less [of ?p] parent_index_less [of i]
    by (cases "i = k") (auto simp: nth_list_update)
  ultimately show ?thesis by (simp add: up_ok_def)
qed

lemma sift_up_correct:
  "k < length h \<Longrightarrow> up_ok h k \<Longrightarrow>
     \<exists>h'. sift_up h k = Inr h' \<and> heap_ok h' \<and> mset h' = mset h"
proof (induction h k rule: sift_up.induct)
  case (1 h k)
  let ?p = "parent_index k"
  let ?h = "h[?p := h ! k, k := h ! ?p]"
  show ?case
  proof (cases "k = 0")
    case True
    then show ?thesis using "1.prems" by (simp add: sift_up.simps heap_ok_def up_ok_def)
  next
    case False
    then have p: "?p < k" "?p < length h" using "1.prems"(1) parent_index_less [of k] by simp_all
    show ?thesis
    proof (cases "entry_score (h ! ?p) \<le> entry_score (h ! k)")
      case True
      then have "heap_ok h" using "1.prems"(2) by (auto simp: heap_ok_def up_ok_def)
      then show ?thesis
        using True False p "1.prems"(1) by (subst sift_up.simps) (simp add: Let_def)
    next
      case swap: False
      have "up_ok ?h ?p" using up_ok_swap [of k h] swap False "1.prems" by simp
      then obtain h' where h': "sift_up ?h ?p = Inr h'" "heap_ok h'" "mset h' = mset ?h"
        using "1.IH" [OF False refl, of "h ! k" "h ! ?p"] p swap "1.prems"(1) by auto
      moreover have "sift_up h k = sift_up ?h ?p"
        using swap False p "1.prems"(1) by (subst sift_up.simps) (simp add: Let_def)
      moreover have "mset ?h = mset h"
        using p "1.prems"(1) by (simp add: mset_swap)
      ultimately show ?thesis by auto
    qed
  qed
qed

lemma smallest_of_correct:
  assumes "k < length h" and "2 * k + 2 \<le> u32_max"
  obtains m where "smallest_of h k = Inr m" "m < length h" "m = k \<or> 0 < m \<and> parent_index m = k"
    "\<forall>i < length h. 0 < i \<and> parent_index i = k \<longrightarrow> entry_score (h ! m) \<le> entry_score (h ! i)"
    "m \<noteq> k \<longrightarrow> entry_score (h ! m) < entry_score (h ! k)"
proof -
  define l where "l = (if 2 * k + 1 < length h \<and> entry_score (h ! (2 * k + 1)) < entry_score (h ! k)
                       then 2 * k + 1 else k)"
  define m where "m = (if 2 * k + 2 < length h \<and> entry_score (h ! (2 * k + 2)) < entry_score (h ! l)
                       then 2 * k + 2 else l)"
  have "smaller_of h (left_child k) k = Inr l"
    using assms by (simp add: smaller_of_def child_index l_def)
  moreover have "smaller_of h (right_child k) l = Inr m"
    using assms by (auto simp: smaller_of_def child_index m_def l_def)
  ultimately have "smallest_of h k = Inr m" by (simp add: smallest_of_def)
  moreover have "m < length h" "m = k \<or> 0 < m \<and> parent_index m = k"
    "m \<noteq> k \<longrightarrow> entry_score (h ! m) < entry_score (h ! k)"
    using assms by (auto simp: m_def l_def parent_index_def)
  moreover have "entry_score (h ! m) \<le> entry_score (h ! i)"
    if "i < length h" "0 < i" "parent_index i = k" for i
  proof -
    have "i = 2 * k + 1 \<or> i = 2 * k + 2" using that parent_index_eq by blast
    then show ?thesis using that(1) by (auto simp: m_def l_def)
  qed
  ultimately show ?thesis using that by blast
qed

lemma down_ok_swap:
  assumes k: "k < length h" and m: "m < length h" "0 < m" "parent_index m = k"
    and down: "down_ok h k" and lt: "entry_score (h ! m) < entry_score (h ! k)"
    and least: "\<forall>i < length h. 0 < i \<and> parent_index i = k \<longrightarrow> entry_score (h ! m) \<le> entry_score (h ! i)"
  shows "down_ok (h[k := h ! m, m := h ! k]) m"
proof -
  let ?h = "h[k := h ! m, m := h ! k]"
  have km: "k < m" using m parent_index_less [of m] by simp
  have ordered: "entry_score (h ! parent_index i) \<le> entry_score (h ! i)"
    if "i < length h" "0 < i" "parent_index i \<noteq> k" for i
    using down that by (simp add: down_ok_def)
  have above: "entry_score (h ! parent_index k) \<le> entry_score (h ! i)"
    if "i < length h" "0 < i" "parent_index i = k" "0 < k" for i
    using down that by (simp add: down_ok_def)
  have "entry_score (?h ! parent_index i) \<le> entry_score (?h ! i)"
    if i: "i < length h" "0 < i" "parent_index i \<noteq> m" for i
    using i k m km lt least ordered [of i] above [of m] parent_index_less [of i]
    by (auto simp: nth_list_update)
  moreover have "entry_score (?h ! parent_index m) \<le> entry_score (?h ! i)"
    if i: "i < length h" "0 < i" "parent_index i = m" for i
    using i k m km ordered [of i] parent_index_less [of i] by (auto simp: nth_list_update)
  ultimately show ?thesis by (simp add: down_ok_def)
qed

lemma sift_down_correct:
  "k < length h \<Longrightarrow> 2 * length h \<le> u32_max \<Longrightarrow> down_ok h k \<Longrightarrow>
     \<exists>h'. sift_down h k = Inr h' \<and> heap_ok h' \<and> mset h' = mset h"
proof (induction h k rule: sift_down.induct)
  case (1 h k)
  obtain m where m: "smallest_of h k = Inr m" "m < length h" "m = k \<or> 0 < m \<and> parent_index m = k"
    "\<forall>i < length h. 0 < i \<and> parent_index i = k \<longrightarrow> entry_score (h ! m) \<le> entry_score (h ! i)"
    "m \<noteq> k \<longrightarrow> entry_score (h ! m) < entry_score (h ! k)"
    using smallest_of_correct [of k h] "1.prems" by (auto simp: algebra_simps)
  show ?case
  proof (cases "m = k")
    case True
    then have "heap_ok h"
      using "1.prems"(3) m by (auto simp: heap_ok_def down_ok_def)
    then show ?thesis using True m by (subst sift_down.simps) simp
  next
    case False
    let ?h = "h[k := h ! m, m := h ! k]"
    have "down_ok ?h m" using down_ok_swap [of k h m] False m "1.prems" by simp
    then obtain h' where "sift_down ?h m = Inr h'" "heap_ok h'" "mset h' = mset ?h"
      using "1.IH" [OF m(1) False, of "h ! k" "h ! m"] m "1.prems" by auto
    moreover have "sift_down h k = sift_down ?h m"
      using False m "1.prems" by (subst sift_down.simps) simp
    moreover have "mset ?h = mset h" using m "1.prems"(1) by (simp add: mset_swap)
    ultimately show ?thesis by auto
  qed
qed

section \<open>Lemmas: score updates\<close>

lemma find_payer_Some: "find_payer h p = Some i \<Longrightarrow> i < length h \<and> tp_address (h ! i) = p"
  by (auto simp: find_payer_def find_Some_iff)

lemma find_payer_None: "find_payer h p = None \<Longrightarrow> p \<notin> tp_address ` set h"
  by (auto simp: find_payer_def find_None_iff in_set_conv_nth)

lemma others_remove:
  assumes "distinct (map tp_address h)" and "i < length h"
  shows "filter_mset (\<lambda>x. tp_address x \<noteq> tp_address (h ! i)) (mset h) = mset h - {#h ! i#}"
proof -
  have h: "h = take i h @ h ! i # drop (Suc i) h" using assms(2) by (simp add: id_take_nth_drop)
  have m: "mset h = add_mset (h ! i) (mset (take i h) + mset (drop (Suc i) h))"
    by (subst h) simp
  have "distinct (map tp_address (take i h @ h ! i # drop (Suc i) h))" using assms(1) h by simp
  then have "\<forall>x \<in># mset (take i h) + mset (drop (Suc i) h). tp_address x \<noteq> tp_address (h ! i)"
    by (auto simp: image_iff)
  then have "filter_mset (\<lambda>x. tp_address x \<noteq> tp_address (h ! i)) (mset (take i h) + mset (drop (Suc i) h))
    = mset (take i h) + mset (drop (Suc i) h)"
    by (simp only: filter_mset_eq_conv) auto
  then show ?thesis by (simp add: m)
qed

lemma heap_after_swap_remove:
  assumes h: "heap_ok h" and i: "i < length h - 1"
  defines "h2 \<equiv> butlast (h[i := last h])"
  shows "if 0 < i \<and> entry_score (h2 ! i) < entry_score (h2 ! parent_index i)
         then up_ok h2 i else down_ok h2 i"
proof -
  have len: "length h2 = length h - 1" by (simp add: h2_def)
  have nth: "h2 ! j = (if j = i then last h else h ! j)" if "j < length h - 1" for j
    using that i by (auto simp: h2_def nth_butlast nth_list_update)
  have ord: "entry_score (h ! parent_index j) \<le> entry_score (h ! j)" if "j < length h - 1" "0 < j" for j
    using h that by (simp add: heap_ok_def)
  have par: "parent_index j < j" if "0 < j" for j using that by (rule parent_index_less)
  have two: "entry_score (h ! parent_index i) \<le> entry_score (h ! j)"
    if "j < length h - 1" "0 < j" "parent_index j = i" "0 < i" for j
    using ord [of j] ord [of i] that i by simp
  show ?thesis
  proof (cases "0 < i \<and> entry_score (h2 ! i) < entry_score (h2 ! parent_index i)")
    case True
    then have lt: "entry_score (last h) < entry_score (h ! parent_index i)"
      using i par [of i] by (simp add: nth)
    have "entry_score (h2 ! parent_index j) \<le> entry_score (h2 ! j)"
      if "j < length h2" "0 < j" "j \<noteq> i" for j
      using that par [of j] ord [of j] two [of j] lt True by (auto simp: nth len)
    moreover have "entry_score (h2 ! parent_index i) \<le> entry_score (h2 ! j)"
      if "j < length h2" "0 < j" "parent_index j = i" for j
      using that par [of j] par [of i] two [of j] True i by (auto simp: nth len)
    ultimately show ?thesis using True by (simp add: up_ok_def)
  next
    case False
    have "entry_score (h2 ! parent_index j) \<le> entry_score (h2 ! j)"
      if "j < length h2" "0 < j" "parent_index j \<noteq> i" for j
      using that par [of j] ord [of j] False i by (auto simp: nth len)
    moreover have "entry_score (h2 ! parent_index i) \<le> entry_score (h2 ! j)"
      if "j < length h2" "0 < j" "parent_index j = i" "0 < i" for j
      using that par [of j] par [of i] two [of j] i by (auto simp: nth len)
    ultimately show ?thesis using False by (auto simp: down_ok_def)
  qed
qed

lemma heap_ok_butlast:
  assumes "heap_ok h"
  shows "heap_ok (butlast h)"
  unfolding heap_ok_def
proof (intro allI impI)
  fix i assume i: "i < length (butlast h)" "0 < i"
  then have "parent_index i < length (butlast h)" using parent_index_less [of i] by simp
  then show "entry_score (butlast h ! parent_index i) \<le> entry_score (butlast h ! i)"
    using assms i by (simp add: nth_butlast heap_ok_def)
qed

lemma remove_payer_correct:
  assumes ok: "leaderboard_ok h"
  shows "\<exists>h'. remove_payer_from_heap h p = Inr h' \<and> heap_ok h' \<and>
    mset h' = filter_mset (\<lambda>x. tp_address x \<noteq> p) (mset h)"
proof (cases "find_payer h p")
  case None
  then have "filter_mset (\<lambda>x. tp_address x \<noteq> p) (mset h) = mset h"
    by (auto dest: find_payer_None simp: filter_mset_eq_conv)
  then show ?thesis using None ok by (simp add: remove_payer_from_heap_def leaderboard_ok_def)
next
  case (Some i)
  then have i: "i < length h" "tp_address (h ! i) = p" by (auto dest: find_payer_Some)
  let ?h = "butlast (h[i := last h])"
  have last: "last h = h ! (length h - 1)" using i by (intro last_conv_nth) auto
  have m: "mset ?h = filter_mset (\<lambda>x. tp_address x \<noteq> p) (mset h)"
    using i ok others_remove [of h i] by (simp add: mset_swap_remove leaderboard_ok_def)
  show ?thesis
  proof (cases "i < length h - 1")
    case True
    have par: "0 < i \<Longrightarrow> parent_index i < length ?h" using True parent_index_less [of i] by simp
    have small: "2 * length ?h \<le> u32_max"
      using ok by (auto simp: leaderboard_ok_def TOP_PAYERS_CAPACITY_def u32_max_def)
    have "remove_payer_from_heap h p =
      (if 0 < i \<and> entry_score (?h ! i) < entry_score (?h ! parent_index i)
       then sift_up ?h i else sift_down ?h i)"
      using Some True par by (auto simp: remove_payer_from_heap_def last Let_def)
    then show ?thesis
      using heap_after_swap_remove [of h i] True ok m small
        sift_up_correct [of i ?h] sift_down_correct [of i ?h]
      by (auto simp: leaderboard_ok_def split: if_splits)
  next
    case False
    then have i': "i = length h - 1" using i by simp
    then have "?h = butlast h" using last by simp
    moreover have "remove_payer_from_heap h p = Inr (butlast h)"
      using Some by (simp add: remove_payer_from_heap_def i' Let_def)
    ultimately show ?thesis using m ok heap_ok_butlast [of h] by (simp add: leaderboard_ok_def)
  qed
qed

lemma insert_into_heap_correct:
  fixes p :: address and sc :: nat
  assumes h: "heap_ok h" "length h \<le> TOP_PAYERS_CAPACITY"
  defines "new \<equiv> \<lparr> tp_address = p, tp_score = sc \<rparr>"
  shows "\<exists>h'. insert_into_heap h p sc = Inr h' \<and> heap_ok h' \<and>
    mset h' = (if length h < TOP_PAYERS_CAPACITY then add_mset new (mset h)
               else if sc \<le> tp_score (h ! 0) then mset h
               else add_mset new (mset h - {#h ! 0#}))"
proof (cases "length h < TOP_PAYERS_CAPACITY")
  case True
  have par: "parent_index i < i" if "0 < i" for i using that by (rule parent_index_less)
  have "entry_score ((h @ [new]) ! parent_index i) \<le> entry_score ((h @ [new]) ! i)"
    if "i < length h" "0 < i" for i
    using that h(1) par [of i] by (simp add: heap_ok_def nth_append)
  then have "up_ok (h @ [new]) (length h)"
    unfolding up_ok_def using par by (auto simp: less_Suc_eq dest!: par)
  then show ?thesis
    using True sift_up_correct [of "length h" "h @ [new]"] by (auto simp: insert_into_heap_def new_def)
next
  case False
  then have len: "0 < length h" "2 * length h \<le> u32_max"
    using h(2) by (auto simp: TOP_PAYERS_CAPACITY_def u32_max_def)
  have "down_ok (h[0 := new]) 0"
    using h(1) by (auto simp: down_ok_def heap_ok_def nth_list_update)
  then obtain h' where "sift_down (h[0 := new]) 0 = Inr h'" "heap_ok h'" "mset h' = mset (h[0 := new])"
    using sift_down_correct [of 0 "h[0 := new]"] len by auto
  then show ?thesis
    using False len h(1) by (auto simp: insert_into_heap_def new_def mset_update)
qed

lemma heap_root_least:
  assumes "heap_ok h"
  shows "i < length h \<Longrightarrow> entry_score (h ! 0) \<le> entry_score (h ! i)"
proof (induction i rule: less_induct)
  case (less i)
  show ?case
  proof (cases "i = 0")
    case False
    then have "parent_index i < i" "parent_index i < length h"
      using less.prems parent_index_less [of i] by auto
    then show ?thesis
      using less.IH [of "parent_index i"] assms less.prems False by (fastforce simp: heap_ok_def)
  qed simp
qed

text \<open>
  A score update never traps, keeps the leaderboard well formed, drops the payer's previous entry
  and enters the new score if there is room or it beats the lowest entry, which it then replaces.
\<close>

lemma update_heap_correct:
  fixes p :: address and sc :: nat
  assumes ok: "leaderboard_ok h"
  defines "new \<equiv> \<lparr> tp_address = p, tp_score = sc \<rparr>"
    and "others \<equiv> filter_mset (\<lambda>x. tp_address x \<noteq> p) (mset h)"
  shows "\<exists>h'. update_heap p sc h = Inr h' \<and> leaderboard_ok h' \<and>
    (if size others < TOP_PAYERS_CAPACITY then mset h' = add_mset new others
     else \<exists>least \<in># others. (\<forall>x \<in># others. tp_score least \<le> tp_score x) \<and>
       mset h' = (if sc \<le> tp_score least then others else add_mset new (others - {#least#})))"
proof -
  obtain h1 where h1: "remove_payer_from_heap h p = Inr h1" "heap_ok h1" "mset h1 = others"
    using remove_payer_correct [OF ok, of p] by (auto simp: others_def)
  have size: "length h1 = size others" using h1(3) by (metis size_mset)
  have "size others \<le> length h" unfolding others_def by (metis size_filter_mset_lesseq size_mset)
  then have cap: "length h1 \<le> TOP_PAYERS_CAPACITY" using ok size by (simp add: leaderboard_ok_def)
  obtain h2 where h2: "insert_into_heap h1 p sc = Inr h2" "heap_ok h2"
    "mset h2 = (if length h1 < TOP_PAYERS_CAPACITY then add_mset new (mset h1)
               else if sc \<le> tp_score (h1 ! 0) then mset h1
               else add_mset new (mset h1 - {#h1 ! 0#}))"
    using insert_into_heap_correct [OF h1(2) cap, of p sc] by (auto simp: new_def)
  let ?l = "filter (\<lambda>x. tp_address x \<noteq> p) h"
  have l: "distinct (map tp_address ?l)" "mset ?l = others"
    using ok by (auto simp: leaderboard_ok_def others_def distinct_map_filter)
  have d1: "distinct (map tp_address (new # ?l))" "distinct (map tp_address (new # remove1 x ?l))" for x
    using l distinct_map_remove1 [OF l(1)] by (auto simp: new_def dest: notin_set_remove1)
  have nonempty: "0 < length h1" if "\<not> length h1 < TOP_PAYERS_CAPACITY"
    using that by (auto simp: TOP_PAYERS_CAPACITY_def)
  have "mset h2 = mset (new # ?l) \<or> mset h2 = mset ?l \<or> mset h2 = mset (new # remove1 (h1 ! 0) ?l)"
    using h2(3) h1(3) l(2) by (auto split: if_splits)
  moreover have "distinct (map tp_address xs) = distinct (map tp_address ys)"
    if "mset xs = mset ys" for xs ys :: "top_payer_entry list"
    by (rule mset_eq_imp_distinct_iff) (simp add: that)
  ultimately have "distinct (map tp_address h2)" using d1 l(1) by blast
  moreover have "length h2 \<le> TOP_PAYERS_CAPACITY"
  proof -
    have "size (mset h2) \<le> max (length h1) (Suc (length h1)) \<and>
      (\<not> length h1 < TOP_PAYERS_CAPACITY \<longrightarrow> size (mset h2) = length h1)"
      using h2(3) nonempty by (auto simp: size_Suc_Diff1)
    then show ?thesis using cap by (auto simp: not_less)
  qed
  moreover have "\<exists>least \<in># others. (\<forall>x \<in># others. tp_score least \<le> tp_score x) \<and>
       mset h2 = (if sc \<le> tp_score least then others else add_mset new (others - {#least#}))"
    if "\<not> size others < TOP_PAYERS_CAPACITY"
  proof (intro bexI conjI)
    show "h1 ! 0 \<in># others" using nonempty that size h1(3) by (metis nth_mem_mset)
    show "\<forall>x \<in># others. tp_score (h1 ! 0) \<le> tp_score x"
      using heap_root_least [OF h1(2)] unfolding h1(3) [symmetric] by (auto simp: in_set_conv_nth)
    show "mset h2 = (if sc \<le> tp_score (h1 ! 0) then others else add_mset new (others - {#h1 ! 0#}))"
      using h2(3) that size h1(3) by simp
  qed
  ultimately show ?thesis
    using h1 h2 size by (auto simp: update_heap_def leaderboard_ok_def)
qed

section \<open>Lemmas: the leaderboard view\<close>

lemma best_index_spec:
  assumes "best_index heap used is best = r"
  shows "case r of
      None \<Rightarrow> best = None \<and> set is \<subseteq> set used
    | Some b \<Rightarrow> (b \<in> set is - set used \<or> best = Some b) \<and>
        (\<forall>i \<in> (set is - set used) \<union> set_option best. tp_score (heap ! i) \<le> tp_score (heap ! b))"
  using assms
proof (induction "is" arbitrary: best)
  case Nil
  then show ?case by (auto split: option.splits)
next
  case (Cons i js)
  show ?case
  proof (cases "i \<in> set used")
    case True
    then show ?thesis using Cons.prems Cons.IH [of best] by (auto split: option.splits)
  next
    case False
    then show ?thesis
      using Cons.prems Cons.IH [of "Some i"]
        Cons.IH [of "if tp_score (heap ! i) > tp_score (heap ! the best) then Some i else best"]
      by (auto split: option.splits if_splits)
  qed
qed

lemma select_top_correct:
  assumes "top_selection heap used" and "length used + n \<le> length heap"
  shows "top_selection heap (select_top n heap used) \<and>
    length (select_top n heap used) = length used + n"
  using assms
proof (induction n arbitrary: used)
  case (Suc n)
  have "\<not> {..<length heap} \<subseteq> set used"
  proof
    assume "{..<length heap} \<subseteq> set used"
    then have "length heap \<le> card (set used)" by (metis List.finite_set card_lessThan card_mono)
    then show False using Suc.prems(2) card_length [of used] by simp
  qed
  then obtain i where i: "best_index heap used [0..<length heap] None = Some i"
    using best_index_spec [of heap used "[0..<length heap]" None, OF refl]
    by (auto simp: lessThan_atLeast0 split: option.splits)
  have "i < length heap" "i \<notin> set used"
    "\<forall>j < length heap. j \<notin> set used \<longrightarrow> tp_score (heap ! j) \<le> tp_score (heap ! i)"
    using best_index_spec [OF i] by auto
  then have "top_selection heap (used @ [i])"
    using Suc.prems(1) by (auto simp: top_selection_def sorted_wrt_append)
  then show ?case using Suc.IH [of "used @ [i]"] Suc.prems(2) i by simp
qed simp

section \<open>The leaderboard as an interface\<close>

text \<open>
  What the scoring code relies on: a board takes any sequence of score updates without failing,
  and an entry it lists carries the payer's latest score.
\<close>

locale score_board =
  fixes invar :: "'b \<Rightarrow> bool"
    and update :: "address \<Rightarrow> nat \<Rightarrow> 'b \<Rightarrow> 'e + 'b"
    and entries :: "'b \<Rightarrow> (address \<times> nat) set"
  assumes update_ok: "invar b \<Longrightarrow> \<exists>b'. update p sc b = Inr b' \<and> invar b' \<and>
    entries b' \<subseteq> insert (p, sc) {x \<in> entries b. fst x \<noteq> p}"
begin

lemma updates_ok:
  "invar b \<Longrightarrow> \<exists>b'. fold_res (\<lambda>(p, sc). update p sc) us b = Inr b' \<and> invar b' \<and>
     (\<forall>(q, x) \<in> entries b'. case map_of (rev us) q of Some y \<Rightarrow> x = y | None \<Rightarrow> (q, x) \<in> entries b)"
proof (induction us rule: rev_induct)
  case Nil
  then show ?case by auto
next
  case (snoc u us)
  obtain p sc where u: "u = (p, sc)" by (cases u)
  obtain b1 where b1: "fold_res (\<lambda>(p, sc). update p sc) us b = Inr b1" "invar b1"
    "\<forall>(q, x) \<in> entries b1. case map_of (rev us) q of Some y \<Rightarrow> x = y | None \<Rightarrow> (q, x) \<in> entries b"
    using snoc by auto
  obtain b2 where b2: "update p sc b1 = Inr b2" "invar b2"
    "entries b2 \<subseteq> insert (p, sc) {x \<in> entries b1. fst x \<noteq> p}"
    using update_ok [OF b1(2)] by blast
  have "case map_of (rev (us @ [u])) q of Some y \<Rightarrow> x = y | None \<Rightarrow> (q, x) \<in> entries b"
    if "(q, x) \<in> entries b2" for q x
    using that b2(3) b1(3) by (fastforce simp: u)
  then show ?case using b1 b2 by (auto simp: fold_res_append u)
qed

end

definition board_entries :: "top_payer_entry list \<Rightarrow> (address \<times> nat) set" where
  "board_entries h = (\<lambda>e. (tp_address e, tp_score e)) ` set h"

interpretation top_board: score_board leaderboard_ok update_heap board_entries
proof
  fix h p sc assume "leaderboard_ok h"
  let ?new = "\<lparr> tp_address = p, tp_score = sc \<rparr>"
  let ?others = "filter_mset (\<lambda>x. tp_address x \<noteq> p) (mset h)"
  from update_heap_correct [OF \<open>leaderboard_ok h\<close>, of p sc] obtain h' where
    h': "update_heap p sc h = Inr h'" "leaderboard_ok h'"
    "mset h' = ?others \<or> mset h' = add_mset ?new ?others \<or> (\<exists>l. mset h' = add_mset ?new (?others - {#l#}))"
    by metis
  have "set_mset (mset h') \<subseteq> insert ?new (set_mset ?others)"
    using h'(3) by (elim disjE exE) (auto dest: in_diffD)
  then have "(tp_address e, tp_score e) \<in> insert (p, sc) {x \<in> board_entries h. fst x \<noteq> p}"
    if "e \<in> set h'" for e
    using that by (cases "e = ?new") (auto simp: board_entries_def)
  then have "board_entries h' \<subseteq> insert (p, sc) {x \<in> board_entries h. fst x \<noteq> p}"
    unfolding board_entries_def [of h'] by blast
  with h' show "\<exists>b'. update_heap p sc h = Inr b' \<and> leaderboard_ok b' \<and>
      board_entries b' \<subseteq> insert (p, sc) {x \<in> board_entries h. fst x \<noteq> p}"
    by blast
qed

lemma leaderboard_ok_Nil [simp]: "leaderboard_ok []"
  by (simp add: leaderboard_ok_def heap_ok_def)

text \<open>A score update cannot fail on a well-formed leaderboard and touches nothing else.\<close>

lemma update_top_payers_total:
  assumes "leaderboard_ok (get_top_payers_heap s)"
  shows "\<exists>h. update_top_payers_on_score_change p sc s = Inr (save_top_payers_heap h s) \<and> leaderboard_ok h"
  using top_board.update_ok [OF assms, of p sc]
  by (auto simp: update_top_payers_on_score_change_def)

lemma get_top_payers_heap_save [simp]: "get_top_payers_heap (save_top_payers_heap h s) = h"
  by (simp add: get_top_payers_heap_def save_top_payers_heap_def)

lemma mset_nth_select:
  assumes "distinct ks" and "set ks \<subseteq> {..<length xs}"
  shows "mset xs = mset (map ((!) xs) ks) + mset (map ((!) xs) (filter (\<lambda>j. j \<notin> set ks) [0..<length xs]))"
proof -
  have "mset [0..<length xs] = mset ks + mset (filter (\<lambda>j. j \<notin> set ks) [0..<length xs])"
  proof (rule multiset_eqI)
    fix j
    show "count (mset [0..<length xs]) j =
      count (mset ks + mset (filter (\<lambda>j. j \<notin> set ks) [0..<length xs])) j"
      using assms by (auto simp: distinct_count_atmost_1 count_mset_set')
  qed
  then have "image_mset ((!) xs) (mset [0..<length xs]) =
    image_mset ((!) xs) (mset ks + mset (filter (\<lambda>j. j \<notin> set ks) [0..<length xs]))" by simp
  then show ?thesis by (metis map_nth mset_map image_mset_union)
qed

section \<open>Properties\<close>

text \<open>
  C1: on a well-formed leaderboard (min-heap order, at most 50 entries, one per payer) a score
  change cannot trap, writes nothing but the leaderboard and leaves it well formed. The payer's
  previous entry is gone and every entry of another payer is kept as it was, with one exception.
  With fewer than 50 other payers the new entry joins them; with 50 it takes the place of one that
  has the least score among them if it scores more than that one, and is dropped otherwise.
\<close>

theorem top_payers_update:
  assumes "leaderboard_ok (get_top_payers_heap s)"
  shows "\<exists>s'. update_top_payers_on_score_change p sc s = Inr s' \<and>
    s' = save_top_payers_heap (get_top_payers_heap s') s \<and>
    leaderboard_ok (get_top_payers_heap s') \<and>
    (let new = \<lparr> tp_address = p, tp_score = sc \<rparr>;
         others = filter_mset (\<lambda>x. tp_address x \<noteq> p) (mset (get_top_payers_heap s))
     in if size others < 50 then mset (get_top_payers_heap s') = add_mset new others
        else \<exists>least \<in># others. (\<forall>x \<in># others. tp_score least \<le> tp_score x) \<and>
          mset (get_top_payers_heap s') =
            (if sc \<le> tp_score least then others else add_mset new (others - {#least#})))"
proof -
  obtain h' where "update_heap p sc (get_top_payers_heap s) = Inr h'" "leaderboard_ok h'"
    and exact: "let new = \<lparr> tp_address = p, tp_score = sc \<rparr>;
         others = filter_mset (\<lambda>x. tp_address x \<noteq> p) (mset (get_top_payers_heap s))
     in if size others < 50 then mset h' = add_mset new others
        else \<exists>least \<in># others. (\<forall>x \<in># others. tp_score least \<le> tp_score x) \<and>
          mset h' = (if sc \<le> tp_score least then others else add_mset new (others - {#least#}))"
    using update_heap_correct [OF assms, of p sc] unfolding TOP_PAYERS_CAPACITY_def Let_def by blast
  then show ?thesis
    by (intro exI [of _ "save_top_payers_heap h' s"] conjI)
      (simp_all only: update_top_payers_on_score_change_def get_top_payers_heap_save and_then_simps)
qed

theorem top_payers_update_witness:
  "let s = save_top_payers_heap
         [\<lparr> tp_address = Address 7, tp_score = 40 \<rparr>, \<lparr> tp_address = Address 8, tp_score = 55 \<rparr>] (fresh_state ())
   in leaderboard_ok (get_top_payers_heap s) \<and>
     (\<exists>s'. update_top_payers_on_score_change (Address 7) 60 s = Inr s' \<and>
       mset (get_top_payers_heap s') =
         {# \<lparr> tp_address = Address 7, tp_score = 60 \<rparr>, \<lparr> tp_address = Address 8, tp_score = 55 \<rparr> #})"
proof -
  let ?h = "[\<lparr> tp_address = Address 7, tp_score = 40 \<rparr>, \<lparr> tp_address = Address 8, tp_score = 55 \<rparr>]"
  have ok: "leaderboard_ok (get_top_payers_heap (save_top_payers_heap ?h (fresh_state ())))"
    by (simp add: leaderboard_ok_def heap_ok_def TOP_PAYERS_CAPACITY_def less_Suc_eq parent_index_def)
  show ?thesis
    using ok top_payers_update [OF ok, of "Address 7" 60] by (auto simp: Let_def)
qed

text \<open>
  C2: the leaderboard view lists as many payers as asked for and stored, in descending order of
  score; every stored entry that it leaves out scores no more than every entry it lists.
\<close>

theorem top_payers_view:
  "length (get_top_payers limit s) = min limit (length (get_top_payers_heap s)) \<and>
   mset (get_top_payers limit s) \<subseteq># mset (get_top_payers_heap s) \<and>
   sorted_wrt (\<lambda>x y. tp_score y \<le> tp_score x) (get_top_payers limit s) \<and>
   (\<forall>x \<in># mset (get_top_payers_heap s) - mset (get_top_payers limit s).
      \<forall>y \<in> set (get_top_payers limit s). tp_score x \<le> tp_score y)"
proof (cases "get_top_payers_heap s = [] \<or> limit = 0")
  case True
  then show ?thesis by (auto simp: get_top_payers_def Let_def)
next
  case False
  let ?h = "get_top_payers_heap s"
  define ks where "ks = select_top (min limit (length ?h)) ?h []"
  have r: "get_top_payers limit s = map ((!) ?h) ks" using False by (simp add: get_top_payers_def ks_def Let_def)
  have ks: "top_selection ?h ks" "length ks = min limit (length ?h)"
    using select_top_correct [of ?h "[]" "min limit (length ?h)"]
    by (simp_all add: top_selection_def ks_def)
  have m: "mset ?h = mset (map ((!) ?h) ks) + mset (map ((!) ?h) (filter (\<lambda>j. j \<notin> set ks) [0..<length ?h]))"
    using ks(1) by (intro mset_nth_select) (auto simp: top_selection_def)
  have "sorted_wrt (\<lambda>x y. tp_score y \<le> tp_score x) (map ((!) ?h) ks)"
    using ks(1) by (simp add: top_selection_def sorted_wrt_map)
  moreover have "mset ?h - mset (get_top_payers limit s) = mset (map ((!) ?h) (filter (\<lambda>j. j \<notin> set ks) [0..<length ?h]))"
    unfolding r by (subst m) simp
  ultimately show ?thesis
    using ks m unfolding r by (auto simp: top_selection_def)
qed

theorem top_payers_view_witness:
  "\<exists>(s :: unit state) x y. get_top_payers 1 s = [y] \<and> tp_address y = Address 2 \<and>
     x \<in># mset (get_top_payers_heap s) - mset [y] \<and> tp_score x \<le> tp_score y"
proof -
  define s :: "unit state" where "s = save_top_payers_heap
    [\<lparr> tp_address = Address 1, tp_score = 20 \<rparr>, \<lparr> tp_address = Address 2, tp_score = 70 \<rparr>] (fresh_state ())"
  have h: "get_top_payers_heap s = [\<lparr> tp_address = Address 1, tp_score = 20 \<rparr>, \<lparr> tp_address = Address 2, tp_score = 70 \<rparr>]"
    by (simp add: s_def get_top_payers_heap_def save_top_payers_heap_def)
  have "get_top_payers 1 s = [\<lparr> tp_address = Address 2, tp_score = 70 \<rparr>]"
    by (simp add: get_top_payers_def h Let_def upt_conv_Cons)
  with top_payers_view [of 1 s] show ?thesis
    by (intro exI [of _ s] exI [of _ "\<lparr> tp_address = Address 1, tp_score = 20 \<rparr>"]
        exI [of _ "\<lparr> tp_address = Address 2, tp_score = 70 \<rparr>"]) (simp add: h)
qed

end
