(* ===== verification/Reputation.thy ===== *)
theory Reputation
  imports TopPayers
begin

text \<open>
  Reputation (src/contracts/invoice_liquidity/src/invoice.rs, lines 507-690 and 835-857): the
  decaying payer score, the detailed reputation profile and the LP score. Reading a payer's score
  applies the decay that is due and writes it back, so the getter returns a new state.

  Shown here: scores stay in 0..100 whatever the operations; the decay loop that the code cuts off
  after \<open>MAX_REPUTATION_DECAY_PERIODS\<close> periods computes what the unbounded loop would; reading is
  idempotent within a ledger and never raises a score; writing then reading gives the capped value
  and keeps score and profile aligned.
\<close>

section \<open>Profiles\<close>

definition get_reputation :: "address \<Rightarrow> 'w state \<Rightarrow> reputation_profile" where
  "get_reputation a s = unwrap_or (reputation (reps s) a)
     \<lparr> rp_address = a, invoices_submitted = 0, invoices_paid = 0, invoices_defaulted = 0, rp_score = 0 \<rparr>"

definition set_reputation :: "reputation_profile \<Rightarrow> 'w state \<Rightarrow> 'w state" where
  "set_reputation p s =
     (let a = rp_address p;
          old = get_reputation a s;
          is_empty = (invoices_submitted p = 0 \<and> invoices_paid p = 0 \<and> invoices_defaulted p = 0 \<and>
                      rp_score p = 0);
          s1 = s\<lparr> reps := (reps s)\<lparr> reputation :=
                 (reputation (reps s))(a := if is_empty then None else Some p) \<rparr> \<rparr>
      in if rp_score old \<noteq> rp_score p \<or> invoices_submitted old \<noteq> invoices_submitted p \<or>
            invoices_paid old \<noteq> invoices_paid p \<or> invoices_defaulted old \<noteq> invoices_defaulted p
         then publish (EvReputationUpdated a (rp_score old) (rp_score p) (invoices_submitted p)
                         (invoices_paid p) (invoices_defaulted p)) s1
         else s1)"

definition increment_invoices_submitted :: "address \<Rightarrow> 'w state \<Rightarrow> 'w state" where
  "increment_invoices_submitted a s =
     (let p = get_reputation a s
      in set_reputation (p\<lparr> invoices_submitted := sat_add_u32 (invoices_submitted p) 1 \<rparr>) s)"

definition increment_invoices_paid :: "address \<Rightarrow> 'w state \<Rightarrow> 'w state" where
  "increment_invoices_paid a s =
     (let p = get_reputation a s
      in set_reputation (p\<lparr> invoices_paid := sat_add_u32 (invoices_paid p) 1 \<rparr>) s)"

definition increment_invoices_defaulted :: "address \<Rightarrow> 'w state \<Rightarrow> 'w state" where
  "increment_invoices_defaulted a s =
     (let p = get_reputation a s
      in set_reputation (p\<lparr> invoices_defaulted := sat_add_u32 (invoices_defaulted p) 1 \<rparr>) s)"

section \<open>Payer score\<close>

definition decay_step :: "nat \<Rightarrow> nat \<Rightarrow> nat" where
  "decay_step rate sc =
     (let d = sat_mul_u64 sc rate div 10000
      in sc - (if d = 0 \<and> sc > 0 then 1 else d))"

fun decay_loop :: "nat \<Rightarrow> nat \<Rightarrow> nat \<Rightarrow> nat" where
  "decay_loop rate 0 sc = sc"
| "decay_loop rate (Suc n) sc = decay_loop rate n (decay_step rate sc)"

definition decayed_score :: "nat \<Rightarrow> nat \<Rightarrow> nat \<Rightarrow> nat" where
  "decayed_score rate periods_passed sc =
     (if periods_passed > MAX_REPUTATION_DECAY_PERIODS then 0 else decay_loop rate periods_passed sc)"

definition store_payer_score :: "address \<Rightarrow> reputation_score \<Rightarrow> 'w state \<Rightarrow> 'w state" where
  "store_payer_score a r s = s\<lparr> reps := (reps s)\<lparr> payer_score := (payer_score (reps s))(a \<mapsto> r) \<rparr> \<rparr>"

definition clear_payer_score :: "address \<Rightarrow> 'w state \<Rightarrow> 'w state" where
  "clear_payer_score a s = s\<lparr> reps := (reps s)\<lparr> payer_score := (payer_score (reps s))(a := None) \<rparr> \<rparr>"

definition sync_profile_score :: "address \<Rightarrow> nat \<Rightarrow> 'w state \<Rightarrow> 'w state" where
  "sync_profile_score a sc s = set_reputation ((get_reputation a s)\<lparr> rp_score := sc \<rparr>) s"

definition get_payer_score :: "'w env \<Rightarrow> address \<Rightarrow> 'w state \<Rightarrow> nat \<times> 'w state" where
  "get_payer_score e a s =
     (case payer_score (reps s) a of
        None \<Rightarrow> (DEFAULT_PAYER_SCORE, s)
      | Some rep \<Rightarrow>
          (case get_config s of
             None \<Rightarrow> (rs_score rep, s)
           | Some c \<Rightarrow>
               let ledgers_since_activity = sequence e - last_activity_ledger rep in
               if ledgers_since_activity \<ge> decay_period_ledgers c \<and> decay_period_ledgers c > 0 \<and>
                  decay_rate_bps c > 0
               then
                 let periods_passed = ledgers_since_activity div decay_period_ledgers c;
                     new_score = min (decayed_score (decay_rate_bps c) periods_passed (rs_score rep)) 100
                 in if new_score \<noteq> rs_score rep
                    then (new_score,
                          sync_profile_score a new_score
                            (store_payer_score a \<lparr> rs_score = new_score, last_activity_ledger = sequence e \<rparr> s))
                    else (rs_score rep, s)
               else (rs_score rep, s)))"

definition set_payer_score :: "'w env \<Rightarrow> address \<Rightarrow> nat \<Rightarrow> 'w state \<Rightarrow> 'w state result" where
  "set_payer_score e a sc0 s =
     (let sc = min sc0 100;
          (old_score, s1) = get_payer_score e a s;
          s2 = (if sc = DEFAULT_PAYER_SCORE then clear_payer_score a s1
                else store_payer_score a \<lparr> rs_score = sc, last_activity_ledger = sequence e \<rparr> s1);
          s3 = sync_profile_score a sc s2
      in if old_score \<noteq> sc then update_top_payers_on_score_change a sc s3 else Inr s3)"

section \<open>LP score\<close>

definition get_lp_score :: "address \<Rightarrow> 'w state \<Rightarrow> nat" where
  "get_lp_score a s = unwrap_or (lp_score (reps s) a) DEFAULT_LP_SCORE"

definition set_lp_score :: "address \<Rightarrow> nat \<Rightarrow> 'w state \<Rightarrow> 'w state" where
  "set_lp_score a sc0 s =
     (let sc = min sc0 100
      in s\<lparr> reps := (reps s)\<lparr> lp_score :=
            (lp_score (reps s))(a := if sc = DEFAULT_LP_SCORE then None else Some sc) \<rparr> \<rparr>)"

text \<open>Stored scores are percentages, profiles sit under their own address, the leaderboard is well formed.\<close>

definition reputation_ok :: "reputation_store \<Rightarrow> bool" where
  "reputation_ok r \<longleftrightarrow>
     (\<forall>a x. payer_score r a = Some x \<longrightarrow> rs_score x \<le> 100) \<and>
     (\<forall>a x. lp_score r a = Some x \<longrightarrow> x \<le> 100) \<and>
     (\<forall>a p. reputation r a = Some p \<longrightarrow> rp_score p \<le> 100 \<and> rp_address p = a) \<and>
     leaderboard_ok (unwrap_or (top_payers_heap r) [])"

text \<open>The operations of this theory change the reputation store and append events, nothing else.\<close>

definition reputation_only :: "'w state \<Rightarrow> 'w state \<Rightarrow> bool" where
  "reputation_only s s' \<longleftrightarrow> (\<exists>r vs. s' = s\<lparr> reps := r, evs := evs s @ vs \<rparr>)"

section \<open>Frames\<close>

lemma set_reputation_frame [simp]:
  "inst (set_reputation p s) = inst s"
  "invs (set_reputation p s) = invs s"
  "idxs (set_reputation p s) = idxs s"
  "ques (set_reputation p s) = ques s"
  "toks (set_reputation p s) = toks s"
  "stats (set_reputation p s) = stats s"
  "nfts (set_reputation p s) = nfts s"
  "orcs (set_reputation p s) = orcs s"
  "mss (set_reputation p s) = mss s"
  "alog (set_reputation p s) = alog s"
  "wld (set_reputation p s) = wld s"
  by (simp_all add: set_reputation_def publish_def Let_def)

lemma sync_profile_score_frame [simp]:
  "inst (sync_profile_score a sc s) = inst s"
  "invs (sync_profile_score a sc s) = invs s"
  "idxs (sync_profile_score a sc s) = idxs s"
  "ques (sync_profile_score a sc s) = ques s"
  "toks (sync_profile_score a sc s) = toks s"
  "stats (sync_profile_score a sc s) = stats s"
  "nfts (sync_profile_score a sc s) = nfts s"
  "orcs (sync_profile_score a sc s) = orcs s"
  "mss (sync_profile_score a sc s) = mss s"
  "alog (sync_profile_score a sc s) = alog s"
  "wld (sync_profile_score a sc s) = wld s"
  by (simp_all add: sync_profile_score_def)

lemma store_payer_score_frame [simp]:
  "inst (store_payer_score a r s) = inst s"
  "invs (store_payer_score a r s) = invs s"
  "idxs (store_payer_score a r s) = idxs s"
  "ques (store_payer_score a r s) = ques s"
  "toks (store_payer_score a r s) = toks s"
  "stats (store_payer_score a r s) = stats s"
  "nfts (store_payer_score a r s) = nfts s"
  "orcs (store_payer_score a r s) = orcs s"
  "mss (store_payer_score a r s) = mss s"
  "alog (store_payer_score a r s) = alog s"
  "wld (store_payer_score a r s) = wld s"
  by (simp_all add: store_payer_score_def)

lemma clear_payer_score_frame [simp]:
  "inst (clear_payer_score a s) = inst s"
  "invs (clear_payer_score a s) = invs s"
  "idxs (clear_payer_score a s) = idxs s"
  "ques (clear_payer_score a s) = ques s"
  "toks (clear_payer_score a s) = toks s"
  "stats (clear_payer_score a s) = stats s"
  "nfts (clear_payer_score a s) = nfts s"
  "orcs (clear_payer_score a s) = orcs s"
  "mss (clear_payer_score a s) = mss s"
  "alog (clear_payer_score a s) = alog s"
  "wld (clear_payer_score a s) = wld s"
  by (simp_all add: clear_payer_score_def)

lemma increment_invoices_submitted_frame [simp]:
  "inst (increment_invoices_submitted a s) = inst s"
  "invs (increment_invoices_submitted a s) = invs s"
  "idxs (increment_invoices_submitted a s) = idxs s"
  "ques (increment_invoices_submitted a s) = ques s"
  "toks (increment_invoices_submitted a s) = toks s"
  "stats (increment_invoices_submitted a s) = stats s"
  "nfts (increment_invoices_submitted a s) = nfts s"
  "orcs (increment_invoices_submitted a s) = orcs s"
  "mss (increment_invoices_submitted a s) = mss s"
  "alog (increment_invoices_submitted a s) = alog s"
  "wld (increment_invoices_submitted a s) = wld s"
  by (simp_all add: increment_invoices_submitted_def Let_def)

lemma increment_invoices_paid_frame [simp]:
  "inst (increment_invoices_paid a s) = inst s"
  "invs (increment_invoices_paid a s) = invs s"
  "idxs (increment_invoices_paid a s) = idxs s"
  "ques (increment_invoices_paid a s) = ques s"
  "toks (increment_invoices_paid a s) = toks s"
  "stats (increment_invoices_paid a s) = stats s"
  "nfts (increment_invoices_paid a s) = nfts s"
  "orcs (increment_invoices_paid a s) = orcs s"
  "mss (increment_invoices_paid a s) = mss s"
  "alog (increment_invoices_paid a s) = alog s"
  "wld (increment_invoices_paid a s) = wld s"
  by (simp_all add: increment_invoices_paid_def Let_def)

lemma increment_invoices_defaulted_frame [simp]:
  "inst (increment_invoices_defaulted a s) = inst s"
  "invs (increment_invoices_defaulted a s) = invs s"
  "idxs (increment_invoices_defaulted a s) = idxs s"
  "ques (increment_invoices_defaulted a s) = ques s"
  "toks (increment_invoices_defaulted a s) = toks s"
  "stats (increment_invoices_defaulted a s) = stats s"
  "nfts (increment_invoices_defaulted a s) = nfts s"
  "orcs (increment_invoices_defaulted a s) = orcs s"
  "mss (increment_invoices_defaulted a s) = mss s"
  "alog (increment_invoices_defaulted a s) = alog s"
  "wld (increment_invoices_defaulted a s) = wld s"
  by (simp_all add: increment_invoices_defaulted_def Let_def)

lemma set_lp_score_frame [simp]:
  "inst (set_lp_score a sc s) = inst s"
  "invs (set_lp_score a sc s) = invs s"
  "idxs (set_lp_score a sc s) = idxs s"
  "ques (set_lp_score a sc s) = ques s"
  "toks (set_lp_score a sc s) = toks s"
  "stats (set_lp_score a sc s) = stats s"
  "nfts (set_lp_score a sc s) = nfts s"
  "orcs (set_lp_score a sc s) = orcs s"
  "mss (set_lp_score a sc s) = mss s"
  "alog (set_lp_score a sc s) = alog s"
  "wld (set_lp_score a sc s) = wld s"
  by (simp_all add: set_lp_score_def Let_def)

lemma get_payer_score_frame [simp]:
  "inst (snd (get_payer_score e a s)) = inst s"
  "invs (snd (get_payer_score e a s)) = invs s"
  "idxs (snd (get_payer_score e a s)) = idxs s"
  "ques (snd (get_payer_score e a s)) = ques s"
  "toks (snd (get_payer_score e a s)) = toks s"
  "stats (snd (get_payer_score e a s)) = stats s"
  "nfts (snd (get_payer_score e a s)) = nfts s"
  "orcs (snd (get_payer_score e a s)) = orcs s"
  "mss (snd (get_payer_score e a s)) = mss s"
  "alog (snd (get_payer_score e a s)) = alog s"
  "wld (snd (get_payer_score e a s)) = wld s"
  by (simp_all add: get_payer_score_def Let_def split: option.splits)

lemma save_top_payers_heap_frame [simp]:
  "inst (save_top_payers_heap h s) = inst s"
  "invs (save_top_payers_heap h s) = invs s"
  "idxs (save_top_payers_heap h s) = idxs s"
  "ques (save_top_payers_heap h s) = ques s"
  "toks (save_top_payers_heap h s) = toks s"
  "stats (save_top_payers_heap h s) = stats s"
  "nfts (save_top_payers_heap h s) = nfts s"
  "orcs (save_top_payers_heap h s) = orcs s"
  "mss (save_top_payers_heap h s) = mss s"
  "alog (save_top_payers_heap h s) = alog s"
  "wld (save_top_payers_heap h s) = wld s"
  by (simp_all add: save_top_payers_heap_def)

lemma set_payer_score_frame:
  assumes "set_payer_score e a sc s = Inr s'"
  shows "inst s' = inst s"
    and "invs s' = invs s"
    and "idxs s' = idxs s"
    and "ques s' = ques s"
    and "toks s' = toks s"
    and "stats s' = stats s"
    and "nfts s' = nfts s"
    and "orcs s' = orcs s"
    and "mss s' = mss s"
    and "alog s' = alog s"
    and "wld s' = wld s"
  using assms
  by (auto simp: set_payer_score_def update_top_payers_on_score_change_def Let_def res_simps
      split: prod.splits if_splits dest!: arg_cong [where f = snd and x = "get_payer_score e a s"])

section \<open>Decay\<close>

lemma decay_step_le: "decay_step rate sc \<le> sc - (if sc > 0 then 1 else 0)"
  by (auto simp: decay_step_def Let_def intro: diff_le_mono2)

lemma decay_loop_le: "decay_loop rate n sc \<le> sc - n"
proof (induction n arbitrary: sc)
  case (Suc n)
  have "decay_loop rate n (decay_step rate sc) \<le> decay_step rate sc - n" by (rule Suc.IH)
  also have "\<dots> \<le> sc - Suc n" using decay_step_le [of rate sc] by (auto split: if_splits)
  finally show ?case by simp
qed simp

text \<open>The cut-off agrees with running the loop to the end for every score the contract stores.\<close>

lemma decayed_score_eq_loop:
  "sc \<le> MAX_REPUTATION_DECAY_PERIODS \<Longrightarrow> decayed_score rate n sc = decay_loop rate n sc"
  using decay_loop_le [of rate n sc] by (auto simp: decayed_score_def)

lemma decayed_score_le: "decayed_score rate n sc \<le> sc"
  using decay_loop_le [of rate n sc] by (auto simp: decayed_score_def)

section \<open>The score invariant\<close>

lemma reputation_ok_simps:
  "reputation_ok r \<Longrightarrow> payer_score r a = Some x \<Longrightarrow> rs_score x \<le> 100"
  "reputation_ok r \<Longrightarrow> lp_score r a = Some y \<Longrightarrow> y \<le> 100"
  "reputation_ok r \<Longrightarrow> reputation r a = Some p \<Longrightarrow> rp_score p \<le> 100 \<and> rp_address p = a"
  by (simp_all add: reputation_ok_def)

lemma get_reputation_ok:
  assumes "reputation_ok (reps s)"
  shows "rp_address (get_reputation a s) = a" and "rp_score (get_reputation a s) \<le> 100"
  using assms by (cases "reputation (reps s) a"; simp add: get_reputation_def reputation_ok_def)+

lemma set_reputation_ok:
  "reputation_ok (reps s) \<Longrightarrow> rp_score p \<le> 100 \<Longrightarrow> reputation_ok (reps (set_reputation p s))"
  by (simp add: set_reputation_def reputation_ok_def publish_def Let_def)

lemma increments_ok:
  assumes "reputation_ok (reps s)"
  shows "reputation_ok (reps (increment_invoices_submitted a s))"
    and "reputation_ok (reps (increment_invoices_paid a s))"
    and "reputation_ok (reps (increment_invoices_defaulted a s))"
  using get_reputation_ok [OF assms, of a]
  by (auto simp: increment_invoices_submitted_def increment_invoices_paid_def
      increment_invoices_defaulted_def Let_def intro!: set_reputation_ok assms)

lemma sync_profile_score_ok:
  "reputation_ok (reps s) \<Longrightarrow> sc \<le> 100 \<Longrightarrow> reputation_ok (reps (sync_profile_score a sc s))"
  by (simp add: sync_profile_score_def set_reputation_ok)

lemma store_payer_score_ok:
  "reputation_ok (reps s) \<Longrightarrow> rs_score r \<le> 100 \<Longrightarrow> reputation_ok (reps (store_payer_score a r s))"
  "reputation_ok (reps s) \<Longrightarrow> reputation_ok (reps (clear_payer_score a s))"
  by (simp_all add: store_payer_score_def clear_payer_score_def reputation_ok_def)

lemma set_lp_score_ok: "reputation_ok (reps s) \<Longrightarrow> reputation_ok (reps (set_lp_score a sc s))"
  by (simp add: set_lp_score_def reputation_ok_def Let_def)

lemma get_payer_score_ok:
  assumes "reputation_ok (reps s)"
  shows "fst (get_payer_score e a s) \<le> 100" and "reputation_ok (reps (snd (get_payer_score e a s)))"
  using assms
  by (auto simp: get_payer_score_def Let_def DEFAULT_PAYER_SCORE_def reputation_ok_simps
      split: option.splits intro!: sync_profile_score_ok store_payer_score_ok)

lemma set_payer_score_total:
  assumes "reputation_ok (reps s)"
  shows "\<exists>s'. set_payer_score e a sc s = Inr s' \<and> reputation_ok (reps s')"
proof -
  obtain old s1 where g: "get_payer_score e a s = (old, s1)" by (cases "get_payer_score e a s")
  have s1: "reputation_ok (reps s1)" using get_payer_score_ok(2) [OF assms, of e a] g by simp
  define s3 where "s3 = sync_profile_score a (min sc 100)
    (if min sc 100 = DEFAULT_PAYER_SCORE then clear_payer_score a s1
     else store_payer_score a \<lparr> rs_score = min sc 100, last_activity_ledger = sequence e \<rparr> s1)"
  have s3: "reputation_ok (reps s3)"
    unfolding s3_def using s1 by (intro sync_profile_score_ok) (auto intro!: store_payer_score_ok)
  then have "leaderboard_ok (get_top_payers_heap s3)"
    by (simp add: get_top_payers_heap_def reputation_ok_def)
  then obtain h where h: "update_top_payers_on_score_change a (min sc 100) s3 = Inr (save_top_payers_heap h s3)"
    "leaderboard_ok h"
    using update_top_payers_total by blast
  have "set_payer_score e a sc s = (if old \<noteq> min sc 100 then Inr (save_top_payers_heap h s3) else Inr s3)"
    using g h by (simp add: set_payer_score_def s3_def Let_def)
  moreover have "reputation_ok (reps (save_top_payers_heap h s3))"
    using s3 h(2) by (simp add: save_top_payers_heap_def reputation_ok_def)
  ultimately show ?thesis using s3 by auto
qed

section \<open>Reading and writing scores\<close>

lemma payer_score_set_reputation [simp]:
  "payer_score (reps (set_reputation p s)) = payer_score (reps s)"
  "lp_score (reps (set_reputation p s)) = lp_score (reps s)"
  "top_payers_heap (reps (set_reputation p s)) = top_payers_heap (reps s)"
  by (simp_all add: set_reputation_def publish_def Let_def)

lemma payer_score_sync [simp]:
  "payer_score (reps (sync_profile_score a sc s)) = payer_score (reps s)"
  "lp_score (reps (sync_profile_score a sc s)) = lp_score (reps s)"
  "top_payers_heap (reps (sync_profile_score a sc s)) = top_payers_heap (reps s)"
  by (simp_all add: sync_profile_score_def)

lemma payer_score_store [simp]:
  "payer_score (reps (store_payer_score a r s)) = (payer_score (reps s))(a \<mapsto> r)"
  "payer_score (reps (clear_payer_score a s)) = (payer_score (reps s))(a := None)"
  "payer_score (reps (save_top_payers_heap h s)) = payer_score (reps s)"
  by (simp_all add: store_payer_score_def clear_payer_score_def save_top_payers_heap_def)

lemma get_reputation_sync:
  assumes "rp_address (get_reputation a s) = a"
  shows "rp_score (get_reputation a (sync_profile_score a sc s)) = sc"
  using assms by (auto simp: sync_profile_score_def set_reputation_def get_reputation_def publish_def Let_def)

lemma get_payer_score_fresh:
  assumes "payer_score (reps s) a = Some \<lparr> rs_score = sc, last_activity_ledger = sequence e \<rparr>"
  shows "get_payer_score e a s = (sc, s)"
  using assms by (simp add: get_payer_score_def Let_def split: option.splits)

lemma get_payer_score_idem:
  assumes "get_payer_score e a s = (v, s1)"
  shows "get_payer_score e a s1 = (v, s1)"
proof (cases "s1 = s")
  case True
  then show ?thesis using assms by simp
next
  case False
  then have "payer_score (reps s1) a = Some \<lparr> rs_score = v, last_activity_ledger = sequence e \<rparr>"
    using assms by (auto simp: get_payer_score_def Let_def split: option.splits if_splits)
  then show ?thesis by (rule get_payer_score_fresh)
qed

lemma get_payer_score_le:
  assumes "payer_score (reps s) a = Some r" and "rs_score r \<le> 100"
  shows "fst (get_payer_score e a s) \<le> rs_score r"
  using assms
  by (auto simp: get_payer_score_def Let_def split: option.splits
      intro: min.coboundedI1 decayed_score_le)

lemma get_payer_score_exact:
  assumes "reputation_ok (reps s)" and "get_payer_score e a s = (v, s1)"
  shows "v = (case (payer_score (reps s) a, get_config s) of
           (None, _) \<Rightarrow> 50
         | (Some r, None) \<Rightarrow> rs_score r
         | (Some r, Some c) \<Rightarrow>
             if decay_rate_bps c = 0 then rs_score r
             else decay_loop (decay_rate_bps c)
               ((sequence e - last_activity_ledger r) div decay_period_ledgers c) (rs_score r))"
proof (cases "payer_score (reps s) a")
  case None
  then show ?thesis using assms(2) by (simp add: get_payer_score_def DEFAULT_PAYER_SCORE_def)
next
  case (Some r)
  then have "rs_score r \<le> 100" using reputation_ok_simps(1) [OF assms(1)] by simp
  then have "min (decayed_score rate n (rs_score r)) 100 = decay_loop rate n (rs_score r)" for rate n
    using decayed_score_eq_loop [of "rs_score r" rate n] decay_loop_le [of rate n "rs_score r"]
    by (simp add: MAX_REPUTATION_DECAY_PERIODS_def)
  then show ?thesis using Some assms(2)
    by (auto simp: get_payer_score_def Let_def not_le split: option.splits if_splits)
qed

lemma get_payer_score_writes:
  assumes "reputation_ok (reps s)" and "get_payer_score e a s = (v, s1)"
  shows "if \<exists>r. payer_score (reps s) a = Some r \<and> rs_score r \<noteq> v
     then payer_score (reps s1) = (payer_score (reps s))(a \<mapsto> \<lparr> rs_score = v, last_activity_ledger = sequence e \<rparr>) \<and>
       rp_score (get_reputation a s1) = v
     else s1 = s"
proof -
  have "s1 = s \<and> (\<forall>r. payer_score (reps s) a = Some r \<longrightarrow> rs_score r = v) \<or>
    (\<exists>r. payer_score (reps s) a = Some r \<and> rs_score r \<noteq> v) \<and>
    s1 = sync_profile_score a v (store_payer_score a \<lparr> rs_score = v, last_activity_ledger = sequence e \<rparr> s)"
    using assms(2) by (auto simp: get_payer_score_def Let_def split: option.splits if_splits)
  moreover have "rp_address (get_reputation a (store_payer_score a q s)) = a" for q
    using get_reputation_ok(1) [OF assms(1), of a] by (simp add: get_reputation_def store_payer_score_def)
  ultimately show ?thesis by (auto simp: get_reputation_sync)
qed

section \<open>Properties\<close>

text \<open>
  C3: for every score up to 100 the decay that is cut off to zero beyond 1000 periods equals the
  decay loop run for the full number of periods, it never raises the score, and after at least as
  many periods as the score it is zero.
\<close>

theorem decay_cutoff_exact:
  assumes "sc \<le> 100"
  shows "decayed_score rate n sc = decay_loop rate n sc \<and> decayed_score rate n sc \<le> sc \<and>
    (sc \<le> n \<longrightarrow> decayed_score rate n sc = 0)"
  using assms decayed_score_eq_loop [of sc rate n] decayed_score_le [of rate n sc] decay_loop_le [of rate n sc]
  by (auto simp: MAX_REPUTATION_DECAY_PERIODS_def)

theorem decay_cutoff_exact_witness:
  "(80::nat) \<le> 100 \<and> decayed_score 50 3 80 = 77 \<and> decayed_score 50 3 80 = decay_loop 50 3 80"
  using decay_cutoff_exact [of 80 50 3]
  by (simp add: numeral_3_eq_3 decay_step_def sat_mul_u64_def u64_max_def)

text \<open>
  C4: what reading a payer's score gives and writes. A payer without a stored score reads 50; a
  stored score reads unchanged while the protocol has no configuration or its decay rate is zero;
  otherwise it reads as the stored score after one decay step per full decay period (none if the
  period is zero) since the last activity. The value is at most 100 and at most the stored score.
  When it differs from the stored score it is stored with the current ledger as last activity and
  copied to the profile; otherwise nothing is written. The stored scores stay well formed, and a
  second read in the same ledger gives the same value and changes nothing.
\<close>

theorem payer_score_read:
  assumes "reputation_ok (reps s)" and "get_payer_score e a s = (v, s1)"
  shows "v = (case (payer_score (reps s) a, get_config s) of
           (None, _) \<Rightarrow> 50
         | (Some r, None) \<Rightarrow> rs_score r
         | (Some r, Some c) \<Rightarrow>
             if decay_rate_bps c = 0 then rs_score r
             else decay_loop (decay_rate_bps c)
               ((sequence e - last_activity_ledger r) div decay_period_ledgers c) (rs_score r)) \<and>
    v \<le> 100 \<and> (\<forall>r. payer_score (reps s) a = Some r \<longrightarrow> v \<le> rs_score r) \<and>
    (if \<exists>r. payer_score (reps s) a = Some r \<and> rs_score r \<noteq> v
     then payer_score (reps s1) = (payer_score (reps s))(a \<mapsto> \<lparr> rs_score = v, last_activity_ledger = sequence e \<rparr>) \<and>
       rp_score (get_reputation a s1) = v
     else s1 = s) \<and>
    reputation_ok (reps s1) \<and> get_payer_score e a s1 = (v, s1)"
  using get_payer_score_exact [OF assms] get_payer_score_writes [OF assms]
    get_payer_score_ok [OF assms(1), of e a] get_payer_score_idem [OF assms(2)]
    get_payer_score_le [of s a _ e] reputation_ok_simps(1) [OF assms(1)] assms(2)
  by (auto simp: reputation_ok_def)

theorem payer_score_read_witness:
  "let s = store_payer_score (Address 1) \<lparr> rs_score = 80, last_activity_ledger = 0 \<rparr>
         (set_config \<lparr> high_rep_threshold = 80, bonus_bps = 0, min_discount_rate_bps = 0, decay_rate_bps = 1000,
           decay_period_ledgers = 10, dispute_timeout_ledgers = 0, xlm_sac_address = Address 2,
           usdc_sac_address = Address 3, eurc_sac_address = Address 4, price_oracle = None,
           max_oracle_age_ledgers = 0 \<rparr> (fresh_state ()));
       e = call_env no_contracts 0 25 {}
   in reputation_ok (reps s) \<and> fst (get_payer_score e (Address 1) s) = 65 \<and>
     rp_score (get_reputation (Address 1) (snd (get_payer_score e (Address 1) s))) = 65"
proof -
  let ?c = "\<lparr> high_rep_threshold = 80, bonus_bps = 0, min_discount_rate_bps = 0, decay_rate_bps = 1000,
           decay_period_ledgers = 10, dispute_timeout_ledgers = 0, xlm_sac_address = Address 2,
           usdc_sac_address = Address 3, eurc_sac_address = Address 4, price_oracle = None,
           max_oracle_age_ledgers = 0 \<rparr>"
  let ?s = "store_payer_score (Address 1) \<lparr> rs_score = 80, last_activity_ledger = 0 \<rparr>
      (set_config ?c (fresh_state ()))"
  let ?e = "call_env no_contracts 0 25 {}"
  obtain v s1 where g: "get_payer_score ?e (Address 1) ?s = (v, s1)" by fastforce
  have ok: "reputation_ok (reps ?s)" "payer_score (reps ?s) (Address 1) = Some \<lparr> rs_score = 80, last_activity_ledger = 0 \<rparr>"
    "get_config ?s = Some ?c" "sequence ?e = 25"
    by (simp_all add: store_payer_score_def set_config_def fresh_state_def reputation_ok_def call_env_def)
  have "decay_loop 1000 (25 div 10) 80 = 65"
    by (simp add: numeral_2_eq_2 decay_step_def sat_mul_u64_def u64_max_def)
  then show ?thesis
    using ok(1) g payer_score_read [OF ok(1) g] unfolding ok(2-4) Let_def by (simp del: One_nat_def)
qed

text \<open>
  C5: writing a payer's score succeeds on every well-formed reputation store; the score then read
  in the same ledger is the written one capped at 100, the profile carries the same score, and the
  store, leaderboard included, is well formed again.
\<close>

theorem payer_score_write:
  assumes "reputation_ok (reps s)"
  shows "\<exists>s'. set_payer_score e a sc s = Inr s' \<and> get_payer_score e a s' = (min sc 100, s') \<and>
    rp_score (get_reputation a s') = min sc 100 \<and> reputation_ok (reps s')"
proof -
  obtain s' where s': "set_payer_score e a sc s = Inr s'" "reputation_ok (reps s')"
    using set_payer_score_total [OF assms] by blast
  obtain old s1 where g: "get_payer_score e a s = (old, s1)" by (cases "get_payer_score e a s")
  let ?sc = "min sc 100"
  let ?s2 = "if ?sc = DEFAULT_PAYER_SCORE then clear_payer_score a s1
     else store_payer_score a \<lparr> rs_score = ?sc, last_activity_ledger = sequence e \<rparr> s1"
  have ok: "reputation_ok (reps s1)" using get_payer_score_ok(2) [OF assms, of e a] g by simp
  then have "rp_score (get_reputation a (sync_profile_score a ?sc ?s2)) = ?sc"
    by (intro get_reputation_sync get_reputation_ok) (auto intro!: store_payer_score_ok)
  moreover have "s' = sync_profile_score a ?sc ?s2 \<or> (\<exists>h. s' = save_top_payers_heap h (sync_profile_score a ?sc ?s2))"
    using s'(1) g by (auto simp: set_payer_score_def update_top_payers_on_score_change_def Let_def
        res_simps split: if_splits)
  ultimately have r: "rp_score (get_reputation a s') = ?sc" "payer_score (reps s') = payer_score (reps ?s2)"
    by (auto simp: get_reputation_def save_top_payers_heap_def)
  have "get_payer_score e a s' = (?sc, s')"
  proof (cases "?sc = DEFAULT_PAYER_SCORE")
    case True
    then show ?thesis using r(2) by (simp add: get_payer_score_def)
  next
    case False
    then show ?thesis using r(2) by (intro get_payer_score_fresh) simp
  qed
  then show ?thesis using s' r(1) by blast
qed

theorem payer_score_write_witness:
  "reputation_ok (reps (fresh_state ())) \<and>
   (\<exists>s'. set_payer_score (call_env no_contracts 0 9 {}) (Address 1) 120 (fresh_state ()) = Inr s' \<and>
     rp_score (get_reputation (Address 1) s') = 100)"
  using payer_score_write [of "fresh_state ()" "call_env no_contracts 0 9 {}" "Address 1" 120]
  by (auto simp: fresh_state_def reputation_ok_def)

end
