(* ===== verification/Terms.thy ===== *)
theory Terms
  imports TokenSafety Access Reputation
begin

text \<open>
  The helper functions of src/contracts/invoice_liquidity/src/lib.rs the entry points share: token
  approval, validation of invoice terms, fee tiers, the suggested discount rate and the
  notifications of the distribution contract; and the effective rate of rate_logic.rs (a copy of
  which is src/contracts/reputation_bonus/src/rate_logic.rs).

  Shown here: the minimum amount is one whole token unit; terms are accepted exactly when amount,
  rate and due date are in range; the fee rate of an amount is that of the last matching tier.
\<close>

definition discount_rate_as_i128 :: "nat \<Rightarrow> int" where
  "discount_rate_as_i128 r = int r"

fun ten_pow :: "nat \<Rightarrow> int" where
  "ten_pow 0 = 1"
| "ten_pow (Suc n) = saturating_mul (ten_pow n) 10"

definition is_approved_token :: "address \<Rightarrow> 'w state \<Rightarrow> bool" where
  "is_approved_token t s =
     (case approved_token (toks s) t of
        Some approved \<Rightarrow> approved
      | None \<Rightarrow>
          (case get_config s of
             Some c \<Rightarrow> t = usdc_sac_address c \<or> t = eurc_sac_address c \<or> t = xlm_sac_address c
           | None \<Rightarrow> False))"

definition validate_invoice_terms_for_min ::
    "'w env \<Rightarrow> int \<Rightarrow> int \<Rightarrow> nat \<Rightarrow> nat \<Rightarrow> 'w state \<Rightarrow> unit result" where
  "validate_invoice_terms_for_min e a min_amount due rate s =
     (if a < min_amount then err InvalidAmount
      else
        let max_rate = unwrap_or (max_discount_rate (inst s)) 5000; now = timestamp e in
        if rate = 0 \<or> rate > max_rate then err InvalidDiscountRate
        else if due > u32_max then err InvalidDueDate
        else if due \<le> now then err InvalidDueDate
        else if due < sat_add_u64 now MIN_INVOICE_DURATION then err DueDateTooSoon
        else if due > sat_add_u64 now MAX_INVOICE_DURATION then err DueDateTooFar
        else Inr ())"

definition validate_invoice_terms_with_token ::
    "'w env \<Rightarrow> int \<Rightarrow> nat \<Rightarrow> nat \<Rightarrow> address \<Rightarrow> 'w state \<Rightarrow> unit result" where
  "validate_invoice_terms_with_token e a due rate t s =
     and_then (registered_token_decimals t s) (\<lambda>decimals.
     validate_invoice_terms_for_min e a (ten_pow decimals) due rate s)"

definition notify_distribution_funding :: "'w env \<Rightarrow> address \<Rightarrow> int \<Rightarrow> 'w state \<Rightarrow> 'w state result" where
  "notify_distribution_funding e a amt s =
     (case distribution_contract (inst s) of
        None \<Rightarrow> Inr s
      | Some d \<Rightarrow> and_then (expect (x_accrue_lp (ext e) (wld s) d a amt)) (\<lambda>w. Inr (s\<lparr> wld := w \<rparr>)))"

definition notify_distribution_settlement ::
    "'w env \<Rightarrow> address \<Rightarrow> address \<Rightarrow> bool \<Rightarrow> 'w state \<Rightarrow> 'w state result" where
  "notify_distribution_settlement e fl pa on_time s =
     (case distribution_contract (inst s) of
        None \<Rightarrow> Inr s
      | Some d \<Rightarrow> and_then (expect (x_accrue_settlement (ext e) (wld s) d fl pa on_time)) (\<lambda>w. Inr (s\<lparr> wld := w \<rparr>)))"

definition get_fee_tiers :: "'w state \<Rightarrow> (int \<times> nat) list" where
  "get_fee_tiers s = unwrap_or (fee_tiers (inst s)) []"

definition effective_fee_rate :: "int \<Rightarrow> 'w state \<Rightarrow> nat" where
  "effective_fee_rate a s =
     (let tiers = get_fee_tiers s in
      if tiers \<noteq> [] then
        fold (\<lambda>(min_amount, rate) best_rate. if a \<ge> min_amount then rate else best_rate) tiers 0
      else unwrap_or (fee_rate (inst s)) 0)"

text \<open>\<open>500 + (100 - capped) * 5\<close> cannot leave \<open>u32\<close>: \<open>capped\<close> is at most 100.\<close>

definition suggested_discount_rate :: "'w env \<Rightarrow> address \<Rightarrow> 'w state \<Rightarrow> nat \<times> 'w state" where
  "suggested_discount_rate e p s =
     (let (score, s') = get_payer_score e p s;
          capped = min score 100;
          rate = 500 + (100 - capped) * 5
      in (max rate 50, s'))"

definition calculate_effective_rate :: "nat \<Rightarrow> nat \<Rightarrow> nat \<Rightarrow> nat \<Rightarrow> nat \<Rightarrow> nat" where
  "calculate_effective_rate base_rate_bps reputation_score high_rep bonus min_rate =
     (if reputation_score \<ge> high_rep then max (base_rate_bps - bonus) min_rate
      else max base_rate_bps min_rate)"

section \<open>Lemmas\<close>

lemma suggested_discount_rate_state:
  "snd (suggested_discount_rate e p s) = snd (get_payer_score e p s)"
  by (simp add: suggested_discount_rate_def Let_def split_beta)

lemma ten_pow_eq: "n \<le> 38 \<Longrightarrow> ten_pow n = 10 ^ n"
proof (induction n)
  case (Suc n)
  have "(10::int) ^ Suc n \<le> 10 ^ 38" using Suc.prems by (intro power_increasing) auto
  moreover have "i128_min \<le> 0" "10 ^ 38 \<le> i128_max" by (simp_all add: width_defs)
  moreover have "(0::int) \<le> 10 ^ n * 10" by simp
  ultimately have "in_i128 (10 ^ n * 10)" unfolding in_i128_def power_Suc2 by linarith
  then show ?case using Suc by (simp add: saturating_mul_def)
qed simp

lemma ten_pow_pos: "0 < ten_pow n"
  by (induction n) (auto simp: saturating_mul_def clamp_i128_def width_defs)

lemma validate_invoice_terms_for_min_eq_Inr [res_simps]:
  "validate_invoice_terms_for_min e a m due rate s = Inr u \<longleftrightarrow>
     m \<le> a \<and> 0 < rate \<and> rate \<le> unwrap_or (max_discount_rate (inst s)) 5000 \<and> due \<le> u32_max \<and>
     timestamp e < due \<and> sat_add_u64 (timestamp e) MIN_INVOICE_DURATION \<le> due \<and>
     due \<le> sat_add_u64 (timestamp e) MAX_INVOICE_DURATION"
  by (auto simp: validate_invoice_terms_for_min_def Let_def)

lemma validate_invoice_terms_with_token_eq_Inr [res_simps]:
  "validate_invoice_terms_with_token e a due rate t s = Inr u \<longleftrightarrow>
     (\<exists>d. token_decimals (toks s) t = Some d \<and> ten_pow d \<le> a) \<and> 0 < rate \<and>
     rate \<le> unwrap_or (max_discount_rate (inst s)) 5000 \<and> due \<le> u32_max \<and> timestamp e < due \<and>
     sat_add_u64 (timestamp e) MIN_INVOICE_DURATION \<le> due \<and>
     due \<le> sat_add_u64 (timestamp e) MAX_INVOICE_DURATION"
  by (auto simp: validate_invoice_terms_with_token_def registered_token_decimals_def res_simps)

lemma terms_positive:
  "validate_invoice_terms_with_token e a due rate t s = Inr u \<Longrightarrow> 0 < a"
  using ten_pow_pos by (fastforce simp: res_simps intro: less_le_trans)

lemma notify_distribution_funding_frame:
  "notify_distribution_funding e a amt s = Inr s' \<Longrightarrow> \<exists>w. s' = s\<lparr> wld := w \<rparr>"
  by (auto simp: notify_distribution_funding_def res_simps split: option.splits intro: exI [of _ "wld s"])

lemma notify_distribution_settlement_frame:
  "notify_distribution_settlement e f p b s = Inr s' \<Longrightarrow> \<exists>w. s' = s\<lparr> wld := w \<rparr>"
  by (auto simp: notify_distribution_settlement_def res_simps split: option.splits intro: exI [of _ "wld s"])

text \<open>The last tier whose threshold the amount reaches decides; with none the rate is 0.\<close>

lemma fee_tiers_fold:
  "fold (\<lambda>(m, r) best. if m \<le> (a::int) then r else best) tiers (b::nat) =
     (case filter (\<lambda>(m, r). m \<le> a) tiers of [] \<Rightarrow> b | _ # _ \<Rightarrow> snd (last (filter (\<lambda>(m, r). m \<le> a) tiers)))"
proof (induction tiers rule: rev_induct)
  case (snoc x xs)
  then show ?case by (cases x) (auto split: list.splits)
qed simp

end
