(* ===== verification/Nft.thy ===== *)
theory Nft
  imports InvoiceStore
begin

text \<open>
  The invoice NFT (src/contracts/invoice_liquidity/src/nft.rs): mint, transfer, burn, and
  \<open>sync_nft_state\<close>, which brings the NFT of an invoice in line with its status and funders.

  Shown here: on a coherent NFT store the synchronisation cannot fail; afterwards the NFT of that
  invoice exists exactly for the statuses the module documents, is held by the funder, the lead LP
  or (without either) the freelancer, and no other NFT changed.
\<close>

definition mint_invoice_nft ::
    "'w env \<Rightarrow> nat \<Rightarrow> address \<Rightarrow> int \<Rightarrow> nat \<Rightarrow> nat \<Rightarrow> address \<Rightarrow> 'w state \<Rightarrow> 'w state result" where
  "mint_invoice_nft e n owner a due rate t s =
     (if invoice_nft (nfts s) n \<noteq> None then err AlreadyFunded
      else let metadata = \<lparr> nft_invoice_id = n, nft_amount = a, nft_due_date = due,
             nft_discount_rate = rate, nft_token = t, nft_owner = owner, minted_at = as_u32 (timestamp e) \<rparr>
        in Inr (publish (EvInvoiceNftMinted n owner a due (timestamp e))
             (s\<lparr> nfts := (nfts s)\<lparr> invoice_nft := (invoice_nft (nfts s))(n \<mapsto> metadata),
                                  invoice_nft_owner := (invoice_nft_owner (nfts s))(n \<mapsto> owner) \<rparr> \<rparr>)))"

definition transfer_invoice_nft ::
    "'w env \<Rightarrow> nat \<Rightarrow> address \<Rightarrow> address \<Rightarrow> 'w state \<Rightarrow> 'w state result" where
  "transfer_invoice_nft e n from to s =
     and_then (ok_or_err (invoice_nft (nfts s) n) InvoiceNotFound) (\<lambda>metadata.
     if nft_owner metadata \<noteq> from then err Unauthorized
     else Inr (publish (EvInvoiceNftTransferred n from to (timestamp e))
            (s\<lparr> nfts := (nfts s)\<lparr>
               invoice_nft := (invoice_nft (nfts s))(n \<mapsto> metadata\<lparr> nft_owner := to \<rparr>),
               invoice_nft_owner := (invoice_nft_owner (nfts s))(n \<mapsto> to) \<rparr> \<rparr>)))"

definition burn_invoice_nft :: "'w env \<Rightarrow> nat \<Rightarrow> address \<Rightarrow> 'w state \<Rightarrow> 'w state result" where
  "burn_invoice_nft e n owner s =
     and_then (ok_or_err (invoice_nft (nfts s) n) InvoiceNotFound) (\<lambda>metadata.
     if nft_owner metadata \<noteq> owner then err Unauthorized
     else Inr (publish (EvInvoiceNftBurned n owner (timestamp e))
            (s\<lparr> nfts := (nfts s)\<lparr> invoice_nft := (invoice_nft (nfts s))(n := None),
                                 invoice_nft_owner := (invoice_nft_owner (nfts s))(n := None) \<rparr> \<rparr>)))"

definition invoice_nft_exists :: "nat \<Rightarrow> 'w state \<Rightarrow> bool" where
  "invoice_nft_exists n s \<longleftrightarrow> invoice_nft (nfts s) n \<noteq> None"

definition get_invoice_nft_owner :: "nat \<Rightarrow> 'w state \<Rightarrow> address option" where
  "get_invoice_nft_owner n s = invoice_nft_owner (nfts s) n"

definition nft_should_exist :: "invoice_status \<Rightarrow> bool" where
  "nft_should_exist st =
     (case st of Funded \<Rightarrow> True | PartiallyFunded \<Rightarrow> True | Defaulted \<Rightarrow> True | Appealed \<Rightarrow> True
        | Disputed \<Rightarrow> True | _ \<Rightarrow> False)"

text \<open>The first of the funders with the largest contribution.\<close>

fun lead_lp :: "address \<Rightarrow> int \<Rightarrow> funders \<Rightarrow> address" where
  "lead_lp lead max_amt [] = lead"
| "lead_lp lead max_amt ((addr, amt) # fs) =
     (if amt > max_amt then lead_lp addr amt fs else lead_lp lead max_amt fs)"

definition target_owner :: "invoice \<Rightarrow> funders \<Rightarrow> address" where
  "target_owner i fs =
     (case funder i of
        Some a \<Rightarrow> a
      | None \<Rightarrow> (case fs of [] \<Rightarrow> freelancer i | (a, x) # rest \<Rightarrow> lead_lp a x rest))"

definition sync_nft_state :: "'w env \<Rightarrow> nat \<Rightarrow> 'w state \<Rightarrow> 'w state result" where
  "sync_nft_state e n s =
     (case try_load_invoice n s of
        None \<Rightarrow>
          if invoice_nft_exists n s
          then and_then (expect (get_invoice_nft_owner n s)) (\<lambda>o'. burn_invoice_nft e n o' s)
          else Inr s
      | Some i \<Rightarrow>
          if nft_should_exist (status i) then
            let target = target_owner i (get_invoice_funders n s) in
            if invoice_nft_exists n s then
              and_then (ok_or_err (get_invoice_nft_owner n s) InvoiceNotFound) (\<lambda>current.
              if current \<noteq> target then transfer_invoice_nft e n current target s else Inr s)
            else mint_invoice_nft e n target (amount i) (due_date i) (discount_rate i) (token i) s
          else if invoice_nft_exists n s then
            and_then (ok_or_err (get_invoice_nft_owner n s) InvoiceNotFound) (\<lambda>current.
            burn_invoice_nft e n current s)
          else Inr s)"

text \<open>The owner index agrees with the metadata, and an NFT sits under its own invoice id.\<close>

definition nft_ok :: "nft_store \<Rightarrow> bool" where
  "nft_ok ns \<longleftrightarrow>
     (\<forall>n. invoice_nft_owner ns n = map_option nft_owner (invoice_nft ns n)) \<and>
     (\<forall>n m. invoice_nft ns n = Some m \<longrightarrow> nft_invoice_id m = n)"

text \<open>The NFT of an invoice reflects its status and funders.\<close>

definition nft_synced :: "nat \<Rightarrow> 'w state \<Rightarrow> bool" where
  "nft_synced n s \<longleftrightarrow>
     (case try_load_invoice n s of
        None \<Rightarrow> invoice_nft (nfts s) n = None
      | Some i \<Rightarrow> if nft_should_exist (status i)
                 then invoice_nft_owner (nfts s) n = Some (target_owner i (get_invoice_funders n s)) \<and>
                      invoice_nft (nfts s) n \<noteq> None
                 else invoice_nft (nfts s) n = None)"

section \<open>Lemmas\<close>

lemma lead_lp_spec:
  "\<exists>x. (lead_lp a m fs, x) \<in> set ((a, m) # fs) \<and> (\<forall>y \<in> snd ` set ((a, m) # fs). y \<le> x)"
proof (induction a m fs rule: lead_lp.induct)
  case (2 lead max_amt addr amt fs)
  show ?case
  proof (cases "amt > max_amt")
    case True
    then show ?thesis using 2(1) by fastforce
  next
    case False
    then show ?thesis using 2(2) by fastforce
  qed
qed simp

lemma sync_nft_state_frame:
  assumes "sync_nft_state e n s = Inr s'"
  shows "\<exists>ns vs. s' = s\<lparr> nfts := ns, evs := evs s @ vs \<rparr>"
proof -
  have "\<exists>ns vs. s = s\<lparr> nfts := ns, evs := evs s @ vs \<rparr>"
    by (rule exI [of _ "nfts s"], rule exI [of _ "[]"]) simp
  then show ?thesis
    using assms
    by (auto simp: sync_nft_state_def burn_invoice_nft_def transfer_invoice_nft_def mint_invoice_nft_def
        publish_def Let_def res_simps split: option.splits if_splits)
qed

lemma sync_nft_state_fields:
  assumes "sync_nft_state e n s = Inr s'"
  shows "inst s' = inst s" "invs s' = invs s" "idxs s' = idxs s" "reps s' = reps s" "ques s' = ques s"
    "toks s' = toks s" "stats s' = stats s" "orcs s' = orcs s" "mss s' = mss s" "alog s' = alog s"
    "wld s' = wld s"
  using sync_nft_state_frame [OF assms] by auto

lemma sync_nft_state_total:
  assumes ok: "nft_ok (nfts s)"
  shows "\<exists>s'. sync_nft_state e n s = Inr s' \<and> nft_ok (nfts s') \<and> nft_synced n s' \<and>
    (\<forall>m. m \<noteq> n \<longrightarrow> invoice_nft (nfts s') m = invoice_nft (nfts s) m)"
proof -
  have own: "invoice_nft_owner (nfts s) m = map_option nft_owner (invoice_nft (nfts s) m)" for m
    using ok by (simp add: nft_ok_def)
  have load: "try_load_invoice n (s\<lparr> nfts := ns, evs := vs \<rparr>) = try_load_invoice n s"
    "get_invoice_funders n (s\<lparr> nfts := ns, evs := vs \<rparr>) = get_invoice_funders n s" for ns vs
    by (auto intro: try_load_invoice_frame simp: get_invoice_funders_def)
  show ?thesis
  proof (cases "invoice_nft (nfts s) n")
    case None
    then show ?thesis
      using ok own load
      by (auto simp: sync_nft_state_def mint_invoice_nft_def invoice_nft_exists_def nft_synced_def nft_ok_def
          publish_def Let_def split: option.splits)
  next
    case (Some m)
    then show ?thesis
      using ok own [of n] load
      by (auto simp: sync_nft_state_def burn_invoice_nft_def transfer_invoice_nft_def invoice_nft_exists_def
          get_invoice_nft_owner_def nft_synced_def nft_ok_def publish_def Let_def split: option.splits)
  qed
qed

section \<open>Properties\<close>

text \<open>
  C8: synchronising an invoice's NFT never fails on a coherent NFT store and leaves it coherent.
  Afterwards the NFT exists exactly when the invoice exists and is Funded, PartiallyFunded,
  Defaulted, Appealed or Disputed; its holder is the recorded funder, else a funder of maximal
  contribution, else the freelancer; and every other NFT is untouched.
\<close>

theorem nft_sync_invariant:
  assumes "nft_ok (nfts s)"
  shows "\<exists>s'. sync_nft_state e n s = Inr s' \<and> nft_ok (nfts s') \<and>
    (invoice_nft_exists n s' \<longleftrightarrow> (\<exists>i. try_load_invoice n s = Some i \<and>
        status i \<in> {Funded, PartiallyFunded, Defaulted, Appealed, Disputed})) \<and>
    (\<forall>i h. try_load_invoice n s = Some i \<and> get_invoice_nft_owner n s' = Some h \<longrightarrow>
        (case funder i of
           Some a \<Rightarrow> h = a
         | None \<Rightarrow> if get_invoice_funders n s = [] then h = freelancer i
                  else \<exists>x. (h, x) \<in> set (get_invoice_funders n s) \<and>
                         (\<forall>(a, y) \<in> set (get_invoice_funders n s). y \<le> x))) \<and>
    (\<forall>m. m \<noteq> n \<longrightarrow> invoice_nft (nfts s') m = invoice_nft (nfts s) m)"
proof -
  obtain s' where s': "sync_nft_state e n s = Inr s'" "nft_ok (nfts s')" "nft_synced n s'"
    "\<forall>m. m \<noteq> n \<longrightarrow> invoice_nft (nfts s') m = invoice_nft (nfts s) m"
    using sync_nft_state_total [OF assms, of e n] by blast
  have same: "try_load_invoice n s' = try_load_invoice n s" "get_invoice_funders n s' = get_invoice_funders n s"
    using sync_nft_state_fields(2) [OF s'(1)] by (auto intro: try_load_invoice_frame simp: get_invoice_funders_def)
  have st: "nft_should_exist st \<longleftrightarrow> st \<in> {Funded, PartiallyFunded, Defaulted, Appealed, Disputed}" for st
    by (cases st) (auto simp: nft_should_exist_def)
  have exists: "invoice_nft_exists n s' \<longleftrightarrow> (\<exists>i. try_load_invoice n s = Some i \<and>
        status i \<in> {Funded, PartiallyFunded, Defaulted, Appealed, Disputed})"
    using s'(3) by (auto simp: nft_synced_def invoice_nft_exists_def same st split: option.splits if_splits)
  have holder: "h = target_owner i (get_invoice_funders n s)"
    if "try_load_invoice n s = Some i" "get_invoice_nft_owner n s' = Some h" for i h
    using s'(2,3) that by (auto simp: nft_synced_def get_invoice_nft_owner_def nft_ok_def same split: if_splits)
  have lead: "\<exists>x. (target_owner i fs, x) \<in> set fs \<and> (\<forall>(a, y) \<in> set fs. y \<le> x)"
    if "funder i = None" "fs \<noteq> []" for i fs
  proof -
    obtain a m rest where fs: "fs = (a, m) # rest" using \<open>fs \<noteq> []\<close> by (cases fs) auto
    obtain x where "(lead_lp a m rest, x) \<in> set fs" "\<forall>y \<in> snd ` set fs. y \<le> x"
      using lead_lp_spec [of a m rest] unfolding fs by blast
    then show ?thesis using that(1) by (intro exI [of _ x]) (auto simp: target_owner_def fs)
  qed
  have "case funder i of
           Some a \<Rightarrow> h = a
         | None \<Rightarrow> if get_invoice_funders n s = [] then h = freelancer i
                  else \<exists>x. (h, x) \<in> set (get_invoice_funders n s) \<and>
                         (\<forall>(a, y) \<in> set (get_invoice_funders n s). y \<le> x)"
    if "try_load_invoice n s = Some i" "get_invoice_nft_owner n s' = Some h" for i h
    using holder [OF that] lead [of i "get_invoice_funders n s"]
    by (cases "funder i") (simp_all add: target_owner_def)
  then show ?thesis using s'(1,2,4) exists by blast
qed

theorem nft_sync_invariant_witness:
  "nft_ok (nfts (fresh_state ())) \<and>
   (\<exists>s'. sync_nft_state (call_env no_contracts 5 5 {}) 3 (fresh_state ()) = Inr s' \<and> \<not> invoice_nft_exists 3 s')"
  using nft_sync_invariant [of "fresh_state ()" "call_env no_contracts 5 5 {}" 3]
  by (auto simp: nft_ok_def fresh_state_def try_load_invoice_def)

end
