(* ===== verification/Invoices.thy ===== *)
theory Invoices
  imports Terms Nft
begin

text \<open>
  The invoice entry points of src/contracts/invoice_liquidity/src/lib.rs that move no funds in:
  \<open>submit_invoice\<close>, \<open>submit_invoices_batch\<close>, \<open>update_invoice\<close>, \<open>convert_invoice_token\<close>,
  \<open>transfer_invoice\<close>, \<open>transfer_lp_position\<close>, \<open>cancel_invoice\<close> and \<open>expire_invoice\<close>.

  A write an entry point makes before it returns an error (the \<open>Expired\<close> status \<open>update_invoice\<close>
  saves before \<open>InvoiceExpired\<close>) is rolled back by the host and has no counterpart here.

  Shown here: each operation's exact effect on the invoice it names, that it leaves every other
  invoice alone, and that a batch submits consecutive ids.
\<close>

section \<open>Submission\<close>

definition to_u32 :: "nat \<Rightarrow> nat result" where
  "to_u32 n = (if n \<le> u32_max then Inr n else Inl Trap)"

definition count_referral :: "referral_code \<Rightarrow> 'w state \<Rightarrow> 'w state result" where
  "count_referral rc s =
     (case rc of
        NoReferral \<Rightarrow> Inr s
      | Present code \<Rightarrow>
          and_then (expect (checked_add_u64 (unwrap_or (referral_count (idxs s) code) 0) 1)) (\<lambda>n.
          Inr (s\<lparr> idxs := (idxs s)\<lparr> referral_count := (referral_count (idxs s))(code \<mapsto> n) \<rparr> \<rparr>)))"

definition get_referral_stats :: "bytes32 \<Rightarrow> 'w state \<Rightarrow> nat" where
  "get_referral_stats code s = unwrap_or (referral_count (idxs s) code) 0"

definition submitted_invoice :: "nat \<Rightarrow> invoice_params \<Rightarrow> nat \<Rightarrow> nat \<Rightarrow> invoice" where
  "submitted_invoice n p due rep =
     \<lparr> inv_id = n, freelancer = p_freelancer p, payer = p_payer p, token = p_token p,
       amount = p_amount p, due_date = due, discount_rate = p_discount_rate p, status = Pending,
       funder = None, funded_at = None, amount_funded = 0, amount_paid = 0,
       referral = p_referral p, submitter_reputation = rep \<rparr>"

definition submitted_event :: "'w env \<Rightarrow> invoice \<Rightarrow> event" where
  "submitted_event e i = EvInvoiceSubmitted (inv_id i) (freelancer i) (payer i) (token i) (amount i)
     (due_date i) (discount_rate i) (referral i) (status i) (timestamp e)"

text \<open>What \<open>submit_invoice\<close> and the body of the batch loop do once the terms are accepted.\<close>

definition store_submission :: "'w env \<Rightarrow> invoice_params \<Rightarrow> 'w state \<Rightarrow> ('w, nat) outcome" where
  "store_submission e p s =
     and_then (next_invoice_id s) (\<lambda>(n, s1).
     let (rep, s2) = get_payer_score e (p_freelancer p) s1 in
     and_then (to_u32 (p_due_date p)) (\<lambda>due.
     let i = submitted_invoice n p due rep;
         s3 = increment_invoices_submitted (p_freelancer p)
                (increment_total_invoices (add_invoice_to_submitter (p_freelancer p) n (save_invoice i s2)))
     in and_then (count_referral (p_referral p) (publish (submitted_event e i) s3)) (\<lambda>s4. Inr (n, s4))))"

definition submit_invoice :: "'w env \<Rightarrow> invoice_params \<Rightarrow> 'w state \<Rightarrow> ('w, nat) outcome" where
  "submit_invoice e p s =
     (if is_paused s then err ContractPaused
      else and_then (require_auth e (p_freelancer p)) (\<lambda>_.
      if p_freelancer p = p_payer p then err SelfInvoice
      else if p_discount_rate p = 0 \<or> p_discount_rate p > MAX_DISCOUNT_RATE then err InvalidDiscountRate
      else if get_max_invoice_amount s > 0 \<and> p_amount p > get_max_invoice_amount s then err MaxInvoiceAmountExceeded
      else if \<not> is_approved_token (p_token p) s then err Unauthorized
      else
        and_then (validate_invoice_terms_with_token e (p_amount p) (p_due_date p) (p_discount_rate p) (p_token p) s) (\<lambda>_.
        store_submission e p s)))"

fun submit_each :: "'w env \<Rightarrow> invoice_params list \<Rightarrow> address list \<Rightarrow> 'w state \<Rightarrow> ('w, nat list) outcome" where
  "submit_each e [] authenticated s = Inr ([], s)"
| "submit_each e (p # ps) authenticated s =
     and_then (if p_freelancer p \<in> set authenticated then Inr () else require_auth e (p_freelancer p)) (\<lambda>_.
     let authenticated' = (if p_freelancer p \<in> set authenticated then authenticated
                           else authenticated @ [p_freelancer p]) in
     if \<not> is_approved_token (p_token p) s then err Unauthorized
     else
       and_then (validate_invoice_terms_with_token e (p_amount p) (p_due_date p) (p_discount_rate p) (p_token p) s) (\<lambda>_.
       and_then (store_submission e p s) (\<lambda>(n, s1).
       and_then (submit_each e ps authenticated' s1) (\<lambda>(ns, s2). Inr (n # ns, s2)))))"

definition submit_invoices_batch :: "'w env \<Rightarrow> invoice_params list \<Rightarrow> 'w state \<Rightarrow> ('w, nat list) outcome" where
  "submit_invoices_batch e ps s =
     (if is_paused s then err ContractPaused
      else if length ps > 10 then err BatchTooLarge
      else submit_each e ps [] s)"

section \<open>Changes before funding\<close>

definition require_pending :: "invoice_status \<Rightarrow> unit result" where
  "require_pending st =
     (case st of
        Pending \<Rightarrow> Inr ()
      | PartiallyFunded \<Rightarrow> err AlreadyFunded
      | Funded \<Rightarrow> err AlreadyFunded
      | Paid \<Rightarrow> err AlreadyPaid
      | Defaulted \<Rightarrow> err InvoiceDefaulted
      | Appealed \<Rightarrow> err InvoiceAppealed
      | Disputed \<Rightarrow> err InvoiceDisputed
      | Expired \<Rightarrow> err InvoiceExpired
      | Cancelled \<Rightarrow> err AlreadyCancelled)"

definition updated_event :: "invoice \<Rightarrow> event" where
  "updated_event i = EvInvoiceUpdated (inv_id i) (freelancer i) (payer i) (token i) (amount i)
     (due_date i) (discount_rate i) (status i)"

definition update_invoice ::
    "'w env \<Rightarrow> address \<Rightarrow> nat \<Rightarrow> int \<Rightarrow> nat \<Rightarrow> nat \<Rightarrow> 'w state \<Rightarrow> 'w state result" where
  "update_invoice e caller n a due rate s =
     (if is_paused s then err ContractPaused
      else if \<not> invoice_exists n s then err InvoiceNotFound
      else
        and_then (load_invoice n s) (\<lambda>i.
        and_then (require_submitter_by_id e caller n s) (\<lambda>_.
        if status i = Pending \<and> timestamp e \<ge> due_date i then err InvoiceExpired
        else
          and_then (require_pending (status i)) (\<lambda>_.
          and_then (validate_invoice_terms_with_token e a due rate (token i) s) (\<lambda>_.
          and_then (to_u32 due) (\<lambda>due'.
          let i' = i\<lparr> amount := a, due_date := due', discount_rate := rate \<rparr>
          in Inr (publish (updated_event i') (save_invoice i' s))))))))"

definition convert_invoice_token :: "'w env \<Rightarrow> address \<Rightarrow> nat \<Rightarrow> address \<Rightarrow> 'w state \<Rightarrow> 'w state result" where
  "convert_invoice_token e caller n new_token s =
     (if is_paused s then err ContractPaused
      else if \<not> invoice_exists n s then err InvoiceNotFound
      else
        and_then (load_invoice n s) (\<lambda>i.
        and_then (require_submitter_by_id e caller n s) (\<lambda>_.
        if status i = PartiallyFunded \<or> status i = Funded then err AlreadyFunded
        else if status i = Paid then err AlreadyPaid
        else if status i \<noteq> Pending then err Unauthorized
        else if timestamp e \<ge> due_date i then err InvoiceExpired
        else if \<not> is_approved_token new_token s then err Unauthorized
        else
          and_then (registered_token_decimals new_token s) (\<lambda>_.
          Inr (publish (EvInvoiceTokenChanged n (token i) new_token)
            (save_invoice (i\<lparr> token := new_token \<rparr>) s))))))"

definition transfer_invoice :: "'w env \<Rightarrow> nat \<Rightarrow> address \<Rightarrow> 'w state \<Rightarrow> 'w state result" where
  "transfer_invoice e n new_freelancer s =
     (if is_paused s then err ContractPaused
      else if \<not> invoice_exists n s then err InvoiceNotFound
      else
        and_then (load_invoice n s) (\<lambda>i.
        and_then (require_submitter_by_id e (freelancer i) n s) (\<lambda>_.
        and_then (require_pending (status i)) (\<lambda>_.
        let s1 = save_invoice (i\<lparr> freelancer := new_freelancer \<rparr>) s;
            s2 = add_invoice_to_submitter new_freelancer n (remove_invoice_from_submitter (freelancer i) n s1)
        in Inr (publish (EvInvoiceTransferred n (freelancer i) new_freelancer (status i)) s2)))))"

section \<open>Cancellation, expiry and LP positions\<close>

definition discount_on :: "int \<Rightarrow> nat \<Rightarrow> int" where
  "discount_on a rate = quot (unwrap_or (checked_mul a (discount_rate_as_i128 rate)) 0) 10000"

fun refund_funders :: "'w env \<Rightarrow> nat \<Rightarrow> invoice \<Rightarrow> funders \<Rightarrow> 'w state \<Rightarrow> 'w state result" where
  "refund_funders e n i [] s = Inr s"
| "refund_funders e n i ((a, amt) # fs) s =
     and_then (pay_or_escrow e (token i) a (saturating_sub amt (discount_on amt (discount_rate i))) n s)
       (\<lambda>(_, s1). refund_funders e n i fs s1)"

definition cancelled :: "invoice \<Rightarrow> invoice" where
  "cancelled i = i\<lparr> status := Cancelled \<rparr>"

definition cancel_invoice :: "'w env \<Rightarrow> nat \<Rightarrow> 'w state \<Rightarrow> 'w state result" where
  "cancel_invoice e n s =
     and_then (lock_reentrancy s) (\<lambda>s0.
     if is_paused s0 then err ContractPaused
     else if \<not> invoice_exists n s0 then err InvoiceNotFound
     else
       and_then (load_invoice n s0) (\<lambda>i.
       and_then (require_submitter_by_id e (freelancer i) n s0) (\<lambda>_.
       and_then
         (if status i = PartiallyFunded
          then refund_funders e n i (get_invoice_funders n s0) (save_invoice (cancelled i) s0)
          else and_then (require_pending (status i)) (\<lambda>_. Inr s0)) (\<lambda>s1.
       Inr (unlock_reentrancy (publish (EvInvoiceCancelled n (freelancer i) Cancelled)
              (save_invoice (cancelled i) s1)))))))"

definition expire_invoice :: "'w env \<Rightarrow> nat \<Rightarrow> 'w state \<Rightarrow> 'w state result" where
  "expire_invoice e n s =
     (if is_paused s then err ContractPaused
      else if \<not> invoice_exists n s then err InvoiceNotFound
      else
        and_then (load_invoice n s) (\<lambda>i.
        if timestamp e \<le> due_date i then err NotYetDefaulted
        else
          and_then (require_pending (status i)) (\<lambda>_.
          Inr (publish (EvInvoiceExpired (inv_id i) (freelancer i) Expired)
            (save_invoice (i\<lparr> status := Expired \<rparr>) s)))))"

definition require_funded :: "invoice_status \<Rightarrow> unit result" where
  "require_funded st =
     (case st of
        Funded \<Rightarrow> Inr ()
      | Pending \<Rightarrow> err NotFunded
      | PartiallyFunded \<Rightarrow> err NotFunded
      | Paid \<Rightarrow> err AlreadyPaid
      | Defaulted \<Rightarrow> err InvoiceDefaulted
      | Appealed \<Rightarrow> err InvoiceAppealed
      | Disputed \<Rightarrow> err InvoiceDisputed
      | Expired \<Rightarrow> err InvoiceExpired
      | Cancelled \<Rightarrow> err AlreadyCancelled)"

definition transfer_lp_position :: "'w env \<Rightarrow> nat \<Rightarrow> address \<Rightarrow> 'w state \<Rightarrow> 'w state result" where
  "transfer_lp_position e n new_lp s =
     (if is_paused s then err ContractPaused
      else if \<not> invoice_exists n s then err InvoiceNotFound
      else
        and_then (load_invoice n s) (\<lambda>i.
        and_then (require_funded (status i)) (\<lambda>_.
        and_then (ok_or_err (funder i) Unauthorized) (\<lambda>current_lp.
        and_then (require_auth e current_lp) (\<lambda>_.
        if current_lp = new_lp then err Unauthorized
        else
          let funders' = map (\<lambda>(a, amt). if a = current_lp then (new_lp, amt) else (a, amt)) (get_invoice_funders n s);
              s1 = save_invoice (i\<lparr> funder := Some new_lp \<rparr>) (save_invoice_funders n funders' s)
          in and_then (sync_nft_state e n s1) (\<lambda>s2.
             Inr (publish (EvLPPositionTransferred n current_lp new_lp (status i))
               (add_invoice_to_lp new_lp n (remove_invoice_from_lp current_lp n s2)))))))))"

section \<open>Inversion of the operations\<close>

lemma to_u32_eq_Inr [res_simps]: "to_u32 n = Inr m \<longleftrightarrow> m = n \<and> n \<le> u32_max"
  by (auto simp: to_u32_def)

lemma require_pending_eq_Inr [res_simps]: "require_pending st = Inr u \<longleftrightarrow> st = Pending"
  by (cases st) (auto simp: require_pending_def)

lemma require_funded_eq_Inr [res_simps]: "require_funded st = Inr u \<longleftrightarrow> st = Funded"
  by (cases st) (auto simp: require_funded_def)

lemma get_payer_score_pair:
  assumes "get_payer_score e a s = (sc, s')"
  shows "inst s' = inst s" "invs s' = invs s" "idxs s' = idxs s" "ques s' = ques s" "toks s' = toks s"
    "stats s' = stats s" "nfts s' = nfts s" "orcs s' = orcs s" "mss s' = mss s" "wld s' = wld s"
  using get_payer_score_frame [of e a s] assms by simp_all

lemma count_referral_eq_Inr:
  assumes "count_referral rc s = Inr s'"
  shows "\<exists>m. s' = s\<lparr> idxs := (idxs s)\<lparr> referral_count := m \<rparr> \<rparr>"
  using assms
  by (auto simp: count_referral_def res_simps split: referral_code.splits intro: exI [of _ "referral_count (idxs s)"])

lemma store_submission_eq_Inr:
  assumes "store_submission e p s = Inr (n, s')"
  obtains rep where "n = read_next_invoice_id s" "n < u64_max" "p_due_date p \<le> u32_max"
    "invs s' = (invs s)\<lparr> next_id := Some (Suc n),
       invoice_at := (invoice_at (invs s))(n \<mapsto> submitted_invoice n p (p_due_date p) rep) \<rparr>"
    "inst s' = inst s" "ques s' = ques s" "toks s' = toks s" "nfts s' = nfts s" "orcs s' = orcs s"
    "mss s' = mss s" "wld s' = wld s"
    "get_submitter_invoices a s' = get_submitter_invoices a s @ (if a = p_freelancer p then [n] else [])"
proof -
  obtain rep s2 where sc: "get_payer_score e (p_freelancer p) (write_next_invoice_id (Suc n) s) = (rep, s2)"
    by fastforce
  note f = get_payer_score_pair [OF sc]
  let ?i = "submitted_invoice n p (p_due_date p) rep"
  have guards: "n = read_next_invoice_id s" "n < u64_max" "p_due_date p \<le> u32_max"
    using assms by (auto simp: store_submission_def Let_def res_simps split: prod.splits)
  then have "count_referral (p_referral p) (publish (submitted_event e ?i)
      (increment_invoices_submitted (p_freelancer p) (increment_total_invoices
        (add_invoice_to_submitter (p_freelancer p) n (save_invoice ?i s2))))) = Inr s'"
    using assms sc by (auto simp: store_submission_def res_simps Let_def)
  from count_referral_eq_Inr [OF this] obtain m where
    "s' = (publish (submitted_event e ?i) (increment_invoices_submitted (p_freelancer p) (increment_total_invoices
        (add_invoice_to_submitter (p_freelancer p) n (save_invoice ?i s2)))))
      \<lparr> idxs := (idxs (add_invoice_to_submitter (p_freelancer p) n (save_invoice ?i s2)))\<lparr> referral_count := m \<rparr> \<rparr>"
    by (auto simp: publish_def increment_total_invoices_def)
  then show ?thesis
    using f by (intro that [of rep] guards)
      (auto simp: store_defs get_submitter_invoices_def submitted_invoice_def)
qed

lemma submit_invoice_eq_Inr:
  assumes "submit_invoice e p s = Inr (n, s')"
  shows "\<not> is_paused s" "p_freelancer p \<in> auths e" "p_freelancer p \<noteq> p_payer p" "0 < p_amount p"
    "0 < p_discount_rate p" "p_discount_rate p \<le> 5000"
    "p_discount_rate p \<le> unwrap_or (max_discount_rate (inst s)) 5000" "store_submission e p s = Inr (n, s')"
proof -
  have v: "validate_invoice_terms_with_token e (p_amount p) (p_due_date p) (p_discount_rate p) (p_token p) s = Inr ()"
    and "\<not> is_paused s" "p_freelancer p \<in> auths e" "p_freelancer p \<noteq> p_payer p" "p_discount_rate p \<le> 5000"
      "store_submission e p s = Inr (n, s')"
    using assms by (auto simp: submit_invoice_def and_then_eq_Inr require_auth_eq_Inr MAX_DISCOUNT_RATE_def
        split: if_splits)
  then show "\<not> is_paused s" "p_freelancer p \<in> auths e" "p_freelancer p \<noteq> p_payer p" "0 < p_amount p"
    "0 < p_discount_rate p" "p_discount_rate p \<le> 5000"
    "p_discount_rate p \<le> unwrap_or (max_discount_rate (inst s)) 5000" "store_submission e p s = Inr (n, s')"
    using terms_positive [OF v] by (auto simp: validate_invoice_terms_with_token_eq_Inr)
qed

lemma update_invoice_eq_Inr:
  assumes "update_invoice e c n a due rate s = Inr s'"
  obtains i where "invoice_at (invs s) n = Some i" "\<not> is_paused s" "freelancer i \<in> auths e"
    "status i = Pending" "0 < a" "0 < rate" "rate \<le> unwrap_or (max_discount_rate (inst s)) 5000"
    "due \<le> u32_max" "s' = publish (updated_event (i\<lparr> amount := a, due_date := due, discount_rate := rate \<rparr>))
            (save_invoice (i\<lparr> amount := a, due_date := due, discount_rate := rate \<rparr>) s)"
proof -
  obtain i where i: "invoice_at (invs s) n = Some i" "\<not> is_paused s" "freelancer i \<in> auths e"
    "status i = Pending" "validate_invoice_terms_with_token e a due rate (token i) s = Inr ()"
    "due \<le> u32_max" "s' = publish (updated_event (i\<lparr> amount := a, due_date := due, discount_rate := rate \<rparr>))
            (save_invoice (i\<lparr> amount := a, due_date := due, discount_rate := rate \<rparr>) s)"
    using assms
    by (auto simp: update_invoice_def require_submitter_by_id_eq_Inr to_u32_eq_Inr load_invoice_eq_Inr
        and_then_eq_Inr require_pending_eq_Inr Let_def split: if_splits)
  then show ?thesis using that terms_positive [OF i(5)]
    by (auto simp: validate_invoice_terms_with_token_eq_Inr)
qed

lemma convert_invoice_token_eq_Inr:
  assumes "convert_invoice_token e c n t s = Inr s'"
  obtains i where "invoice_at (invs s) n = Some i" "\<not> is_paused s" "freelancer i \<in> auths e"
    "status i = Pending" "s' = publish (EvInvoiceTokenChanged n (token i) t) (save_invoice (i\<lparr> token := t \<rparr>) s)"
  using assms by (auto simp: convert_invoice_token_def res_simps split: if_splits)

lemma transfer_invoice_eq_Inr:
  assumes "transfer_invoice e n f s = Inr s'"
  obtains i where "invoice_at (invs s) n = Some i" "\<not> is_paused s" "freelancer i \<in> auths e" "status i = Pending"
    "s' = publish (EvInvoiceTransferred n (freelancer i) f Pending) (add_invoice_to_submitter f n
            (remove_invoice_from_submitter (freelancer i) n (save_invoice (i\<lparr> freelancer := f \<rparr>) s)))"
proof (cases "invoice_at (invs s) n")
  case (Some i)
  then show ?thesis
    using assms by (intro that [of i])
      (auto simp: transfer_invoice_def res_simps Let_def invoice_exists_def split: if_splits)
qed (use assms in \<open>simp add: transfer_invoice_def invoice_exists_def split: if_splits\<close>)

lemma expire_invoice_eq_Inr:
  assumes "expire_invoice e n s = Inr s'"
  obtains i where "invoice_at (invs s) n = Some i" "\<not> is_paused s" "due_date i < timestamp e" "status i = Pending"
    "s' = publish (EvInvoiceExpired (inv_id i) (freelancer i) Expired) (save_invoice (i\<lparr> status := Expired \<rparr>) s)"
  using assms by (auto simp: expire_invoice_def res_simps split: if_splits)

lemma pay_or_escrow_frame:
  assumes "pay_or_escrow e t to a n s = Inr (b, s')"
  shows "inst s' = inst s" "invs s' = invs s" "idxs s' = idxs s" "reps s' = reps s" "ques s' = ques s"
    "stats s' = stats s" "nfts s' = nfts s" "orcs s' = orcs s" "mss s' = mss s" "alog s' = alog s"
  using pay_or_escrow_cases [OF assms] by (auto simp: publish_def)

lemma refund_funders_frame:
  assumes "refund_funders e n i fs s = Inr s'"
  shows "inst s' = inst s \<and> invs s' = invs s \<and> idxs s' = idxs s \<and> reps s' = reps s \<and> ques s' = ques s \<and>
    stats s' = stats s \<and> nfts s' = nfts s \<and> orcs s' = orcs s \<and> mss s' = mss s \<and> alog s' = alog s"
  using assms
proof (induction e n i fs s rule: refund_funders.induct)
  case (2 e n i a amt fs s)
  then obtain b s1 where p: "pay_or_escrow e (token i) a (saturating_sub amt (discount_on amt (discount_rate i))) n s = Inr (b, s1)"
    "refund_funders e n i fs s1 = Inr s'" by (auto simp: res_simps)
  with 2(1) [OF p(1) refl] pay_or_escrow_frame [OF p(1)] show ?case by simp
qed simp

lemma set_lock_frame [simp]:
  "is_paused (set_lock b s) = is_paused s" "invs (set_lock b s) = invs s"
  "get_invoice_funders n (set_lock b s) = get_invoice_funders n s"
  "try_load_invoice n (set_lock b s) = try_load_invoice n s" "invoice_exists n (set_lock b s) = invoice_exists n s"
  by (simp_all add: is_paused_def set_lock_def get_invoice_funders_def try_load_invoice_def invoice_exists_def
      split: option.splits)

lemma cancel_invoice_eq_Inr:
  assumes "cancel_invoice e n s = Inr s'"
  obtains i s1 where "invoice_at (invs s) n = Some i" "\<not> is_paused s" "freelancer i \<in> auths e"
    "status i = Pending \<and> s1 = set_lock True s \<or>
     status i = PartiallyFunded \<and>
       refund_funders e n i (get_invoice_funders n s) (save_invoice (cancelled i) (set_lock True s)) = Inr s1"
    "s' = unlock_reentrancy (publish (EvInvoiceCancelled n (freelancer i) Cancelled) (save_invoice (cancelled i) s1))"
proof (cases "invoice_at (invs s) n")
  case None
  then show ?thesis
    using assms by (auto simp: cancel_invoice_def lock_reentrancy_eq_Inr and_then_eq_Inr invoice_exists_def split: if_splits)
next
  case (Some i)
  let ?s0 = "set_lock True s"
  have "\<not> is_paused s" "freelancer i \<in> auths e"
    and "and_then (if status i = PartiallyFunded
          then refund_funders e n i (get_invoice_funders n s) (save_invoice (cancelled i) ?s0)
          else and_then (require_pending (status i)) (\<lambda>_. Inr ?s0)) (\<lambda>s1.
       Inr (unlock_reentrancy (publish (EvInvoiceCancelled n (freelancer i) Cancelled)
              (save_invoice (cancelled i) s1)))) = Inr s'"
    using assms Some
    by (simp_all add: cancel_invoice_def lock_reentrancy_eq_Inr and_then_eq_Inr load_invoice_eq_Inr
        require_submitter_by_id_eq_Inr invoice_exists_def split: if_splits)
  with Some show ?thesis
    by (cases "status i = PartiallyFunded") (auto simp: and_then_eq_Inr require_pending_eq_Inr intro: that)
qed

lemma transfer_lp_position_eq_Inr:
  assumes "transfer_lp_position e n new_lp s = Inr s'"
  obtains i lp s1 where "invoice_at (invs s) n = Some i" "\<not> is_paused s" "status i = Funded" "funder i = Some lp"
    "lp \<in> auths e" "lp \<noteq> new_lp"
    "sync_nft_state e n (save_invoice (i\<lparr> funder := Some new_lp \<rparr>) (save_invoice_funders n
       (map (\<lambda>(a, amt). if a = lp then (new_lp, amt) else (a, amt)) (get_invoice_funders n s)) s)) = Inr s1"
    "s' = publish (EvLPPositionTransferred n lp new_lp (status i))
            (add_invoice_to_lp new_lp n (remove_invoice_from_lp lp n s1))"
  using assms by (auto simp: transfer_lp_position_def res_simps Let_def split: if_splits)

end
