(* ===== verification/FundQueue.thy ===== *)
theory FundQueue
  imports Access Reputation
begin

text \<open>
  The LP priority queue: the storage helpers of src/contracts/invoice_liquidity/src/storage.rs
  (invoice.rs delegates to them) and the entry points \<open>join_fund_queue\<close>, \<open>resolve_fund_queue\<close>,
  \<open>recover_fund_queue\<close> of lib.rs. The host's random draw is the environment's \<open>prng\<close>, reduced to the
  requested range. \<open>resolve_fund_queue\<close> tests a name \<open>tied_count\<close> it does not bind; its comment and
  event say it is the number of tied entries.

  Shown here: the queue stays sorted by joining score, free of duplicates and bounded; the
  resolved LP has the highest current score among the queued LPs and is fixed only after the
  maturity delay; recovery evicts the winner only after the grace period.
\<close>

section \<open>Storage helpers\<close>

definition get_fund_queue :: "nat \<Rightarrow> 'w state \<Rightarrow> lp_fund_request list" where
  "get_fund_queue n s = unwrap_or (fund_queue (ques s) n) []"

definition save_fund_queue :: "nat \<Rightarrow> lp_fund_request list \<Rightarrow> 'w state \<Rightarrow> 'w state" where
  "save_fund_queue n q s = s\<lparr> ques := (ques s)\<lparr> fund_queue := (fund_queue (ques s))(n \<mapsto> q) \<rparr> \<rparr>"

definition get_queue_resolution :: "nat \<Rightarrow> 'w state \<Rightarrow> address option" where
  "get_queue_resolution n s = queue_resolution (ques s) n"

definition save_queue_resolution :: "'w env \<Rightarrow> nat \<Rightarrow> address \<Rightarrow> 'w state \<Rightarrow> 'w state" where
  "save_queue_resolution e n a s = s\<lparr> ques := (ques s)\<lparr>
     queue_resolution := (queue_resolution (ques s))(n \<mapsto> a),
     queue_resolved_at := (queue_resolved_at (ques s))(n \<mapsto> sequence e) \<rparr> \<rparr>"

definition get_queue_resolved_at :: "nat \<Rightarrow> 'w state \<Rightarrow> nat option" where
  "get_queue_resolved_at n s = queue_resolved_at (ques s) n"

definition clear_fund_queue_state :: "nat \<Rightarrow> 'w state \<Rightarrow> 'w state" where
  "clear_fund_queue_state n s = s\<lparr> ques := (ques s)\<lparr>
     fund_queue := (fund_queue (ques s))(n := None),
     queue_resolution := (queue_resolution (ques s))(n := None),
     queue_resolved_at := (queue_resolved_at (ques s))(n := None),
     fund_queue_opened_at := (fund_queue_opened_at (ques s))(n := None) \<rparr> \<rparr>"

definition reopen_fund_queue :: "'w env \<Rightarrow> nat \<Rightarrow> lp_fund_request list \<Rightarrow> 'w state \<Rightarrow> 'w state" where
  "reopen_fund_queue e n remaining s = s\<lparr> ques := (ques s)\<lparr>
     queue_resolution := (queue_resolution (ques s))(n := None),
     queue_resolved_at := (queue_resolved_at (ques s))(n := None),
     fund_queue := (fund_queue (ques s))(n := if remaining = [] then None else Some remaining),
     fund_queue_opened_at := (fund_queue_opened_at (ques s))
       (n := if remaining = [] then None else Some (sequence e)) \<rparr> \<rparr>"

definition try_set_fund_queue_opened_at :: "'w env \<Rightarrow> nat \<Rightarrow> 'w state \<Rightarrow> 'w state" where
  "try_set_fund_queue_opened_at e n s =
     (if fund_queue_opened_at (ques s) n = None then
        s\<lparr> ques := (ques s)\<lparr> fund_queue_opened_at := (fund_queue_opened_at (ques s))(n \<mapsto> sequence e) \<rparr> \<rparr>
      else s)"

definition get_fund_queue_opened_at :: "nat \<Rightarrow> 'w state \<Rightarrow> nat option" where
  "get_fund_queue_opened_at n s = fund_queue_opened_at (ques s) n"

section \<open>Entry points\<close>

definition require_queueable :: "'w env \<Rightarrow> invoice \<Rightarrow> unit result" where
  "require_queueable e i =
     (case status i of
        Funded \<Rightarrow> err AlreadyFunded
      | Paid \<Rightarrow> err AlreadyPaid
      | Defaulted \<Rightarrow> err InvoiceDefaulted
      | Appealed \<Rightarrow> err InvoiceAppealed
      | Disputed \<Rightarrow> err InvoiceDisputed
      | Expired \<Rightarrow> err InvoiceExpired
      | Cancelled \<Rightarrow> err AlreadyCancelled
      | _ \<Rightarrow> if timestamp e > due_date i then err InvoiceExpired else Inr ())"

fun insert_pos :: "nat \<Rightarrow> lp_fund_request list \<Rightarrow> nat" where
  "insert_pos sc [] = 0"
| "insert_pos sc (r # rs) = (if lp_req_score r < sc then 0 else Suc (insert_pos sc rs))"

definition make_room ::
    "nat \<Rightarrow> address \<Rightarrow> nat \<Rightarrow> lp_fund_request list \<Rightarrow> 'w state \<Rightarrow> ('w, lp_fund_request list) outcome" where
  "make_room n a sc queue s =
     (if length queue \<ge> MAX_FUND_QUEUE_LEN then
        and_then (ok_or_err (if queue = [] then None else Some (last queue)) QueueFull) (\<lambda>tl.
        if sc \<le> lp_req_score tl then err QueueFull
        else Inr (butlast queue,
             publish (EvFundQueueEntryDisplaced n (lp tl) (lp_req_score tl) a sc) s))
      else Inr (queue, s))"

definition join_fund_queue :: "'w env \<Rightarrow> address \<Rightarrow> nat \<Rightarrow> 'w state \<Rightarrow> 'w state result" where
  "join_fund_queue e a n s =
     (if is_paused s then err ContractPaused
      else and_then (require_auth e a) (\<lambda>_.
      if \<not> invoice_exists n s then err InvoiceNotFound
      else if get_queue_resolution n s \<noteq> None then err NotApprovedFunder
      else and_then (load_invoice n s) (\<lambda>i.
      and_then (require_queueable e i) (\<lambda>_.
      let queue = get_fund_queue n s in
      if length queue \<ge> MAX_FUND_QUEUE_LEN then err QueueFull
      else if a \<in> lp ` set queue then err AlreadyInQueue
      else
        let sc = get_lp_score a s;
            new_request = \<lparr> lp = a, lp_req_score = sc \<rparr>;
            pos = insert_pos sc queue
        in and_then (make_room n a sc queue s) (\<lambda>(queue1, s1).
           Inr (publish (EvFundRequested n a sc)
             (try_set_fund_queue_opened_at e n
               (save_fund_queue n (insert_at pos new_request queue1) s1))))))))"

definition best_score :: "lp_fund_request list \<Rightarrow> 'w state \<Rightarrow> nat" where
  "best_score queue s =
     fold (\<lambda>r best. if get_lp_score (lp r) s > best then get_lp_score (lp r) s else best) queue 0"

definition tied_indices :: "lp_fund_request list \<Rightarrow> 'w state \<Rightarrow> nat list" where
  "tied_indices queue s =
     filter (\<lambda>i. get_lp_score (lp (queue ! i)) s = best_score queue s) [0..<length queue]"

definition pick_winner :: "'w env \<Rightarrow> lp_fund_request list \<Rightarrow> 'w state \<Rightarrow> (nat \<times> address) result" where
  "pick_winner e queue s =
     (let tied = tied_indices queue s in
      and_then (expect (vec_get tied (if length tied > 1 then prng e mod length tied else 0))) (\<lambda>winner_index.
      and_then (ok_or_err (vec_get queue winner_index) QueueIndexOutOfBounds) (\<lambda>best_entry.
      Inr (winner_index, lp best_entry))))"

definition lock_winner ::
    "'w env \<Rightarrow> nat \<Rightarrow> lp_fund_request list \<Rightarrow> nat \<Rightarrow> address \<Rightarrow> 'w state \<Rightarrow> 'w state" where
  "lock_winner e n queue winner_index best_lp s =
     (let tied_count = length (tied_indices queue s);
          s1 = save_queue_resolution e n best_lp s;
          s2 = (if tied_count > 1
                then publish (EvFundQueueTieBroken n tied_count winner_index best_lp) s1 else s1);
          s3 = publish (EvFundQueueResolutionAttempted n
                 (unwrap_or (get_fund_queue_opened_at n s2) 0) (sequence e) True) s2
      in publish (EvFundQueueResolved n best_lp (best_score queue s)) s3)"

definition resolve_fund_queue :: "'w env \<Rightarrow> nat \<Rightarrow> 'w state \<Rightarrow> ('w, address) outcome" where
  "resolve_fund_queue e n s =
     (if is_paused s then err ContractPaused
      else if \<not> invoice_exists n s then err InvoiceNotFound
      else case get_queue_resolution n s of
        Some approved \<Rightarrow> Inr (approved, s)
      | None \<Rightarrow>
          and_then (ok_or_err (try_load_invoice n s) InvoiceNotFound) (\<lambda>i.
          and_then (require_queueable e i) (\<lambda>_.
          let queue = get_fund_queue n s in
          if queue = [] then err NotFunded
          else and_then (ok_or_err (get_fund_queue_opened_at n s) QueueStateArchived) (\<lambda>opened_at.
          if sequence e < sat_add_u32 opened_at QUEUE_DELAY_LEDGERS then err QueueNotMature
          else and_then (pick_winner e queue s) (\<lambda>(winner_index, best_lp).
            Inr (best_lp, lock_winner e n queue winner_index best_lp s))))))"

definition recover_fund_queue :: "'w env \<Rightarrow> nat \<Rightarrow> 'w state \<Rightarrow> ('w, address option) outcome" where
  "recover_fund_queue e n s =
     (if is_paused s then err ContractPaused
      else and_then (ok_or_err (try_load_invoice n s) InvoiceNotFound) (\<lambda>i.
        let queue = get_fund_queue n s; resolution = get_queue_resolution n s in
        if queue = [] \<and> resolution = None then err QueueNotStalled
        else if \<not> is_ok (require_queueable e i) then
          Inr (None, publish (EvFundQueueRecovered n resolution 0 True) (clear_fund_queue_state n s))
        else and_then (ok_or_err resolution QueueNotStalled) (\<lambda>winner.
          let resolved_at = unwrap_or (get_queue_resolved_at n s) 0;
              near_expiry = (due_date i - timestamp e \<le> NEAR_EXPIRY_WINDOW_SECS);
              grace = (if near_expiry then QUEUE_DELAY_LEDGERS else QUEUE_RESOLUTION_TTL_LEDGERS)
          in if sequence e < sat_add_u32 resolved_at grace then err QueueNotStalled
             else
               let remaining = filter (\<lambda>r. lp r \<noteq> winner) queue
               in Inr (Some winner, publish (EvFundQueueRecovered n (Some winner) (length remaining) False)
                    (reopen_fund_queue e n remaining s)))))"

section \<open>Invariant\<close>

text \<open>
  One queue: highest joining score first, no LP twice, bounded. The opening ledger of a non-empty
  queue and the ledger of a resolution are on record.
\<close>

definition queue_ok :: "lp_fund_request list \<Rightarrow> bool" where
  "queue_ok q \<longleftrightarrow> sorted_wrt (\<ge>) (map lp_req_score q) \<and> distinct (map lp q) \<and> length q \<le> MAX_FUND_QUEUE_LEN"

definition entry_ok ::
    "lp_fund_request list option \<Rightarrow> nat option \<Rightarrow> address option \<Rightarrow> nat option \<Rightarrow> bool" where
  "entry_ok fq opened res resolved \<longleftrightarrow>
     (\<forall>q. fq = Some q \<longrightarrow> queue_ok q \<and> q \<noteq> [] \<and> opened \<noteq> None) \<and>
     (\<forall>a. res = Some a \<longrightarrow> resolved \<noteq> None \<and> (\<exists>q. fq = Some q \<and> a \<in> lp ` set q))"

definition queues_ok :: "queue_store \<Rightarrow> bool" where
  "queues_ok qs \<longleftrightarrow> (\<forall>n. entry_ok (fund_queue qs n) (fund_queue_opened_at qs n)
     (queue_resolution qs n) (queue_resolved_at qs n))"

text \<open>A concrete fundable invoice, alone in an otherwise fresh contract, and calls at a ledger.\<close>

definition open_invoice :: "nat \<Rightarrow> invoice" where
  "open_invoice n = \<lparr> inv_id = n, freelancer = Address 1, payer = Address 2, token = Address 3, amount = 1000,
     due_date = 1000000, discount_rate = 300, status = Pending, funder = None, funded_at = None,
     amount_funded = 0, amount_paid = 0, referral = NoReferral, submitter_reputation = 50 \<rparr>"

definition open_state :: "unit state" where
  "open_state = save_invoice (open_invoice 1) (fresh_state ())"

definition lp_call :: "nat \<Rightarrow> nat \<Rightarrow> unit env" where
  "lp_call q a = call_env no_contracts 0 q {Address a}"

lemmas queue_defs = get_fund_queue_def save_fund_queue_def get_queue_resolution_def
  save_queue_resolution_def get_queue_resolved_at_def clear_fund_queue_state_def
  reopen_fund_queue_def try_set_fund_queue_opened_at_def get_fund_queue_opened_at_def

lemmas queue_example_simps = open_state_def open_invoice_def lp_call_def call_env_def save_invoice_def fresh_state_def
  is_paused_def invoice_exists_def load_invoice_def try_load_invoice_def require_queueable_def make_room_def Let_def
  get_lp_score_def const_defs publish_def insert_at_def join_fund_queue_def

section \<open>Lemmas\<close>

lemma require_queueable_eq_Inr [res_simps]:
  "require_queueable e i = Inr u \<longleftrightarrow>
     (status i = Pending \<or> status i = PartiallyFunded) \<and> timestamp e \<le> due_date i"
  by (cases "status i") (auto simp: require_queueable_def res_simps)

lemma insert_pos_le: "insert_pos sc q \<le> length q"
  by (induction q) auto

text \<open>The position splits the queue: before it no entry scores less, from it on every entry does.\<close>

lemma insert_pos_take: "r \<in> set (take (insert_pos sc q) q) \<Longrightarrow> sc \<le> lp_req_score r"
  by (induction q) (auto split: if_splits)

lemma insert_pos_drop:
  "sorted_wrt (\<ge>) (map lp_req_score q) \<Longrightarrow> r \<in> set (drop (insert_pos sc q) q) \<Longrightarrow> lp_req_score r < sc"
  by (induction q) (auto split: if_splits)

lemma insert_request_sorted:
  assumes "sorted_wrt (\<ge>) (map lp_req_score q)" and "lp_req_score r = sc"
  shows "sorted_wrt (\<ge>) (map lp_req_score (insert_at (insert_pos sc q) r q))"
proof -
  let ?a = "take (insert_pos sc q) q" and ?b = "drop (insert_pos sc q) q"
  have "sorted_wrt (\<ge>) (map lp_req_score (?a @ ?b))" using assms(1) by simp
  then have "sorted_wrt (\<ge>) (map lp_req_score ?a)" "sorted_wrt (\<ge>) (map lp_req_score ?b)"
    unfolding map_append sorted_wrt_append by blast+
  moreover have "lp_req_score y \<le> lp_req_score x" if "x \<in> set ?a" "y \<in> set ?b" for x y
    using insert_pos_take [OF that(1)] insert_pos_drop [OF assms(1) that(2)] by simp
  ultimately show ?thesis
    using insert_pos_take insert_pos_drop [OF assms(1)] assms(2)
    by (auto simp: insert_at_def sorted_wrt_append less_imp_le simp del: append_take_drop_id)
qed

lemma best_score_Max: "best_score q s = Max (insert 0 ((\<lambda>r. get_lp_score (lp r) s) ` set q))"
proof -
  have "fold (\<lambda>r best. if get_lp_score (lp r) s > best then get_lp_score (lp r) s else best) q b =
      Max (insert b ((\<lambda>r. get_lp_score (lp r) s) ` set q))" for b
  proof (induction q arbitrary: b)
    case (Cons r q)
    have "(if get_lp_score (lp r) s > b then get_lp_score (lp r) s else b) = max (get_lp_score (lp r) s) b"
      by (simp add: max_def)
    then show ?case using Cons [of "max (get_lp_score (lp r) s) b"]
      by (cases "q = []") (simp_all add: ac_simps)
  qed simp
  then show ?thesis by (simp add: best_score_def)
qed

lemma best_score_ge: "r \<in> set q \<Longrightarrow> get_lp_score (lp r) s \<le> best_score q s"
  by (simp add: best_score_Max)

lemma best_score_attained:
  assumes "q \<noteq> []"
  shows "\<exists>r \<in> set q. get_lp_score (lp r) s = best_score q s"
proof (cases "best_score q s = 0")
  case True
  obtain r where "r \<in> set q" using assms by (cases q) auto
  then show ?thesis using best_score_ge [of r q s] True by auto
next
  case False
  have "best_score q s \<in> insert 0 ((\<lambda>r. get_lp_score (lp r) s) ` set q)"
    unfolding best_score_Max by (intro Max_in) simp_all
  then show ?thesis using False by auto
qed

lemma tied_indices_nonempty:
  assumes "q \<noteq> []"
  shows "tied_indices q s \<noteq> []"
proof -
  obtain r where "r \<in> set q" "get_lp_score (lp r) s = best_score q s" using best_score_attained [OF assms] by blast
  then obtain k where "k < length q" "get_lp_score (lp (q ! k)) s = best_score q s" by (auto simp: in_set_conv_nth)
  then have "k \<in> set (tied_indices q s)" by (simp add: tied_indices_def)
  then show ?thesis by auto
qed

text \<open>Drawing a winner always succeeds, and every tied entry is drawn by some random value.\<close>

lemma pick_winner_eq:
  assumes "q \<noteq> []"
  shows "\<exists>k. pick_winner e q s = Inr (k, lp (q ! k)) \<and> k \<in> set (tied_indices q s) \<and>
    k = tied_indices q s ! (prng e mod length (tied_indices q s))"
proof -
  let ?t = "tied_indices q s"
  let ?d = "if length ?t > 1 then prng e mod length ?t else 0"
  have "0 < length ?t" using tied_indices_nonempty [OF assms, of s] by simp
  then have d: "?d = prng e mod length ?t" "?d < length ?t"
    by (cases "length ?t > 1"; simp add: not_less le_Suc_eq)+
  then have "?t ! ?d \<in> set ?t" by (intro nth_mem)
  moreover from this have "?t ! ?d < length q" by (auto simp: tied_indices_def)
  ultimately show ?thesis using d by (auto simp: pick_winner_def Let_def)
qed

lemma tied_entry:
  "k \<in> set (tied_indices q s) \<Longrightarrow> k < length q \<and> get_lp_score (lp (q ! k)) s = best_score q s"
  by (auto simp: tied_indices_def)

lemma join_fund_queue_eq_Inr:
  assumes "join_fund_queue e a n s = Inr s'"
  obtains i where "\<not> is_paused s" "a \<in> auths e" "invoice_at (invs s) n = Some i"
    "queue_resolution (ques s) n = None" "status i = Pending \<or> status i = PartiallyFunded" "timestamp e \<le> due_date i"
    "length (get_fund_queue n s) < MAX_FUND_QUEUE_LEN" "a \<notin> lp ` set (get_fund_queue n s)"
    "s' = publish (EvFundRequested n a (get_lp_score a s)) (try_set_fund_queue_opened_at e n (save_fund_queue n
        (insert_at (insert_pos (get_lp_score a s) (get_fund_queue n s)) \<lparr> lp = a, lp_req_score = get_lp_score a s \<rparr>
          (get_fund_queue n s)) s))"
  using assms
  by (auto simp: join_fund_queue_def Let_def make_room_def res_simps invoice_exists_def
      get_queue_resolution_def not_le)

lemma resolve_fund_queue_eq_Inr:
  assumes "resolve_fund_queue e n s = Inr (a, s')"
  obtains (resolved) "queue_resolution (ques s) n = Some a" "s' = s"
    | (drawn) i q k where "queue_resolution (ques s) n = None" "try_load_invoice n s = Some i"
        "status i = Pending \<or> status i = PartiallyFunded" "timestamp e \<le> due_date i"
        "q = get_fund_queue n s" "q \<noteq> []" "k \<in> set (tied_indices q s)" "a = lp (q ! k)"
        "k = tied_indices q s ! (prng e mod length (tied_indices q s))"
        "\<exists>t. fund_queue_opened_at (ques s) n = Some t \<and> sat_add_u32 t QUEUE_DELAY_LEDGERS \<le> sequence e"
        "\<exists>es. s' = (save_queue_resolution e n a s)\<lparr> evs := es \<rparr>"
proof (cases "queue_resolution (ques s) n")
  case (Some b)
  then have "a = b" "s' = s"
    using assms by (auto simp: resolve_fund_queue_def get_queue_resolution_def res_simps)
  then show ?thesis using Some by (intro that(1)) simp_all
next
  case None
  let ?q = "get_fund_queue n s"
  obtain i t where i: "try_load_invoice n s = Some i" "status i = Pending \<or> status i = PartiallyFunded"
    "timestamp e \<le> due_date i" and q: "?q \<noteq> []"
    and t: "fund_queue_opened_at (ques s) n = Some t" "sat_add_u32 t QUEUE_DELAY_LEDGERS \<le> sequence e"
    using assms None
    by (auto simp: resolve_fund_queue_def get_queue_resolution_def get_fund_queue_opened_at_def Let_def
        res_simps not_less)
  obtain k where k: "pick_winner e ?q s = Inr (k, lp (?q ! k))" "k \<in> set (tied_indices ?q s)"
    "k = tied_indices ?q s ! (prng e mod length (tied_indices ?q s))"
    using pick_winner_eq [OF q] by blast
  have "a = lp (?q ! k)" "s' = lock_winner e n ?q k a s"
    using assms None i q t k(1)
    by (auto simp: resolve_fund_queue_def get_queue_resolution_def get_fund_queue_opened_at_def Let_def
        res_simps)
  moreover have "\<exists>es. lock_winner e n ?q k a s = (save_queue_resolution e n a s)\<lparr> evs := es \<rparr>"
    by (simp add: lock_winner_def publish_def Let_def) blast
  ultimately have "a = lp (?q ! k)" "\<exists>es. s' = (save_queue_resolution e n a s)\<lparr> evs := es \<rparr>" by simp_all
  then show ?thesis using that(2) [OF None i refl q k(2) _ k(3)] t by blast
qed

lemma recover_fund_queue_eq_Inr:
  assumes "recover_fund_queue e n s = Inr (r, s')"
  obtains (purged) i where "try_load_invoice n s = Some i" "\<not> is_ok (require_queueable e i)" "r = None"
        "\<exists>es. s' = (clear_fund_queue_state n s)\<lparr> evs := es \<rparr>"
    | (evicted) i w where "try_load_invoice n s = Some i" "is_ok (require_queueable e i)" "r = Some w"
        "queue_resolution (ques s) n = Some w"
        "sat_add_u32 (unwrap_or (queue_resolved_at (ques s) n) 0)
           (if due_date i - timestamp e \<le> NEAR_EXPIRY_WINDOW_SECS then QUEUE_DELAY_LEDGERS
            else QUEUE_RESOLUTION_TTL_LEDGERS) \<le> sequence e"
        "\<exists>es. s' = (reopen_fund_queue e n (filter (\<lambda>r. lp r \<noteq> w) (get_fund_queue n s)) s)\<lparr> evs := es \<rparr>"
proof -
  obtain i where i: "try_load_invoice n s = Some i"
    using assms by (auto simp: recover_fund_queue_def res_simps)
  show ?thesis
  proof (cases "is_ok (require_queueable e i)")
    case False
    then show ?thesis using assms i that(1)
      by (auto simp: recover_fund_queue_def Let_def res_simps publish_def clear_fund_queue_state_def)
  next
    case True
    then show ?thesis using assms i that(2) [OF i True]
      by (simp add: recover_fund_queue_def Let_def res_simps publish_def reopen_fund_queue_def
          get_queue_resolution_def get_queue_resolved_at_def not_less) blast
  qed
qed

lemma queue_ok_filter: "queue_ok q \<Longrightarrow> queue_ok (filter P q)"
  unfolding queue_ok_def
  by (metis distinct_map_filter length_filter_le order_trans sorted_wrt_filter sorted_wrt_map)

lemma queues_ok_get:
  assumes "queues_ok (ques s)"
  shows "queue_ok (get_fund_queue n s)"
proof -
  have "entry_ok (fund_queue (ques s) n) (fund_queue_opened_at (ques s) n)
      (queue_resolution (ques s) n) (queue_resolved_at (ques s) n)"
    using assms by (simp add: queues_ok_def)
  then show ?thesis
    by (cases "fund_queue (ques s) n") (simp_all add: entry_ok_def get_fund_queue_def queue_ok_def)
qed

lemma queues_ok_update:
  assumes "queues_ok qs" and "\<And>m. m \<noteq> n \<Longrightarrow> fund_queue qs' m = fund_queue qs m \<and>
      fund_queue_opened_at qs' m = fund_queue_opened_at qs m \<and>
      queue_resolution qs' m = queue_resolution qs m \<and> queue_resolved_at qs' m = queue_resolved_at qs m"
    and "entry_ok (fund_queue qs' n) (fund_queue_opened_at qs' n) (queue_resolution qs' n) (queue_resolved_at qs' n)"
  shows "queues_ok qs'"
  unfolding queues_ok_def
proof
  fix m
  show "entry_ok (fund_queue qs' m) (fund_queue_opened_at qs' m) (queue_resolution qs' m) (queue_resolved_at qs' m)"
    using assms by (cases "m = n") (simp_all add: queues_ok_def)
qed

lemma join_queue_ok:
  assumes "queue_ok q" and "length q < MAX_FUND_QUEUE_LEN" and "a \<notin> lp ` set q"
  shows "queue_ok (insert_at (insert_pos sc q) \<lparr> lp = a, lp_req_score = sc \<rparr> q)"
  using assms by (auto simp: queue_ok_def distinct_insert_at intro: insert_request_sorted)

lemma join_fund_queue_ok:
  assumes "queues_ok (ques s)" and "join_fund_queue e a n s = Inr s'"
  shows "queues_ok (ques s')"
  using assms(2)
proof (rule join_fund_queue_eq_Inr)
  let ?q = "insert_at (insert_pos (get_lp_score a s) (get_fund_queue n s)) \<lparr> lp = a, lp_req_score = get_lp_score a s \<rparr>
          (get_fund_queue n s)"
  assume j: "queue_resolution (ques s) n = None" "length (get_fund_queue n s) < MAX_FUND_QUEUE_LEN"
    "a \<notin> lp ` set (get_fund_queue n s)"
    and s': "s' = publish (EvFundRequested n a (get_lp_score a s)) (try_set_fund_queue_opened_at e n (save_fund_queue n ?q s))"
  have q: "queue_ok ?q" "?q \<noteq> []"
    using join_queue_ok [OF queues_ok_get [OF assms(1)] j(2,3)] by (simp_all add: insert_at_def)
  then show ?thesis using j(1) unfolding s'
    by (intro queues_ok_update [OF assms(1), of n])
      (simp_all add: entry_ok_def publish_def try_set_fund_queue_opened_at_def save_fund_queue_def)
qed

lemma resolve_fund_queue_ok:
  assumes "queues_ok (ques s)" and "resolve_fund_queue e n s = Inr (a, s')"
  shows "queues_ok (ques s')"
  using assms(2)
proof (cases rule: resolve_fund_queue_eq_Inr)
  case resolved
  then show ?thesis using assms(1) by simp
next
  case (drawn i q k)
  then obtain q' where q': "fund_queue (ques s) n = Some q'" "q = q'"
    by (cases "fund_queue (ques s) n") (auto simp: get_fund_queue_def)
  have "a \<in> lp ` set q'" using tied_entry [OF drawn(7)] drawn(8) q'(2) by auto
  moreover have "entry_ok (Some q') (fund_queue_opened_at (ques s) n) None (queue_resolved_at (ques s) n)"
    using assms(1) drawn(1) q'(1) by (simp add: queues_ok_def) (metis)
  moreover obtain es where "s' = (save_queue_resolution e n a s)\<lparr> evs := es \<rparr>" using drawn(11) by blast
  ultimately show ?thesis using q'(1)
    by (intro queues_ok_update [OF assms(1), of n]) (simp_all add: entry_ok_def save_queue_resolution_def)
qed

lemma recover_fund_queue_ok:
  assumes "queues_ok (ques s)" and "recover_fund_queue e n s = Inr (r, s')"
  shows "queues_ok (ques s')"
  using assms(2)
proof (cases rule: recover_fund_queue_eq_Inr)
  case (purged i)
  then obtain es where "s' = (clear_fund_queue_state n s)\<lparr> evs := es \<rparr>" by blast
  then show ?thesis
    by (intro queues_ok_update [OF assms(1), of n]) (simp_all add: entry_ok_def clear_fund_queue_state_def)
next
  case (evicted i w)
  then obtain es where
    "s' = (reopen_fund_queue e n (filter (\<lambda>r. lp r \<noteq> w) (get_fund_queue n s)) s)\<lparr> evs := es \<rparr>" by blast
  then show ?thesis using queue_ok_filter [OF queues_ok_get [OF assms(1)]]
    by (intro queues_ok_update [OF assms(1), of n]) (simp_all add: entry_ok_def reopen_fund_queue_def)
qed

section \<open>Properties\<close>

text \<open>C17. Joining the queue. A successful \<open>join_fund_queue\<close> needs an unpaused contract, the LP's
  authorisation, an invoice that is still fundable and a queue of fewer than 50 LPs: a full queue
  refuses every joiner, whatever their score, and nobody is ever displaced. The new queue is the old one with exactly
  one request added, under the LP's current score: every entry before it scores at least as much
  and every entry after it scores less, so LPs of equal score keep their joining order. All
  queues stay sorted, free of duplicates and at most 50 long, and the joining ledger of the first
  LP is kept.\<close>

theorem join_fund_queue_spec:
  assumes "queues_ok (ques s)" and "join_fund_queue e a n s = Inr s'"
  shows "queues_ok (ques s') \<and> \<not> is_paused s \<and> a \<in> auths e \<and>
    (\<exists>i before after. invoice_at (invs s) n = Some i \<and> (status i = Pending \<or> status i = PartiallyFunded) \<and>
       length (get_fund_queue n s) < 50 \<and> get_fund_queue n s = before @ after \<and>
       get_fund_queue n s' = before @ \<lparr> lp = a, lp_req_score = get_lp_score a s \<rparr> # after \<and>
       (\<forall>r \<in> set before. get_lp_score a s \<le> lp_req_score r) \<and>
       (\<forall>r \<in> set after. lp_req_score r < get_lp_score a s) \<and> length (get_fund_queue n s') \<le> 50) \<and>
    get_fund_queue_opened_at n s' = Some (unwrap_or (get_fund_queue_opened_at n s) (sequence e))"
proof -
  let ?q = "get_fund_queue n s" and ?sc = "get_lp_score a s"
  obtain i where j: "\<not> is_paused s" "a \<in> auths e" "invoice_at (invs s) n = Some i"
    "status i = Pending \<or> status i = PartiallyFunded" "length ?q < MAX_FUND_QUEUE_LEN"
    "s' = publish (EvFundRequested n a ?sc) (try_set_fund_queue_opened_at e n (save_fund_queue n
        (insert_at (insert_pos ?sc ?q) \<lparr> lp = a, lp_req_score = ?sc \<rparr> ?q) s))"
    using assms(2) by (rule join_fund_queue_eq_Inr)
  have q': "get_fund_queue n s' = insert_at (insert_pos ?sc ?q) \<lparr> lp = a, lp_req_score = ?sc \<rparr> ?q"
    by (simp add: j(6) get_fund_queue_def publish_def try_set_fund_queue_opened_at_def save_fund_queue_def)
  have "sorted_wrt (\<ge>) (map lp_req_score ?q)" using queues_ok_get [OF assms(1)] by (simp add: queue_ok_def)
  then have "\<exists>before after. ?q = before @ after \<and>
      get_fund_queue n s' = before @ \<lparr> lp = a, lp_req_score = ?sc \<rparr> # after \<and>
      (\<forall>r \<in> set before. ?sc \<le> lp_req_score r) \<and> (\<forall>r \<in> set after. lp_req_score r < ?sc)"
    using insert_pos_take insert_pos_drop unfolding q' insert_at_def by (metis append_take_drop_id)
  moreover have "length ?q < 50" "length (get_fund_queue n s') \<le> 50"
    using j(5) by (simp_all add: q' MAX_FUND_QUEUE_LEN_def)
  moreover have "get_fund_queue_opened_at n s' = Some (unwrap_or (get_fund_queue_opened_at n s) (sequence e))"
    by (cases "fund_queue_opened_at (ques s) n")
      (simp_all add: j(6) get_fund_queue_opened_at_def publish_def try_set_fund_queue_opened_at_def save_fund_queue_def)
  ultimately show ?thesis using join_fund_queue_ok [OF assms] j(1-4) by blast
qed

theorem join_fund_queue_spec_witness:
  "\<exists>s'. join_fund_queue (lp_call 7 4) (Address 4) 1 open_state = Inr s' \<and> queues_ok (ques s') \<and>
     get_fund_queue_opened_at 1 s' = Some 7"
proof -
  obtain s' where s': "join_fund_queue (lp_call 7 4) (Address 4) 1 open_state = Inr s'"
    by (simp add: queue_example_simps queue_defs)
  have "queues_ok (ques open_state)" by (simp add: queues_ok_def entry_ok_def open_state_def save_invoice_def fresh_state_def)
  from join_fund_queue_spec [OF this s'] s' show ?thesis
    by (simp add: get_fund_queue_opened_at_def queue_example_simps)
qed

text \<open>C18. Resolving the queue. When \<open>resolve_fund_queue\<close> fixes a winner (none was on record), the
  invoice is still fundable and not past due, at least 120 ledgers have passed since the queue
  opened, the winner is queued, and no queued LP has a higher current score than the winner. The
  winner is on record afterwards, so that a second call returns the same LP and changes nothing;
  the queue itself is kept, with its opening ledger.\<close>

theorem resolve_fund_queue_spec:
  assumes "resolve_fund_queue e n s = Inr (a, s')" and "get_queue_resolution n s = None"
  shows "(\<exists>i t. try_load_invoice n s = Some i \<and> (status i = Pending \<or> status i = PartiallyFunded) \<and>
       timestamp e \<le> due_date i \<and> get_fund_queue_opened_at n s = Some t \<and> min (t + 120) u32_max \<le> sequence e) \<and>
    a \<in> lp ` set (get_fund_queue n s) \<and>
    (\<forall>r \<in> set (get_fund_queue n s). get_lp_score (lp r) s \<le> get_lp_score a s) \<and>
    get_queue_resolution n s' = Some a \<and> get_queue_resolved_at n s' = Some (sequence e) \<and>
    get_fund_queue n s' = get_fund_queue n s \<and>
    get_fund_queue_opened_at n s' = get_fund_queue_opened_at n s \<and> invs s' = invs s \<and> wld s' = wld s \<and>
    (is_ok (resolve_fund_queue e' n s') \<longrightarrow> resolve_fund_queue e' n s' = Inr (a, s'))"
  using assms(1)
proof (cases rule: resolve_fund_queue_eq_Inr)
  case resolved
  then show ?thesis using assms(2) by (simp add: get_queue_resolution_def)
next
  case (drawn i q k)
  note k = tied_entry [OF drawn(7)]
  obtain es where s': "s' = (save_queue_resolution e n a s)\<lparr> evs := es \<rparr>" using drawn(11) by blast
  have r: "get_queue_resolution n s' = Some a" by (simp add: s' get_queue_resolution_def save_queue_resolution_def)
  have "a \<in> lp ` set q" using k drawn(8) by auto
  moreover have "\<forall>r \<in> set q. get_lp_score (lp r) s \<le> get_lp_score a s" using k drawn(8) best_score_ge by auto
  moreover have "resolve_fund_queue e' n s' = Inr (a, s')" if "is_ok (resolve_fund_queue e' n s')"
    using that r by (auto simp: resolve_fund_queue_def split: if_splits)
  ultimately show ?thesis using drawn r
    by (auto simp: s' get_queue_resolved_at_def save_queue_resolution_def get_fund_queue_opened_at_def
        get_fund_queue_def sat_add_u32_def QUEUE_DELAY_LEDGERS_def)
qed

theorem resolve_fund_queue_spec_witness:
  "\<exists>s s'. resolve_fund_queue (lp_call 127 5) 1 s = Inr (Address 4, s') \<and>
     Address 4 \<in> lp ` set (get_fund_queue 1 s) \<and> get_queue_resolution 1 s' = Some (Address 4)"
proof -
  define s where "s = try_set_fund_queue_opened_at (lp_call 7 4) 1
    (save_fund_queue 1 [\<lparr> lp = Address 4, lp_req_score = 50 \<rparr>] open_state)"
  have r: "get_queue_resolution 1 s = None" by (simp add: s_def queue_defs queue_example_simps)
  obtain s' where s': "resolve_fund_queue (lp_call 127 5) 1 s = Inr (Address 4, s')"
    by (simp add: s_def resolve_fund_queue_def pick_winner_def tied_indices_def best_score_def queue_defs
        queue_example_simps sat_add_u32_def u32_max_def)
  from resolve_fund_queue_spec [OF s' r] s' show ?thesis by blast
qed

text \<open>C19. Recovering a stalled queue. If \<open>recover_fund_queue\<close> evicts an LP, then that LP was the
  winner on record of a fundable invoice and the grace period since the resolution has run out
  (720 ledgers, or 120 when the invoice is due within a day); afterwards there is no winner, the
  other LPs keep their places in the queue, and its maturity window starts again. If it evicts
  nobody, the invoice could no longer be funded and all its queue records are gone. Every queue
  stays well formed, and neither invoices nor tokens are touched.\<close>

theorem recover_fund_queue_spec:
  assumes "queues_ok (ques s)" and "recover_fund_queue e n s = Inr (r, s')"
  shows "queues_ok (ques s') \<and> invs s' = invs s \<and> wld s' = wld s \<and> get_queue_resolution n s' = None \<and>
    (\<exists>i. try_load_invoice n s = Some i \<and>
      (case r of
         Some w \<Rightarrow> get_queue_resolution n s = Some w \<and> is_ok (require_queueable e i) \<and>
           min (unwrap_or (get_queue_resolved_at n s) 0 + (if due_date i - timestamp e \<le> 86400 then 120 else 720))
             u32_max \<le> sequence e \<and>
           get_fund_queue n s' = filter (\<lambda>x. lp x \<noteq> w) (get_fund_queue n s) \<and>
           get_fund_queue_opened_at n s' = (if get_fund_queue n s' = [] then None else Some (sequence e))
       | None \<Rightarrow> \<not> is_ok (require_queueable e i) \<and> get_fund_queue n s' = [] \<and>
           get_fund_queue_opened_at n s' = None))"
  using assms(2)
proof (cases rule: recover_fund_queue_eq_Inr)
  case (purged i)
  then obtain es where s': "s' = (clear_fund_queue_state n s)\<lparr> evs := es \<rparr>" by blast
  show ?thesis using recover_fund_queue_ok [OF assms] purged(1-3) by (auto simp: s' queue_defs)
next
  case (evicted i w)
  then obtain es where s': "s' = (reopen_fund_queue e n (filter (\<lambda>r. lp r \<noteq> w) (get_fund_queue n s)) s)\<lparr> evs := es \<rparr>"
    by blast
  have "get_fund_queue n s' = filter (\<lambda>x. lp x \<noteq> w) (get_fund_queue n s)"
    "get_fund_queue_opened_at n s' = (if get_fund_queue n s' = [] then None else Some (sequence e))"
    "get_queue_resolution n s' = None" "invs s' = invs s" "wld s' = wld s"
    by (auto simp: s' queue_defs)
  then show ?thesis using recover_fund_queue_ok [OF assms] evicted(1-5)
    by (auto simp: get_queue_resolution_def get_queue_resolved_at_def sat_add_u32_def const_defs)
qed

theorem recover_fund_queue_spec_witness:
  "\<exists>s s'. queues_ok (ques s) \<and> recover_fund_queue (lp_call 900 5) 1 s = Inr (Some (Address 4), s') \<and>
     get_fund_queue 1 s' = [] \<and> get_queue_resolution 1 s' = None"
proof -
  define s where "s = save_queue_resolution (lp_call 127 5) 1 (Address 4) (try_set_fund_queue_opened_at (lp_call 7 4) 1
    (save_fund_queue 1 [\<lparr> lp = Address 4, lp_req_score = 50 \<rparr>] open_state))"
  have ok: "queues_ok (ques s)"
    by (simp add: s_def queues_ok_def entry_ok_def queue_ok_def queue_defs queue_example_simps)
  obtain s' where s': "recover_fund_queue (lp_call 900 5) 1 s = Inr (Some (Address 4), s')"
    by (simp add: s_def recover_fund_queue_def queue_defs queue_example_simps sat_add_u32_def u32_max_def)
  have "get_fund_queue 1 s = [\<lparr> lp = Address 4, lp_req_score = 50 \<rparr>]" by (simp add: s_def queue_defs queue_example_simps)
  with recover_fund_queue_spec [OF ok s'] ok s' show ?thesis by auto
qed

end
