(* ===== verification/Oracle.thy ===== *)
theory Oracle
  imports Access
begin

text \<open>
  The oracle registry (src/contracts/invoice_liquidity/src/oracle_registry.rs): registration and
  resolution of oracles, data freshness, health snapshots, the circuit breaker with its half-open
  recovery, and the Identity verification gate with its quorum of feeders. The oracle contracts
  are parameters: \<open>x_payer_data\<close> is \<open>get_payer_data\<close>, \<open>x_oracle_version\<close> is \<open>interface_version\<close>; \<open>None\<close>
  is a call that traps, which \<open>try_invoke_contract\<close> turns into no answer.

  Shown here: what the freshness rule accepts; that the breaker trips only after three stale
  answers of one oracle and that it closes again only by the admin or after three healthy answers
  spanning 120 ledgers; that the gate passes a payer only on enough fresh, verified answers.
\<close>

definition ORACLE_INTERFACE_VERSION :: nat where "ORACLE_INTERFACE_VERSION = 1"
definition MAX_CONSECUTIVE_STALE_QUERIES :: nat where "MAX_CONSECUTIVE_STALE_QUERIES = 3"
definition MAX_CONSECUTIVE_DUPLICATE_UPDATES :: nat where "MAX_CONSECUTIVE_DUPLICATE_UPDATES = 3"
definition CIRCUIT_RECOVERY_HEALTHY_OBSERVATIONS :: nat where "CIRCUIT_RECOVERY_HEALTHY_OBSERVATIONS = 3"
definition CIRCUIT_RECOVERY_MIN_LEDGERS :: nat where "CIRCUIT_RECOVERY_MIN_LEDGERS = 120"
definition DEFAULT_IDENTITY_QUORUM :: nat where "DEFAULT_IDENTITY_QUORUM = 1"

lemmas oracle_consts = ORACLE_INTERFACE_VERSION_def MAX_CONSECUTIVE_STALE_QUERIES_def
  MAX_CONSECUTIVE_DUPLICATE_UPDATES_def CIRCUIT_RECOVERY_HEALTHY_OBSERVATIONS_def
  CIRCUIT_RECOVERY_MIN_LEDGERS_def DEFAULT_IDENTITY_QUORUM_def

section \<open>Registry\<close>

definition put_orcs :: "(oracle_store \<Rightarrow> oracle_store) \<Rightarrow> 'w state \<Rightarrow> 'w state" where
  "put_orcs f s = s\<lparr> orcs := f (orcs s) \<rparr>"

text \<open>The registry's setters check the admin and the cooldown; they do not write the audit log.\<close>

definition registry_gate :: "'w env \<Rightarrow> string \<Rightarrow> 'w state \<Rightarrow> 'w state result" where
  "registry_gate e fn s =
     and_then (require_admin e s) (\<lambda>_. check_rate_limit e fn DEFAULT_RATE_LIMIT_LEDGERS s)"

definition verify_oracle_interface_version :: "'w env \<Rightarrow> address \<Rightarrow> 'w state \<Rightarrow> nat result" where
  "verify_oracle_interface_version e orc s =
     (case x_oracle_version (ext e) (wld s) orc of
        None \<Rightarrow> err IncompatibleInterfaceVersion
      | Some v \<Rightarrow> if v \<noteq> ORACLE_INTERFACE_VERSION then err IncompatibleInterfaceVersion else Inr v)"

definition register_oracle :: "'w env \<Rightarrow> oracle_feed_type \<Rightarrow> address \<Rightarrow> 'w state \<Rightarrow> 'w state result" where
  "register_oracle e f orc s =
     and_then (registry_gate e ''register_oracle'' s) (\<lambda>s1.
     and_then (verify_oracle_interface_version e orc s1) (\<lambda>v.
     Inr (publish (EvOracleRegistered f None orc)
       (put_orcs (\<lambda>os. os\<lparr> oracle_registry := (oracle_registry os)(f \<mapsto> orc),
                           oracle_interface_version := (oracle_interface_version os)(f \<mapsto> v) \<rparr>) s1))))"

definition remove_oracle :: "'w env \<Rightarrow> oracle_feed_type \<Rightarrow> 'w state \<Rightarrow> 'w state result" where
  "remove_oracle e f s =
     and_then (registry_gate e ''remove_oracle'' s) (\<lambda>s1.
     Inr (publish (EvOracleUnregistered f None)
       (put_orcs (\<lambda>os. os\<lparr> oracle_registry := (oracle_registry os)(f := None) \<rparr>) s1)))"

definition register_token_oracle ::
    "'w env \<Rightarrow> oracle_feed_type \<Rightarrow> address \<Rightarrow> address \<Rightarrow> 'w state \<Rightarrow> 'w state result" where
  "register_token_oracle e f t orc s =
     and_then (registry_gate e ''register_token_oracle'' s) (\<lambda>s1.
     and_then (verify_oracle_interface_version e orc s1) (\<lambda>v.
     Inr (publish (EvOracleRegistered f (Some t) orc)
       (put_orcs (\<lambda>os. os\<lparr> token_oracle := (token_oracle os)((f, t) \<mapsto> orc),
                           oracle_interface_version := (oracle_interface_version os)(f \<mapsto> v) \<rparr>) s1))))"

definition remove_token_oracle ::
    "'w env \<Rightarrow> oracle_feed_type \<Rightarrow> address \<Rightarrow> 'w state \<Rightarrow> 'w state result" where
  "remove_token_oracle e f t s =
     and_then (registry_gate e ''remove_token_oracle'' s) (\<lambda>s1.
     Inr (publish (EvOracleUnregistered f (Some t))
       (put_orcs (\<lambda>os. os\<lparr> token_oracle := (token_oracle os)((f, t) := None) \<rparr>) s1)))"

definition legacy_oracle :: "oracle_feed_type \<Rightarrow> 'w state \<Rightarrow> address option" where
  "legacy_oracle f s =
     (if f = Identity then (case get_config s of Some c \<Rightarrow> price_oracle c | None \<Rightarrow> None) else None)"

definition resolve_oracle :: "oracle_feed_type \<Rightarrow> address \<Rightarrow> 'w state \<Rightarrow> address option" where
  "resolve_oracle f t s =
     (case token_oracle (orcs s) (f, t) of
        Some a \<Rightarrow> Some a
      | None \<Rightarrow>
          (case oracle_registry (orcs s) f of
             Some a \<Rightarrow> Some a
           | None \<Rightarrow> legacy_oracle f s))"

section \<open>Freshness and health\<close>

definition is_oracle_data_stale :: "nat \<Rightarrow> nat \<Rightarrow> nat \<Rightarrow> bool" where
  "is_oracle_data_stale current_ledger data_timestamp max_age =
     (if max_age = 0 then False
      else if data_timestamp > current_ledger then True
      else current_ledger - data_timestamp \<ge> max_age)"

definition is_oracle_data_timestamp_regression ::
    "oracle_feed_type \<Rightarrow> address \<Rightarrow> address \<Rightarrow> nat \<Rightarrow> 'w state \<Rightarrow> bool" where
  "is_oracle_data_timestamp_regression f t orc ts s =
     (case oracle_health (orcs s) (f, t) of
        Some prev \<Rightarrow> health_oracle prev = orc \<and> ts < last_data_timestamp prev
      | None \<Rightarrow> False)"

definition is_oracle_data_duplicate_update ::
    "oracle_feed_type \<Rightarrow> address \<Rightarrow> address \<Rightarrow> nat \<Rightarrow> 'w state \<Rightarrow> bool" where
  "is_oracle_data_duplicate_update f t orc ts s =
     (case oracle_health (orcs s) (f, t) of
        Some prev \<Rightarrow> health_oracle prev = orc \<and> ts = last_data_timestamp prev \<and>
          consecutive_duplicate_count prev \<ge> MAX_CONSECUTIVE_DUPLICATE_UPDATES
      | None \<Rightarrow> False)"

definition is_oracle_circuit_tripped :: "oracle_feed_type \<Rightarrow> address \<Rightarrow> 'w state \<Rightarrow> bool" where
  "is_oracle_circuit_tripped f t s = unwrap_or (oracle_circuit_tripped (orcs s) (f, t)) False"

definition next_health ::
    "oracle_health_status option \<Rightarrow> address \<Rightarrow> nat \<Rightarrow> nat \<Rightarrow> nat \<Rightarrow> oracle_health_status" where
  "next_health previous orc current_ledger ts max_age =
     (let stale = is_oracle_data_stale current_ledger ts max_age;
          stale_count =
            (case previous of
               Some prev \<Rightarrow>
                 if health_oracle prev = orc \<and> stale then sat_add_u32 (consecutive_stale_count prev) 1
                 else if stale then 1 else 0
             | None \<Rightarrow> if stale then 1 else 0);
          duplicate_count =
            (case previous of
               Some prev \<Rightarrow>
                 if health_oracle prev = orc \<and> ts = last_data_timestamp prev
                 then sat_add_u32 (consecutive_duplicate_count prev) 1 else 0
             | None \<Rightarrow> 0)
      in \<lparr> health_oracle = orc, last_checked_ledger = current_ledger, last_data_timestamp = ts,
           last_data_age_ledgers = current_ledger - ts, is_stale = stale,
           consecutive_stale_count = stale_count, consecutive_duplicate_count = duplicate_count \<rparr>)"

definition trip_circuit ::
    "oracle_feed_type \<Rightarrow> address \<Rightarrow> address \<Rightarrow> nat \<Rightarrow> 'w state \<Rightarrow> 'w state" where
  "trip_circuit f t orc stale_count s =
     publish (EvOracleCircuitTripped f t stale_count)
       (put_orcs (\<lambda>os. os\<lparr> oracle_circuit_tripped := (oracle_circuit_tripped os)((f, t) \<mapsto> True),
          oracle_circuit_recovery := (oracle_circuit_recovery os)((f, t) \<mapsto>
            \<lparr> tripped_oracle = orc, consecutive_healthy = 0, first_healthy_ledger = 0 \<rparr>) \<rparr>) s)"

definition maybe_recover_oracle_circuit ::
    "oracle_feed_type \<Rightarrow> address \<Rightarrow> address \<Rightarrow> bool \<Rightarrow> nat \<Rightarrow> oracle_health_status option \<Rightarrow> nat \<Rightarrow>
     'w state \<Rightarrow> 'w state" where
  "maybe_recover_oracle_circuit f t orc stale ts previous current_ledger s =
     (if \<not> is_oracle_circuit_tripped f t s then s
      else case oracle_circuit_recovery (orcs s) (f, t) of
        None \<Rightarrow> s
      | Some rs \<Rightarrow>
          let put_rs = (\<lambda>rs. put_orcs (\<lambda>os. os\<lparr> oracle_circuit_recovery := (oracle_circuit_recovery os)((f, t) \<mapsto> rs) \<rparr>)) in
          if tripped_oracle rs \<noteq> orc then s
          else
            let advanced = (case previous of
                              Some prev \<Rightarrow> if health_oracle prev = orc then ts > last_data_timestamp prev else True
                            | None \<Rightarrow> True);
                healthy = (\<not> stale \<and> advanced)
            in if \<not> healthy then
                 (if consecutive_healthy rs \<noteq> 0 \<or> first_healthy_ledger rs \<noteq> 0
                  then put_rs (rs\<lparr> consecutive_healthy := 0, first_healthy_ledger := 0 \<rparr>) s else s)
               else
                 let rs1 = (if consecutive_healthy rs = 0 then rs\<lparr> first_healthy_ledger := current_ledger \<rparr> else rs);
                     rs2 = rs1\<lparr> consecutive_healthy := sat_add_u32 (consecutive_healthy rs1) 1 \<rparr>;
                     elapsed = current_ledger - first_healthy_ledger rs2
                 in if consecutive_healthy rs2 \<ge> CIRCUIT_RECOVERY_HEALTHY_OBSERVATIONS \<and>
                       elapsed \<ge> CIRCUIT_RECOVERY_MIN_LEDGERS
                    then publish (EvOracleCircuitRecovered f t (consecutive_healthy rs2) elapsed)
                      (put_orcs (\<lambda>os. os\<lparr> oracle_circuit_recovery := (oracle_circuit_recovery os)((f, t) := None),
                         oracle_circuit_tripped := (oracle_circuit_tripped os)((f, t) := None) \<rparr>) s)
                    else put_rs rs2 s)"

definition record_oracle_health ::
    "'w env \<Rightarrow> oracle_feed_type \<Rightarrow> address \<Rightarrow> address \<Rightarrow> nat \<Rightarrow> nat \<Rightarrow> 'w state \<Rightarrow> 'w state" where
  "record_oracle_health e f t orc ts max_age s =
     (let previous = oracle_health (orcs s) (f, t);
          h = next_health previous orc (sequence e) ts max_age;
          s1 = put_orcs (\<lambda>os. os\<lparr> oracle_health := (oracle_health os)((f, t) \<mapsto> h) \<rparr>) s;
          s2 = publish (EvOracleHealthRecorded f t (is_stale h) (last_data_age_ledgers h)
                 (consecutive_stale_count h) (consecutive_duplicate_count h)) s1;
          s3 = (if is_stale h \<and> consecutive_stale_count h \<ge> MAX_CONSECUTIVE_STALE_QUERIES \<and>
                   \<not> is_oracle_circuit_tripped f t s2
                then trip_circuit f t orc (consecutive_stale_count h) s2 else s2)
      in maybe_recover_oracle_circuit f t orc (is_stale h) ts previous (sequence e) s3)"

definition reset_oracle_circuit :: "'w env \<Rightarrow> oracle_feed_type \<Rightarrow> address \<Rightarrow> 'w state \<Rightarrow> 'w state result" where
  "reset_oracle_circuit e f t s =
     and_then (registry_gate e ''reset_oracle_circuit'' s) (\<lambda>s1.
     Inr (publish (EvOracleCircuitReset f t)
       (put_orcs (\<lambda>os. os\<lparr> oracle_circuit_tripped := (oracle_circuit_tripped os)((f, t) := None),
                           oracle_circuit_recovery := (oracle_circuit_recovery os)((f, t) := None) \<rparr>) s1)))"

definition get_oracle_health :: "oracle_feed_type \<Rightarrow> address \<Rightarrow> 'w state \<Rightarrow> oracle_health_status option" where
  "get_oracle_health f t s = oracle_health (orcs s) (f, t)"

definition get_circuit_recovery_state ::
    "oracle_feed_type \<Rightarrow> address \<Rightarrow> 'w state \<Rightarrow> circuit_recovery_state option" where
  "get_circuit_recovery_state f t s = oracle_circuit_recovery (orcs s) (f, t)"

definition max_oracle_age :: "'w state \<Rightarrow> nat" where
  "max_oracle_age s =
     (case get_config s of Some c \<Rightarrow> max_oracle_age_ledgers c | None \<Rightarrow> DEFAULT_MAX_ORACLE_AGE_LEDGERS)"

definition check_oracle_health ::
    "'w env \<Rightarrow> oracle_feed_type \<Rightarrow> address \<Rightarrow> address \<Rightarrow> 'w state \<Rightarrow> ('w, oracle_health_status option) outcome" where
  "check_oracle_health e f t p s =
     (case resolve_oracle f t s of
        None \<Rightarrow> Inr (None, s)
      | Some orc \<Rightarrow>
          and_then (expect (x_payer_data (ext e) (wld s) orc p)) (\<lambda>resp.
          let s1 = record_oracle_health e f t orc (resp_timestamp resp) (max_oracle_age s) s
          in Inr (oracle_health (orcs s1) (f, t), s1)))"

section \<open>The Identity verification gate\<close>

datatype oracle_resolution = Unconfigured | Available address | CircuitOpen

fun walk_candidates :: "(address \<Rightarrow> bool) \<Rightarrow> address option list \<Rightarrow> bool \<Rightarrow> oracle_resolution" where
  "walk_candidates is_excluded [] saw_candidate = (if saw_candidate then CircuitOpen else Unconfigured)"
| "walk_candidates is_excluded (None # cs) saw_candidate = walk_candidates is_excluded cs saw_candidate"
| "walk_candidates is_excluded (Some a # cs) saw_candidate =
     (if \<not> is_excluded a then Available a else walk_candidates is_excluded cs True)"

definition resolve_oracle_for_verification ::
    "oracle_feed_type \<Rightarrow> address \<Rightarrow> 'w state \<Rightarrow> oracle_resolution" where
  "resolve_oracle_for_verification f t s =
     (let tripped = is_oracle_circuit_tripped f t s;
          bad = (if tripped then map_option health_oracle (get_oracle_health f t s) else None);
          is_excluded = (\<lambda>a. if \<not> tripped then False else (case bad of Some b \<Rightarrow> a = b | None \<Rightarrow> True))
      in walk_candidates is_excluded
           [token_oracle (orcs s) (f, t), oracle_registry (orcs s) f, legacy_oracle f s] False)"

definition get_identity_oracles :: "oracle_feed_type \<Rightarrow> 'w state \<Rightarrow> address list" where
  "get_identity_oracles f s = unwrap_or (identity_oracles (orcs s) f) []"

definition get_identity_quorum :: "'w state \<Rightarrow> nat" where
  "get_identity_quorum s = unwrap_or (identity_quorum (orcs s)) DEFAULT_IDENTITY_QUORUM"

definition add_identity_oracle :: "'w env \<Rightarrow> oracle_feed_type \<Rightarrow> address \<Rightarrow> 'w state \<Rightarrow> 'w state result" where
  "add_identity_oracle e f orc s =
     and_then (registry_gate e ''add_identity_oracle'' s) (\<lambda>s1.
     let os = get_identity_oracles f s1 in
     if orc \<in> set os then Inr (publish (EvIdentityOracleAdded f orc) s1)
     else if length os \<ge> MAX_IDENTITY_ORACLES_PER_FEED e then err TooManyIdentityOracles
     else Inr (publish (EvIdentityOracleAdded f orc)
            (put_orcs (\<lambda>st. st\<lparr> identity_oracles := (identity_oracles st)(f \<mapsto> os @ [orc]) \<rparr>) s1)))"

definition remove_identity_oracle ::
    "'w env \<Rightarrow> oracle_feed_type \<Rightarrow> address \<Rightarrow> 'w state \<Rightarrow> 'w state result" where
  "remove_identity_oracle e f orc s =
     and_then (registry_gate e ''remove_identity_oracle'' s) (\<lambda>s1.
     let remaining = filter (\<lambda>a. a \<noteq> orc) (get_identity_oracles f s1) in
     Inr (publish (EvIdentityOracleRemoved f orc)
       (put_orcs (\<lambda>st. st\<lparr> identity_oracles := (identity_oracles st)(f \<mapsto> remaining) \<rparr>) s1)))"

definition set_identity_quorum :: "'w env \<Rightarrow> nat \<Rightarrow> 'w state \<Rightarrow> 'w state result" where
  "set_identity_quorum e q s =
     and_then (registry_gate e ''set_identity_quorum'' s) (\<lambda>s1.
     if q = 0 \<or> q > MAX_IDENTITY_ORACLES_PER_FEED e then err InvalidIdentityQuorum
     else Inr (put_orcs (\<lambda>st. st\<lparr> identity_quorum := Some q \<rparr>) s1))"

datatype feeder_health = FeederVerified | FeederUnverified | FeederStale | FeederUnreachable

definition classify_identity_feeder ::
    "'w env \<Rightarrow> address \<Rightarrow> address \<Rightarrow> nat \<Rightarrow> nat \<Rightarrow> 'w state \<Rightarrow> feeder_health" where
  "classify_identity_feeder e orc p current_ledger max_age s =
     (case x_payer_data (ext e) (wld s) orc p of
        Some r \<Rightarrow>
          if is_oracle_data_stale current_ledger (resp_timestamp r) max_age then FeederStale
          else if is_verified r then FeederVerified else FeederUnverified
      | None \<Rightarrow> FeederUnreachable)"

fun count_verified :: "feeder_health list \<Rightarrow> nat" where
  "count_verified [] = 0"
| "count_verified (h # hs) = (if h = FeederVerified then Suc (count_verified hs) else count_verified hs)"

datatype identity_quorum_outcome = QuorumNotConfigured | QuorumVerified | QuorumDisagreed

definition check_identity_quorum ::
    "'w env \<Rightarrow> oracle_feed_type \<Rightarrow> address \<Rightarrow> address \<Rightarrow> nat \<Rightarrow> 'w state \<Rightarrow>
     identity_quorum_outcome \<times> 'w state" where
  "check_identity_quorum e f t p max_age s =
     (let os = get_identity_oracles f s in
      if os = [] then (QuorumNotConfigured, s)
      else
        let required = get_identity_quorum s;
            verified = count_verified (map (\<lambda>o'. classify_identity_feeder e o' p (sequence e) max_age s) os)
        in if verified \<ge> required then (QuorumVerified, s)
           else (QuorumDisagreed,
                 publish (EvOracleFeederDisagreement f t verified required (length os)) s))"

datatype identity_verification_outcome =
    GateVerified | GateStale | GateQuorumDisagreement | GateTimestampRegression
  | GateDuplicateUpdate | GateCircuitOpen | GateUnverified

definition evaluate_single_oracle ::
    "'w env \<Rightarrow> oracle_feed_type \<Rightarrow> address \<Rightarrow> address \<Rightarrow> nat \<Rightarrow> address \<Rightarrow> 'w state \<Rightarrow>
     ('w, identity_verification_outcome) outcome" where
  "evaluate_single_oracle e f t p max_age orc s =
     and_then (expect (x_payer_data (ext e) (wld s) orc p)) (\<lambda>r.
     let ts = resp_timestamp r in
     if is_oracle_data_timestamp_regression f t orc ts s then Inr (GateTimestampRegression, s)
     else if is_oracle_data_duplicate_update f t orc ts s then Inr (GateDuplicateUpdate, s)
     else
       let s1 = record_oracle_health e f t orc ts max_age s in
       if is_oracle_data_stale (sequence e) ts max_age then
         Inr (GateStale, publish (EvOracleDataStaleRejected f t orc ts (sequence e - ts) max_age) s1)
       else if \<not> is_verified r then Inr (GateUnverified, s1)
       else Inr (GateVerified, s1))"

definition evaluate_identity_verification ::
    "'w env \<Rightarrow> oracle_feed_type \<Rightarrow> address \<Rightarrow> address \<Rightarrow> nat \<Rightarrow> 'w state \<Rightarrow>
     ('w, identity_verification_outcome) outcome" where
  "evaluate_identity_verification e f t p max_age s =
     (case check_identity_quorum e f t p max_age s of
        (QuorumDisagreed, s1) \<Rightarrow> Inr (GateQuorumDisagreement, s1)
      | (QuorumVerified, s1) \<Rightarrow> Inr (GateVerified, s1)
      | (QuorumNotConfigured, s1) \<Rightarrow>
          (case resolve_oracle_for_verification f t s1 of
             CircuitOpen \<Rightarrow> Inr (GateCircuitOpen, s1)
           | Unconfigured \<Rightarrow> Inr (GateVerified, s1)
           | Available orc \<Rightarrow> evaluate_single_oracle e f t p max_age orc s1))"

definition check_oracle_verification ::
    "'w env \<Rightarrow> oracle_feed_type \<Rightarrow> address \<Rightarrow> address \<Rightarrow> 'w state \<Rightarrow>
     ('w, identity_verification_outcome) outcome" where
  "check_oracle_verification e f t p s = evaluate_identity_verification e f t p (max_oracle_age s) s"

record identity_quorum_health =
  quorum_feeders :: "address list"
  quorum_observations :: "feeder_health list"
  quorum_verified_count :: nat
  quorum_required :: nat
  quorum_met :: bool

definition check_identity_quorum_health ::
    "'w env \<Rightarrow> oracle_feed_type \<Rightarrow> address \<Rightarrow> address \<Rightarrow> 'w state \<Rightarrow> identity_quorum_health" where
  "check_identity_quorum_health e f t p s =
     (let fs = get_identity_oracles f s;
          required = get_identity_quorum s;
          obs = map (\<lambda>o'. classify_identity_feeder e o' p (sequence e) (max_oracle_age s) s) fs;
          verified = count_verified obs
      in \<lparr> quorum_feeders = fs, quorum_observations = obs, quorum_verified_count = verified,
           quorum_required = required, quorum_met = (fs \<noteq> [] \<and> verified \<ge> required) \<rparr>)"

record oracle_status_view =
  view_resolved_oracle :: "address option"
  view_health :: "oracle_health_status option"
  view_circuit_tripped :: bool
  view_recovery :: "circuit_recovery_state option"
  view_identity_oracles :: "address list"
  view_identity_quorum :: nat
  view_price_sources :: "address list"

definition get_price_sources :: "oracle_feed_type \<Rightarrow> 'w state \<Rightarrow> address list" where
  "get_price_sources f s = unwrap_or (price_sources (orcs s) f) []"

definition get_oracle_status :: "oracle_feed_type \<Rightarrow> address \<Rightarrow> 'w state \<Rightarrow> oracle_status_view" where
  "get_oracle_status f t s =
     \<lparr> view_resolved_oracle = resolve_oracle f t s, view_health = oracle_health (orcs s) (f, t),
       view_circuit_tripped = is_oracle_circuit_tripped f t s,
       view_recovery = oracle_circuit_recovery (orcs s) (f, t),
       view_identity_oracles = get_identity_oracles f s, view_identity_quorum = get_identity_quorum s,
       view_price_sources = get_price_sources f s \<rparr>"

section \<open>Histories of observations\<close>

text \<open>
  The reference for the breaker is the history of recorded observations of one feed and token,
  newest first, from which the two streaks the code keeps as counters are read off directly.
\<close>

record observation =
  obs_oracle :: address
  obs_ledger :: nat
  obs_timestamp :: nat
  obs_stale :: bool

fun stale_run :: "address \<Rightarrow> observation list \<Rightarrow> observation list" where
  "stale_run a [] = []"
| "stale_run a (x # xs) = (if obs_oracle x = a \<and> obs_stale x then x # stale_run a xs else [])"

definition advances :: "observation \<Rightarrow> observation list \<Rightarrow> bool" where
  "advances x xs = (case xs of [] \<Rightarrow> True
     | y # _ \<Rightarrow> obs_oracle y = obs_oracle x \<longrightarrow> obs_timestamp x > obs_timestamp y)"

fun healthy_run :: "address \<Rightarrow> observation list \<Rightarrow> observation list" where
  "healthy_run a [] = []"
| "healthy_run a (x # xs) =
     (if obs_oracle x \<noteq> a then healthy_run a xs
      else if \<not> obs_stale x \<and> advances x xs then x # healthy_run a xs
      else [])"

definition observe_at :: "'w env \<Rightarrow> address \<Rightarrow> nat \<Rightarrow> nat \<Rightarrow> observation" where
  "observe_at e orc ts max_age =
     \<lparr> obs_oracle = orc, obs_ledger = sequence e, obs_timestamp = ts,
       obs_stale = is_oracle_data_stale (sequence e) ts max_age \<rparr>"

text \<open>
  Every step that touches the feed's snapshot, breaker flag or recovery record is an observation
  or the admin's reset; every other step of the contract leaves the three entries alone.
\<close>

inductive oracle_trace :: "oracle_feed_type \<Rightarrow> address \<Rightarrow> observation list \<Rightarrow> 'w state \<Rightarrow> bool"
  for f :: oracle_feed_type and t :: address where
  start: "\<lbrakk> oracle_health (orcs s) (f, t) = None; oracle_circuit_tripped (orcs s) (f, t) = None;
            oracle_circuit_recovery (orcs s) (f, t) = None \<rbrakk> \<Longrightarrow> oracle_trace f t [] s"
| observe: "oracle_trace f t xs s \<Longrightarrow>
    oracle_trace f t (observe_at e orc ts max_age # xs) (record_oracle_health e f t orc ts max_age s)"
| reset: "\<lbrakk> oracle_trace f t xs s; reset_oracle_circuit e f t s = Inr s' \<rbrakk> \<Longrightarrow> oracle_trace f t xs s'"
| other: "\<lbrakk> oracle_trace f t xs s; oracle_health (orcs s') (f, t) = oracle_health (orcs s) (f, t);
            oracle_circuit_tripped (orcs s') (f, t) = oracle_circuit_tripped (orcs s) (f, t);
            oracle_circuit_recovery (orcs s') (f, t) = oracle_circuit_recovery (orcs s) (f, t) \<rbrakk>
    \<Longrightarrow> oracle_trace f t xs s'"

definition health_matches :: "observation list \<Rightarrow> oracle_health_status option \<Rightarrow> bool" where
  "health_matches xs h =
     (case (xs, h) of
        ([], None) \<Rightarrow> True
      | (x # _, Some h) \<Rightarrow>
          health_oracle h = obs_oracle x \<and> last_data_timestamp h = obs_timestamp x \<and>
          is_stale h = obs_stale x \<and>
          consecutive_stale_count h = min (length (stale_run (obs_oracle x) xs)) u32_max
      | _ \<Rightarrow> False)"

definition recovery_matches :: "observation list \<Rightarrow> circuit_recovery_state \<Rightarrow> bool" where
  "recovery_matches xs rs =
     (let run = healthy_run (tripped_oracle rs) xs in
      consecutive_healthy rs = min (length run) u32_max \<and>
      (run \<noteq> [] \<longrightarrow> first_healthy_ledger rs = obs_ledger (last run)))"

definition breaker_matches :: "oracle_feed_type \<Rightarrow> address \<Rightarrow> observation list \<Rightarrow> 'w state \<Rightarrow> bool" where
  "breaker_matches f t xs s =
     (health_matches xs (oracle_health (orcs s) (f, t)) \<and>
      (is_oracle_circuit_tripped f t s \<longrightarrow>
        (case oracle_circuit_recovery (orcs s) (f, t) of
           None \<Rightarrow> False | Some rs \<Rightarrow> recovery_matches xs rs)))"

text \<open>A monitor's query at ledger \<open>q\<close>, answered with data of ledger 0, for the examples.\<close>

definition poll :: "nat \<Rightarrow> unit state \<Rightarrow> unit state" where
  "poll q = record_oracle_health (call_env no_contracts 0 q {}) Identity (Address 5) (Address 7) 0 100"

definition fresh_ext :: "unit ext" where
  "fresh_ext = no_contracts\<lparr> x_payer_data := (\<lambda>_ _ _. Some \<lparr> is_verified = True, resp_timestamp = 400 \<rparr>) \<rparr>"

definition tripped_example :: "unit state" where
  "tripped_example = put_orcs (\<lambda>os. os\<lparr> token_oracle := [(Identity, Address 5) \<mapsto> Address 7],
     oracle_registry := [Identity \<mapsto> Address 8] \<rparr>) (poll 300 (poll 200 (poll 100 (fresh_state ()))))"

section \<open>Library lemmas\<close>

lemma orcs_publish [simp]: "orcs (publish ev s) = orcs s"
  by (simp add: publish_def)

lemma orcs_put_orcs [simp]: "orcs (put_orcs g s) = g (orcs s)"
  by (simp add: put_orcs_def)

lemma maybe_recover_health [simp]:
  "oracle_health (orcs (maybe_recover_oracle_circuit f t orc stale ts prev now s)) =
   oracle_health (orcs s)"
  by (simp add: maybe_recover_oracle_circuit_def Let_def split: option.split)

lemma trip_circuit_health [simp]: "oracle_health (orcs (trip_circuit f t orc n s)) = oracle_health (orcs s)"
  by (simp add: trip_circuit_def)

lemma record_health_snapshot:
  "oracle_health (orcs (record_oracle_health e f t orc ts m s)) (f, t) =
   Some (next_health (oracle_health (orcs s) (f, t)) orc (sequence e) ts m)"
  by (simp add: record_oracle_health_def Let_def)

lemma health_matches_next:
  assumes "health_matches xs h"
  shows "health_matches (observe_at e orc ts m # xs) (Some (next_health h orc (sequence e) ts m))"
  using assms
  by (cases xs; cases h)
    (auto simp: health_matches_def next_health_def observe_at_def Let_def sat_add_u32_def u32_max_def)

lemma next_health_stale_count:
  assumes "health_matches xs h"
  shows "consecutive_stale_count (next_health h orc (sequence e) ts m) =
         min (length (stale_run orc (observe_at e orc ts m # xs))) u32_max"
  using health_matches_next [OF assms, of e orc ts m]
  by (simp add: health_matches_def observe_at_def next_health_def Let_def)

lemma record_closed:
  fixes e :: "'w env" and s :: "'w state" and orc :: address and ts m :: nat
  assumes "\<not> is_oracle_circuit_tripped f t s"
  defines "h \<equiv> next_health (oracle_health (orcs s) (f, t)) orc (sequence e) ts m"
  defines "s' \<equiv> record_oracle_health e f t orc ts m s"
  shows "is_oracle_circuit_tripped f t s' \<longleftrightarrow> is_stale h \<and> 3 \<le> consecutive_stale_count h"
    and "is_oracle_circuit_tripped f t s' \<Longrightarrow> oracle_circuit_recovery (orcs s') (f, t) =
           Some \<lparr> tripped_oracle = orc, consecutive_healthy = 0, first_healthy_ledger = 0 \<rparr>"
  using assms
  by (auto simp: record_oracle_health_def Let_def maybe_recover_oracle_circuit_def
      is_oracle_circuit_tripped_def trip_circuit_def MAX_CONSECUTIVE_STALE_QUERIES_def)

lemma stale_run_ge_stale:
  "0 < length (stale_run orc (x # xs)) \<Longrightarrow> obs_stale x"
  by (auto split: if_splits)

lemma next_health_is_stale:
  "is_stale (next_health h orc (sequence e) ts m) = obs_stale (observe_at e orc ts m)"
  by (simp add: next_health_def observe_at_def Let_def)

lemma advances_matches:
  assumes "health_matches xs h"
  shows "(case h of Some prev \<Rightarrow> if health_oracle prev = orc then ts > last_data_timestamp prev else True
          | None \<Rightarrow> True) = advances (observe_at e orc ts m) xs"
  using assms by (cases xs; cases h) (auto simp: health_matches_def advances_def observe_at_def)

text \<open>One observation of the oracle that tripped an open breaker.\<close>

lemma recovery_step:
  assumes "recovery_matches xs rs" "tripped_oracle rs = obs_oracle x"
  defines "rs1 \<equiv> (if consecutive_healthy rs = 0 then rs\<lparr> first_healthy_ledger := obs_ledger x \<rparr> else rs)"
  defines "rs2 \<equiv> rs1\<lparr> consecutive_healthy := sat_add_u32 (consecutive_healthy rs1) 1 \<rparr>"
  assumes "\<not> obs_stale x" "advances x xs"
  shows "recovery_matches (x # xs) rs2"
    and "consecutive_healthy rs2 \<ge> 3 \<longleftrightarrow> length (healthy_run (obs_oracle x) (x # xs)) \<ge> 3"
    and "first_healthy_ledger rs2 = obs_ledger (last (healthy_run (obs_oracle x) (x # xs)))"
  using assms
  by (cases "healthy_run (obs_oracle x) xs";
      auto simp: recovery_matches_def Let_def sat_add_u32_def u32_max_def)+

lemma record_open:
  fixes e :: "'w env" and s :: "'w state" and orc :: address and ts m :: nat and xs :: "observation list"
  assumes "is_oracle_circuit_tripped f t s" "oracle_circuit_recovery (orcs s) (f, t) = Some rs"
    "recovery_matches xs rs" "health_matches xs (oracle_health (orcs s) (f, t))"
  defines "x \<equiv> observe_at e orc ts m"
  defines "s' \<equiv> record_oracle_health e f t orc ts m s"
  defines "run \<equiv> healthy_run orc (x # xs)"
  shows "\<not> is_oracle_circuit_tripped f t s' \<longleftrightarrow>
           tripped_oracle rs = orc \<and> 3 \<le> length run \<and> 120 \<le> sequence e - obs_ledger (last run)"
    and "is_oracle_circuit_tripped f t s' \<Longrightarrow>
           \<exists>rs'. oracle_circuit_recovery (orcs s') (f, t) = Some rs' \<and>
             tripped_oracle rs' = tripped_oracle rs \<and> recovery_matches (x # xs) rs'"
proof -
  let ?h = "oracle_health (orcs s) (f, t)"
  have adv: "(case ?h of Some prev \<Rightarrow> if health_oracle prev = orc then ts > last_data_timestamp prev else True
          | None \<Rightarrow> True) = advances x xs"
    unfolding x_def by (rule advances_matches [OF assms(4)])
  have stale: "is_stale (next_health ?h orc (sequence e) ts m) = obs_stale x"
    by (simp add: x_def next_health_is_stale)
  have x [simp]: "obs_oracle x = orc" "obs_ledger x = sequence e" by (simp_all add: x_def observe_at_def)
  have run_eq: "run = (if \<not> obs_stale x \<and> advances x xs then x # healthy_run orc xs else [])"
    by (simp add: run_def)
  have "(\<not> is_oracle_circuit_tripped f t s' \<longleftrightarrow>
           tripped_oracle rs = orc \<and> 3 \<le> length run \<and> 120 \<le> sequence e - obs_ledger (last run)) \<and>
        (is_oracle_circuit_tripped f t s' \<longrightarrow>
           (\<exists>rs'. oracle_circuit_recovery (orcs s') (f, t) = Some rs' \<and>
             tripped_oracle rs' = tripped_oracle rs \<and> recovery_matches (x # xs) rs'))"
  proof (cases "tripped_oracle rs = orc \<and> \<not> obs_stale x \<and> advances x xs")
    case True
    then show ?thesis
      using assms(1,2) recovery_step [OF assms(3), of x] run_def
      by (auto simp: s'_def record_oracle_health_def maybe_recover_oracle_circuit_def Let_def adv stale
          is_oracle_circuit_tripped_def CIRCUIT_RECOVERY_HEALTHY_OBSERVATIONS_def
          CIRCUIT_RECOVERY_MIN_LEDGERS_def)
  next
    case False
    then show ?thesis
      using assms(1-3)
      by (auto simp: s'_def record_oracle_health_def maybe_recover_oracle_circuit_def Let_def adv stale
          is_oracle_circuit_tripped_def recovery_matches_def run_eq)
  qed
  then show "\<not> is_oracle_circuit_tripped f t s' \<longleftrightarrow>
           tripped_oracle rs = orc \<and> 3 \<le> length run \<and> 120 \<le> sequence e - obs_ledger (last run)"
    and "is_oracle_circuit_tripped f t s' \<Longrightarrow>
           \<exists>rs'. oracle_circuit_recovery (orcs s') (f, t) = Some rs' \<and>
             tripped_oracle rs' = tripped_oracle rs \<and> recovery_matches (x # xs) rs'"
    by blast+
qed

lemma breaker_matches_record:
  assumes "breaker_matches f t xs s"
  shows "breaker_matches f t (observe_at e orc ts m # xs) (record_oracle_health e f t orc ts m s)"
proof -
  let ?x = "observe_at e orc ts m" and ?s' = "record_oracle_health e f t orc ts m s"
  have hm: "health_matches xs (oracle_health (orcs s) (f, t))"
    using assms by (simp add: breaker_matches_def)
  have "health_matches (?x # xs) (oracle_health (orcs ?s') (f, t))"
    by (simp add: record_health_snapshot health_matches_next [OF hm])
  moreover have "is_oracle_circuit_tripped f t ?s' \<Longrightarrow>
      \<exists>rs. oracle_circuit_recovery (orcs ?s') (f, t) = Some rs \<and> recovery_matches (?x # xs) rs"
  proof (cases "is_oracle_circuit_tripped f t s")
    case True
    then show "is_oracle_circuit_tripped f t ?s' \<Longrightarrow> ?thesis"
      using assms hm record_open(2) by (fastforce simp: breaker_matches_def split: option.splits)
  next
    case False
    assume tripped: "is_oracle_circuit_tripped f t ?s'"
    then have "obs_stale ?x" using record_closed(1) [OF False] next_health_is_stale by blast
    then show ?thesis
      using record_closed(2) [OF False tripped] by (simp add: recovery_matches_def observe_at_def)
  qed
  ultimately show ?thesis by (auto simp: breaker_matches_def split: option.split)
qed

lemma reset_oracle_circuit_eq_Inr:
  assumes "reset_oracle_circuit e f t s = Inr s'"
  shows "oracle_health (orcs s') = oracle_health (orcs s)" "\<not> is_oracle_circuit_tripped f t s'"
  using assms
  by (auto simp: reset_oracle_circuit_def registry_gate_def res_simps is_oracle_circuit_tripped_def)

lemma oracle_trace_matches: "oracle_trace f t xs s \<Longrightarrow> breaker_matches f t xs s"
proof (induction rule: oracle_trace.induct)
  case (start s)
  then show ?case by (simp add: breaker_matches_def health_matches_def is_oracle_circuit_tripped_def)
next
  case (reset xs s e s')
  then show ?case using reset_oracle_circuit_eq_Inr [OF reset.hyps(2)]
    by (simp add: breaker_matches_def)
next
  case (other xs s s')
  then show ?case by (simp add: breaker_matches_def is_oracle_circuit_tripped_def)
qed (rule breaker_matches_record)

lemma count_verified_eq: "count_verified hs = length (filter (\<lambda>h. h = FeederVerified) hs)"
  by (induction hs) auto

lemma classify_verified_iff:
  "classify_identity_feeder e orc p now m s = FeederVerified \<longleftrightarrow>
   (\<exists>r. x_payer_data (ext e) (wld s) orc p = Some r \<and> is_verified r \<and>
        \<not> is_oracle_data_stale now (resp_timestamp r) m)"
  by (auto simp: classify_identity_feeder_def split: option.split)

lemma fresh_iff:
  "\<not> is_oracle_data_stale now ts m \<longleftrightarrow> m = 0 \<or> ts \<le> now \<and> now < ts + m"
  by (auto simp: is_oracle_data_stale_def)

lemma timestamp_gates_iff:
  "\<not> is_oracle_data_timestamp_regression f t a ts s \<and> \<not> is_oracle_data_duplicate_update f t a ts s \<longleftrightarrow>
   (case oracle_health (orcs s) (f, t) of
      None \<Rightarrow> True
    | Some h \<Rightarrow> if health_oracle h = a
        then last_data_timestamp h < ts \<or> last_data_timestamp h = ts \<and> consecutive_duplicate_count h < 3
        else True)"
  by (auto simp: is_oracle_data_timestamp_regression_def is_oracle_data_duplicate_update_def
      MAX_CONSECUTIVE_DUPLICATE_UPDATES_def split: option.split)

lemma evaluate_single_verified_iff:
  "evaluate_single_oracle e f t p m a s = Inr (GateVerified, s') \<longleftrightarrow>
   (\<exists>r. x_payer_data (ext e) (wld s) a p = Some r \<and> is_verified r \<and>
      \<not> is_oracle_data_stale (sequence e) (resp_timestamp r) m \<and>
      (\<not> is_oracle_data_timestamp_regression f t a (resp_timestamp r) s \<and>
       \<not> is_oracle_data_duplicate_update f t a (resp_timestamp r) s) \<and>
      s' = record_oracle_health e f t a (resp_timestamp r) m s)"
  by (cases "x_payer_data (ext e) (wld s) a p") (auto simp: evaluate_single_oracle_def Let_def)

lemma check_identity_quorum_eq:
  "check_identity_quorum e f t p m s =
   (let os = get_identity_oracles f s;
        n = length (filter (\<lambda>a. \<exists>r. x_payer_data (ext e) (wld s) a p = Some r \<and> is_verified r \<and>
              \<not> is_oracle_data_stale (sequence e) (resp_timestamp r) m) os)
    in if os = [] then (QuorumNotConfigured, s)
       else if get_identity_quorum s \<le> n then (QuorumVerified, s)
       else (QuorumDisagreed, publish (EvOracleFeederDisagreement f t n (get_identity_quorum s) (length os)) s))"
  by (simp add: check_identity_quorum_def Let_def count_verified_eq filter_map o_def classify_verified_iff)

lemma evaluate_verified_iff:
  "evaluate_identity_verification e f t p m s = Inr (GateVerified, s') \<longleftrightarrow>
   (if get_identity_oracles f s \<noteq> []
    then s' = s \<and> get_identity_quorum s \<le>
      length (filter (\<lambda>a. \<exists>r. x_payer_data (ext e) (wld s) a p = Some r \<and> is_verified r \<and>
        \<not> is_oracle_data_stale (sequence e) (resp_timestamp r) m) (get_identity_oracles f s))
    else case resolve_oracle_for_verification f t s of
      CircuitOpen \<Rightarrow> False
    | Unconfigured \<Rightarrow> s' = s
    | Available a \<Rightarrow>
        (\<exists>r. x_payer_data (ext e) (wld s) a p = Some r \<and> is_verified r \<and>
           \<not> is_oracle_data_stale (sequence e) (resp_timestamp r) m \<and>
           (\<not> is_oracle_data_timestamp_regression f t a (resp_timestamp r) s \<and>
            \<not> is_oracle_data_duplicate_update f t a (resp_timestamp r) s) \<and>
           s' = record_oracle_health e f t a (resp_timestamp r) m s))"
proof (cases "get_identity_oracles f s = []")
  case True
  then show ?thesis
    by (auto simp: evaluate_identity_verification_def check_identity_quorum_def
        evaluate_single_verified_iff split: oracle_resolution.split)
qed (auto simp: evaluate_identity_verification_def check_identity_quorum_eq Let_def)

section \<open>Properties\<close>

text \<open>
  C20. The breaker's counters are exact. On every history of observations and resets of a feed and
  token, an observation opens a closed breaker exactly when it ends a run of at least three
  consecutive stale answers of one oracle, and closes an open one exactly when it comes from the
  oracle that tripped it and ends a run of at least three healthy answers of that oracle whose first
  lies 120 or more ledgers back. Answers of another oracle neither extend nor break that run. An
  answer is healthy when it is fresh and its timestamp lies after that of the observation just
  before it, if that one came from the same oracle: a timestamp served again counts as healthy when
  another oracle was observed in between.
\<close>

theorem oracle_breaker_exact:
  assumes "oracle_trace f t xs s"
  shows "if is_oracle_circuit_tripped f t s
         then (\<exists>rs. oracle_circuit_recovery (orcs s) (f, t) = Some rs \<and>
           (\<not> is_oracle_circuit_tripped f t (record_oracle_health e f t orc ts m s)) =
           (tripped_oracle rs = orc \<and> 3 \<le> length (healthy_run orc (observe_at e orc ts m # xs)) \<and>
            120 \<le> sequence e - obs_ledger (last (healthy_run orc (observe_at e orc ts m # xs)))))
         else is_oracle_circuit_tripped f t (record_oracle_health e f t orc ts m s) =
              (3 \<le> length (stale_run orc (observe_at e orc ts m # xs)))"
proof (cases "is_oracle_circuit_tripped f t s")
  case True
  obtain rs where rs: "oracle_circuit_recovery (orcs s) (f, t) = Some rs" "recovery_matches xs rs"
    using oracle_trace_matches [OF assms] True by (auto simp: breaker_matches_def split: option.splits)
  have "health_matches xs (oracle_health (orcs s) (f, t))"
    using oracle_trace_matches [OF assms] by (simp add: breaker_matches_def)
  from record_open(1) [OF True rs this] show ?thesis
    unfolding if_P [OF True] by (intro exI [of _ rs] conjI rs(1))
next
  case False
  have hm: "health_matches xs (oracle_health (orcs s) (f, t))"
    using oracle_trace_matches [OF assms] by (simp add: breaker_matches_def)
  have "is_oracle_circuit_tripped f t (record_oracle_health e f t orc ts m s) \<longleftrightarrow>
    obs_stale (observe_at e orc ts m) \<and> 3 \<le> length (stale_run orc (observe_at e orc ts m # xs))"
    by (simp only: record_closed(1) [OF False] next_health_is_stale next_health_stale_count [OF hm])
      (simp add: u32_max_def)
  moreover have "3 \<le> length (stale_run orc (observe_at e orc ts m # xs)) \<Longrightarrow> obs_stale (observe_at e orc ts m)"
    by (rule stale_run_ge_stale [of orc _ xs]) linarith
  ultimately show ?thesis unfolding if_not_P [OF False] by blast
qed

theorem oracle_breaker_exact_witness:
  "is_oracle_circuit_tripped Identity (Address 5) (poll 300 (poll 200 (poll 100 (fresh_state ()))))"
proof -
  let ?e = "\<lambda>q. call_env no_contracts 0 q {} :: unit env"
  let ?x = "\<lambda>q. observe_at (?e q) (Address 7) 0 100"
  have "oracle_trace Identity (Address 5) [] (fresh_state ())"
    by (rule oracle_trace.start) (simp_all add: fresh_state_def)
  then have "oracle_trace Identity (Address 5) [?x 200, ?x 100] (poll 200 (poll 100 (fresh_state ())))"
    unfolding poll_def by (intro oracle_trace.observe)
  note oracle_breaker_exact [OF this, of "?e 300" "Address 7" 0 100, folded poll_def]
  moreover have "\<not> is_oracle_circuit_tripped Identity (Address 5) (poll 200 (poll 100 (fresh_state ())))"
    by (simp add: poll_def record_oracle_health_def next_health_def is_oracle_circuit_tripped_def
        is_oracle_data_stale_def maybe_recover_oracle_circuit_def fresh_state_def call_env_def
        MAX_CONSECUTIVE_STALE_QUERIES_def sat_add_u32_def u32_max_def)
  ultimately show ?thesis by (simp add: observe_at_def is_oracle_data_stale_def call_env_def)
qed

text \<open>
  C21. What the Identity gate accepts, and with which effect. With feeders registered it passes
  a payer exactly when at least the quorum of them answer, verify the payer and are fresh, and it
  writes nothing. Without feeders it asks the resolved oracle: the answer must verify the payer, be
  younger than the maximum age (any age if that is zero) and, if the recorded snapshot is of the same
  oracle, not lie before its timestamp and repeat it only while the snapshot counts fewer than three
  repetitions; the observation is recorded. An open circuit without fallback never passes; a feed
  with no oracle at all passes every payer.
\<close>

theorem identity_gate_accepts:
  "evaluate_identity_verification e f t p m s = Inr (GateVerified, s') \<longleftrightarrow>
   (if get_identity_oracles f s \<noteq> []
    then s' = s \<and> get_identity_quorum s \<le>
      length (filter (\<lambda>a. \<exists>r. x_payer_data (ext e) (wld s) a p = Some r \<and> is_verified r \<and>
        (m = 0 \<or> resp_timestamp r \<le> sequence e \<and> sequence e < resp_timestamp r + m))
        (get_identity_oracles f s))
    else case resolve_oracle_for_verification f t s of
      CircuitOpen \<Rightarrow> False
    | Unconfigured \<Rightarrow> s' = s
    | Available a \<Rightarrow>
        (\<exists>r. x_payer_data (ext e) (wld s) a p = Some r \<and> is_verified r \<and>
           (m = 0 \<or> resp_timestamp r \<le> sequence e \<and> sequence e < resp_timestamp r + m) \<and>
           (case oracle_health (orcs s) (f, t) of
              None \<Rightarrow> True
            | Some h \<Rightarrow> if health_oracle h = a
                then last_data_timestamp h < resp_timestamp r \<or>
                     last_data_timestamp h = resp_timestamp r \<and> consecutive_duplicate_count h < 3
                else True) \<and>
           s' = record_oracle_health e f t a (resp_timestamp r) m s))"
  unfolding evaluate_verified_iff fresh_iff timestamp_gates_iff by (rule refl)

text \<open>
  C22. The breaker does not keep the oracle that tripped it out of the gate, although the recovery
  record names it. While the breaker is
  open the resolution skips the oracle of the latest snapshot; once a payer has been verified by the
  fallback, that snapshot names the fallback, so the next verification is again answered by the
  oracle that tripped the breaker, which is still open and without any recovery having happened.
\<close>

theorem fallback_retrusts_tripped_oracle:
  assumes "is_oracle_circuit_tripped f t s" "oracle_circuit_recovery (orcs s) (f, t) = Some rs"
    "tripped_oracle rs = bad" "oracle_health (orcs s) (f, t) = Some h" "health_oracle h = bad"
    "token_oracle (orcs s) (f, t) = Some bad" "oracle_registry (orcs s) f = Some good" "bad \<noteq> good"
    "get_identity_oracles f s = []" "evaluate_identity_verification e f t p m s = Inr (GateVerified, s')"
  shows "resolve_oracle_for_verification f t s = Available good \<and>
         is_oracle_circuit_tripped f t s' \<and> oracle_circuit_recovery (orcs s') (f, t) = Some rs \<and>
         resolve_oracle_for_verification f t s' = Available bad"
proof -
  have res: "resolve_oracle_for_verification f t s = Available good"
    using assms by (simp add: resolve_oracle_for_verification_def get_oracle_health_def)
  then obtain r :: oracle_response where s': "s' = record_oracle_health e f t good (resp_timestamp r) m s"
    using assms(9,10) by (auto simp: evaluate_verified_iff)
  have kept: "orcs s' = (orcs s)\<lparr> oracle_health := (oracle_health (orcs s))((f, t) \<mapsto>
      next_health (Some h) good (sequence e) (resp_timestamp r) m) \<rparr>"
    using assms(1-8) by (simp add: s' record_oracle_health_def Let_def maybe_recover_oracle_circuit_def
        is_oracle_circuit_tripped_def)
  then have "is_oracle_circuit_tripped f t s'" using assms(1) by (simp add: is_oracle_circuit_tripped_def)
  with kept res assms(2,6,8) show ?thesis
    by (simp add: resolve_oracle_for_verification_def get_oracle_health_def next_health_def Let_def)
qed

theorem fallback_retrusts_tripped_oracle_witness:
  "\<exists>s'. evaluate_identity_verification (call_env fresh_ext 0 400 {}) Identity (Address 5) (Address 2) 100
          tripped_example = Inr (GateVerified, s') \<and>
        resolve_oracle_for_verification Identity (Address 5) tripped_example = Available (Address 8) \<and>
        resolve_oracle_for_verification Identity (Address 5) s' = Available (Address 7)"
proof -
  let ?e = "call_env fresh_ext 0 400 {} :: unit env"
  let ?s = "record_oracle_health ?e Identity (Address 5) (Address 8) 400 100 tripped_example"
  have o: "orcs tripped_example = (orcs (fresh_state ()))\<lparr> token_oracle := [(Identity, Address 5) \<mapsto> Address 7],
      oracle_registry := [Identity \<mapsto> Address 8],
      oracle_health := [(Identity, Address 5) \<mapsto>
        \<lparr> health_oracle = Address 7, last_checked_ledger = 300, last_data_timestamp = 0,
          last_data_age_ledgers = 300, is_stale = True, consecutive_stale_count = 3,
          consecutive_duplicate_count = 2 \<rparr>],
      oracle_circuit_tripped := [(Identity, Address 5) \<mapsto> True],
      oracle_circuit_recovery := [(Identity, Address 5) \<mapsto>
        \<lparr> tripped_oracle = Address 7, consecutive_healthy = 0, first_healthy_ledger = 0 \<rparr>] \<rparr>"
    by (simp add: tripped_example_def poll_def record_oracle_health_def next_health_def
        is_oracle_circuit_tripped_def is_oracle_data_stale_def maybe_recover_oracle_circuit_def
        trip_circuit_def fresh_state_def call_env_def MAX_CONSECUTIVE_STALE_QUERIES_def
        sat_add_u32_def u32_max_def Let_def numeral_2_eq_2 numeral_3_eq_3)
  have "evaluate_identity_verification ?e Identity (Address 5) (Address 2) 100 tripped_example = Inr (GateVerified, ?s)"
    by (simp add: evaluate_verified_iff timestamp_gates_iff fresh_iff o fresh_state_def get_identity_oracles_def
        resolve_oracle_for_verification_def is_oracle_circuit_tripped_def get_oracle_health_def
        call_env_def fresh_ext_def)
  from fallback_retrusts_tripped_oracle [OF _ _ _ _ _ _ _ _ _ this, of _ "Address 7" _ "Address 8"] this
  show ?thesis by (simp add: o is_oracle_circuit_tripped_def get_identity_oracles_def fresh_state_def)
qed

end
