(* ===== verification/Funding.thy ===== *)
theory Funding
  imports Invoices FundQueue Oracle
begin

text \<open>
  \<open>fund_invoice\<close> of src/contracts/invoice_liquidity/src/lib.rs, split into the parts its body is
  made of: the checks, the token movement, the funder list, the completion of the funding and the
  bookkeeping.

  Shown here: the exact effect of a funding call on the invoice and its funders, that the costs the
  liquidity providers pay always cover the freelancer's payout, and that completing the funding
  pays it out.
\<close>

section \<open>Checks\<close>

definition gate_error :: "identity_verification_outcome \<Rightarrow> unit result" where
  "gate_error v =
     (case v of
        GateVerified \<Rightarrow> Inr ()
      | GateQuorumDisagreement \<Rightarrow> err PayerUnverified
      | GateCircuitOpen \<Rightarrow> err OracleCircuitOpen
      | GateTimestampRegression \<Rightarrow> err OracleTimestampRegression
      | GateDuplicateUpdate \<Rightarrow> err OracleDuplicateUpdate
      | GateStale \<Rightarrow> err OracleDataStale
      | GateUnverified \<Rightarrow> err PayerUnverified)"

definition oracle_gate :: "'w env \<Rightarrow> bool \<Rightarrow> invoice \<Rightarrow> 'w state \<Rightarrow> 'w state result" where
  "oracle_gate e required i s =
     (if required then
        and_then (evaluate_identity_verification e Identity (token i) (payer i) (max_oracle_age s) s) (\<lambda>(v, s1).
        and_then (gate_error v) (\<lambda>_. Inr s1))
      else Inr s)"

definition reputation_gate :: "'w env \<Rightarrow> invoice \<Rightarrow> 'w state \<Rightarrow> 'w state result" where
  "reputation_gate e i s =
     (if get_min_payer_reputation s > 0 then
        let (score, s1) = get_payer_score e (payer i) s in
        if score < get_min_payer_reputation s then err PayerReputationTooLow else Inr s1
      else Inr s)"

definition require_fundable :: "'w env \<Rightarrow> invoice \<Rightarrow> unit result" where
  "require_fundable e i =
     (if status i = Pending \<and> timestamp e > due_date i then err InvoiceExpired
      else case status i of
        Paid \<Rightarrow> err AlreadyPaid
      | Defaulted \<Rightarrow> err InvoiceDefaulted
      | Appealed \<Rightarrow> err InvoiceAppealed
      | Disputed \<Rightarrow> err InvoiceDisputed
      | Expired \<Rightarrow> err InvoiceExpired
      | Funded \<Rightarrow> err AlreadyFunded
      | Pending \<Rightarrow> Inr ()
      | PartiallyFunded \<Rightarrow> Inr ()
      | Cancelled \<Rightarrow> err AlreadyCancelled)"

definition volume_gate :: "address \<Rightarrow> int \<Rightarrow> 'w state \<Rightarrow> unit result" where
  "volume_gate t fund_amount s =
     (if get_token_volume_cap t s > 0 then
        and_then (ok_or_err (checked_add (get_token_volume t s) fund_amount) ArithmeticOverflow) (\<lambda>v.
        if v > get_token_volume_cap t s then err GlobalVolumeCapExceeded else Inr ())
      else Inr ())"

text \<open>The checks up to the status, with the invoice they load.\<close>

definition fund_checks :: "'w env \<Rightarrow> address \<Rightarrow> nat \<Rightarrow> bool \<Rightarrow> 'w state \<Rightarrow> ('w, invoice) outcome" where
  "fund_checks e fdr n required s =
     (if is_paused s then err ContractPaused
      else
        and_then (require_auth e fdr) (\<lambda>_.
        and_then (ok_or_err (try_load_invoice n s) InvoiceNotFound) (\<lambda>i.
        if (case get_queue_resolution n s of Some approved \<Rightarrow> approved \<noteq> fdr | None \<Rightarrow> False)
        then err NotApprovedFunder
        else if \<not> is_approved_token (token i) s then err Unauthorized
        else
          and_then (reputation_gate e i s) (\<lambda>s1.
          and_then (oracle_gate e required i s1) (\<lambda>s2.
          and_then (require_fundable e i) (\<lambda>_. Inr (i, s2)))))))"

section \<open>Token movement and bookkeeping\<close>

definition normalize_xlm_amount :: "int \<Rightarrow> int" where "normalize_xlm_amount a = a"
definition normalize_usdc_amount :: "int \<Rightarrow> int" where "normalize_usdc_amount a = a"
definition normalize_eurc_amount :: "int \<Rightarrow> int" where "normalize_eurc_amount a = a"

definition normalize_amount :: "address \<Rightarrow> int \<Rightarrow> 'w state \<Rightarrow> int" where
  "normalize_amount t a s =
     (if is_xlm_token t s then normalize_xlm_amount a
      else if is_eurc_token t s then normalize_eurc_amount a
      else normalize_usdc_amount a)"

definition funding_cost :: "invoice \<Rightarrow> int \<Rightarrow> int" where
  "funding_cost i a = saturating_sub a (discount_on a (discount_rate i))"

fun credit_funder :: "address \<Rightarrow> int \<Rightarrow> funders \<Rightarrow> funders" where
  "credit_funder a x [] = [(a, x)]"
| "credit_funder a x ((b, y) # fs) =
     (if b = a then (b, saturating_add y x) # fs else (b, y) # credit_funder a x fs)"

definition collect_cost :: "'w env \<Rightarrow> address \<Rightarrow> invoice \<Rightarrow> int \<Rightarrow> int \<Rightarrow> 'w state \<Rightarrow> 'w state result" where
  "collect_cost e fdr i fund_amount prospective s =
     and_then (require_authorized e (token i) fdr s) (\<lambda>_.
     and_then (if prospective = amount i then require_authorized e (token i) (freelancer i) s else Inr ()) (\<lambda>_.
     token_transfer e (token i) fdr (self e) (funding_cost i (normalize_amount (token i) fund_amount s)) s))"

definition complete_funding :: "'w env \<Rightarrow> address \<Rightarrow> invoice \<Rightarrow> 'w state \<Rightarrow> ('w, invoice) outcome" where
  "complete_funding e fdr i s =
     (if amount_funded i = amount i then
        and_then (transfer_out_strict e (token i) (freelancer i) (funding_cost i (amount i)) s) (\<lambda>s1.
        and_then (to_u32 (timestamp e)) (\<lambda>now.
        Inr (i\<lparr> status := Funded, funded_at := Some now, funder := Some fdr \<rparr>,
             set_lp_score fdr (sat_add_u32 (get_lp_score fdr s1) 1) s1)))
      else Inr (i\<lparr> status := PartiallyFunded \<rparr>, s))"

definition effective_yield_bps :: "'w env \<Rightarrow> invoice \<Rightarrow> nat" where
  "effective_yield_bps e i =
     (let days_to_due = (due_date i - timestamp e) div (24 * 60 * 60)
      in as_u32 ((discount_rate i * days_to_due) div 365))"

definition funded_event :: "'w env \<Rightarrow> address \<Rightarrow> int \<Rightarrow> invoice \<Rightarrow> event" where
  "funded_event e fdr fund_amount i =
     EvInvoiceFunded (inv_id i) fdr (freelancer i) (payer i) (token i) fund_amount (amount_funded i)
       (amount i) (due_date i) (discount_rate i) (funded_at i) (status i) fdr
       (effective_yield_bps e i) (timestamp e)"

definition finish_funding :: "'w env \<Rightarrow> address \<Rightarrow> nat \<Rightarrow> int \<Rightarrow> invoice \<Rightarrow> 'w state \<Rightarrow> 'w state result" where
  "finish_funding e fdr n fund_amount i s =
     and_then (sync_nft_state e n (save_invoice i s)) (\<lambda>s1.
     let s2 = add_invoice_to_lp fdr n s1;
         s3 = (if status i = Funded then increment_total_funded s2 else s2)
     in and_then (notify_distribution_funding e fdr fund_amount (add_volume (token i) fund_amount s3)) (\<lambda>s4.
        Inr (publish (funded_event e fdr fund_amount i) s4)))"

definition fund_invoice :: "'w env \<Rightarrow> address \<Rightarrow> nat \<Rightarrow> int \<Rightarrow> bool \<Rightarrow> 'w state \<Rightarrow> 'w state result" where
  "fund_invoice e fdr n fund_amount required s =
     and_then (lock_reentrancy s) (\<lambda>s0.
     and_then (fund_checks e fdr n required s0) (\<lambda>(i, s1).
     and_then (ok_or_err (checked_add (amount_funded i) fund_amount) ArithmeticOverflow) (\<lambda>prospective.
     if prospective > amount i then err OverfundingRejected
     else
       and_then (volume_gate (token i) fund_amount s1) (\<lambda>_.
       and_then (collect_cost e fdr i fund_amount prospective s1) (\<lambda>s2.
       let s3 = save_invoice_funders n (credit_funder fdr fund_amount (get_invoice_funders n s2)) s2
       in and_then (complete_funding e fdr (i\<lparr> amount_funded := prospective \<rparr>) s3) (\<lambda>(i', s4).
          and_then (finish_funding e fdr n fund_amount i' s4) (\<lambda>s5.
          Inr (unlock_reentrancy s5))))))))"

section \<open>Frames\<close>

text \<open>The oracle gate touches the oracle store and the events only.\<close>

definition orcs_only :: "'w state \<Rightarrow> 'w state \<Rightarrow> bool" where
  "orcs_only s s' \<longleftrightarrow> inst s' = inst s \<and> invs s' = invs s \<and> idxs s' = idxs s \<and> reps s' = reps s \<and>
     ques s' = ques s \<and> toks s' = toks s \<and> stats s' = stats s \<and> nfts s' = nfts s \<and> mss s' = mss s \<and>
     alog s' = alog s \<and> wld s' = wld s"

lemma orcs_only_simps [simp]:
  "orcs_only s s" "orcs_only s (publish ev s') = orcs_only s s'" "orcs_only s (put_orcs g s') = orcs_only s s'"
  by (simp_all add: orcs_only_def publish_def put_orcs_def)

lemma orcs_only_recover: "orcs_only s s' \<Longrightarrow> orcs_only s (maybe_recover_oracle_circuit f t orc b ts prev now s')"
  by (auto simp: maybe_recover_oracle_circuit_def Let_def split: option.split)

lemma orcs_only_record: "orcs_only s (record_oracle_health e f t orc ts m s)"
  unfolding record_oracle_health_def Let_def
  by (intro orcs_only_recover) (simp add: trip_circuit_def)

lemma orcs_only_evaluate:
  assumes "evaluate_identity_verification e f t p m s = Inr (v, s')"
  shows "orcs_only s s'"
proof -
  have single: "orcs_only s s1" if "evaluate_single_oracle e f t p m a s = Inr (u, s1)" for a u s1
    using that orcs_only_record [of s e f t a _ m]
    by (auto simp: evaluate_single_oracle_def Let_def and_then_eq_Inr split: if_splits)
  show ?thesis
    using assms single
    by (cases "get_identity_oracles f s = []")
      (auto simp: evaluate_identity_verification_def check_identity_quorum_eq Let_def
        split: if_splits oracle_resolution.splits)
qed

lemma orcs_only_fields:
  assumes "orcs_only s s'"
  shows "inst s' = inst s" "invs s' = invs s" "idxs s' = idxs s" "reps s' = reps s" "ques s' = ques s"
    "toks s' = toks s" "stats s' = stats s" "nfts s' = nfts s" "mss s' = mss s" "alog s' = alog s" "wld s' = wld s"
  using assms by (simp_all add: orcs_only_def)

lemma gate_error_eq_Inr: "gate_error v = Inr u \<longleftrightarrow> v = GateVerified"
  by (cases v) (auto simp: gate_error_def)

lemma oracle_gate_eq_Inr:
  assumes "oracle_gate e b i s = Inr s'"
  shows "orcs_only s s'"
    and "b \<Longrightarrow> evaluate_identity_verification e Identity (token i) (payer i) (max_oracle_age s) s = Inr (GateVerified, s')"
  using assms by (auto simp: oracle_gate_def and_then_eq_Inr gate_error_eq_Inr orcs_only_evaluate split: if_splits)

lemma reputation_gate_eq_Inr:
  assumes "reputation_gate e i s = Inr s'"
  shows "inst s' = inst s" "invs s' = invs s" "idxs s' = idxs s" "ques s' = ques s" "toks s' = toks s"
    "stats s' = stats s" "nfts s' = nfts s" "mss s' = mss s" "orcs s' = orcs s" "wld s' = wld s"
    and "get_min_payer_reputation s \<le> fst (get_payer_score e (payer i) s) \<or> get_min_payer_reputation s = 0"
  using assms get_payer_score_frame [of e "payer i" s]
  by (auto simp: reputation_gate_def Let_def case_prod_beta split: if_splits)

lemma require_fundable_eq_Inr:
  "require_fundable e i = Inr u \<longleftrightarrow> status i = PartiallyFunded \<or> status i = Pending \<and> timestamp e \<le> due_date i"
  by (cases "status i") (auto simp: require_fundable_def)

lemma fund_checks_eq_Inr:
  assumes "fund_checks e fdr n b s = Inr (i, s')"
  shows "\<not> is_paused s" "fdr \<in> auths e" "try_load_invoice n s = Some i" "is_approved_token (token i) s"
    "get_queue_resolution n s = None \<or> get_queue_resolution n s = Some fdr"
    "status i = PartiallyFunded \<or> status i = Pending \<and> timestamp e \<le> due_date i"
    "inst s' = inst s" "invs s' = invs s" "idxs s' = idxs s" "ques s' = ques s" "toks s' = toks s"
    "stats s' = stats s" "nfts s' = nfts s" "mss s' = mss s" "wld s' = wld s"
proof -
  obtain s1 where g: "reputation_gate e i s = Inr s1" "oracle_gate e b i s1 = Inr s'" "require_fundable e i = Inr ()"
    and *: "\<not> is_paused s" "fdr \<in> auths e" "try_load_invoice n s = Some i" "is_approved_token (token i) s"
      "get_queue_resolution n s = None \<or> get_queue_resolution n s = Some fdr"
    using assms by (auto simp: fund_checks_def and_then_eq_Inr require_auth_eq_Inr ok_or_err_eq_Inr
        split: if_splits option.splits)
  note f = reputation_gate_eq_Inr [OF g(1)] orcs_only_fields [OF oracle_gate_eq_Inr(1) [OF g(2)]]
  show "\<not> is_paused s" "fdr \<in> auths e" "try_load_invoice n s = Some i" "is_approved_token (token i) s"
    "get_queue_resolution n s = None \<or> get_queue_resolution n s = Some fdr" by (fact *)+
  show "status i = PartiallyFunded \<or> status i = Pending \<and> timestamp e \<le> due_date i"
    using g(3) by (simp add: require_fundable_eq_Inr)
  show "inst s' = inst s" "invs s' = invs s" "idxs s' = idxs s" "ques s' = ques s" "toks s' = toks s"
    "stats s' = stats s" "nfts s' = nfts s" "mss s' = mss s" "wld s' = wld s" using f by simp_all
qed

section \<open>Inversion of fund_invoice\<close>

lemma normalize_amount_id [simp]: "normalize_amount t a s = a"
  by (simp add: normalize_amount_def normalize_xlm_amount_def normalize_eurc_amount_def normalize_usdc_amount_def)

lemma collect_cost_eq_Inr:
  assumes "collect_cost e fdr i a prospective s = Inr s'"
  obtains w where "x_transfer (ext e) (wld s) (token i) (insert (self e) (auths e)) fdr (self e) (funding_cost i a) = Some w"
    "s' = s\<lparr> wld := w \<rparr>"
  using assms by (auto simp: collect_cost_def and_then_eq_Inr token_transfer_eq_Inr)

lemma transfer_out_strict_eq_Inr:
  assumes "transfer_out_strict e t to a s = Inr s'"
  shows "a \<le> 0 \<and> s' = s \<or>
    0 < a \<and> (\<exists>w. x_transfer (ext e) (wld s) t (insert (self e) (auths e)) (self e) to a = Some w \<and> s' = s\<lparr> wld := w \<rparr>)"
  using assms by (auto simp: transfer_out_strict_def and_then_eq_Inr token_transfer_eq_Inr split: if_splits)

lemma complete_funding_eq_Inr:
  assumes "complete_funding e fdr i s = Inr (i', s')"
  shows "if amount_funded i = amount i
         then i' = i\<lparr> status := Funded, funded_at := Some (timestamp e), funder := Some fdr \<rparr> \<and>
           (\<exists>s1. transfer_out_strict e (token i) (freelancer i) (funding_cost i (amount i)) s = Inr s1 \<and>
              s' = set_lp_score fdr (sat_add_u32 (get_lp_score fdr s1) 1) s1)
         else i' = i\<lparr> status := PartiallyFunded \<rparr> \<and> s' = s"
  using assms by (auto simp: complete_funding_def and_then_eq_Inr to_u32_eq_Inr split: if_splits)

lemma complete_funding_frame:
  assumes "complete_funding e fdr i s = Inr (i', s')"
  shows "inst s' = inst s" "invs s' = invs s" "idxs s' = idxs s" "ques s' = ques s" "toks s' = toks s"
    "stats s' = stats s" "nfts s' = nfts s" "mss s' = mss s" "orcs s' = orcs s"
  using complete_funding_eq_Inr [OF assms] transfer_out_strict_eq_Inr
  by (fastforce split: if_splits)+

lemma add_volume_frame [simp]:
  "invs (add_volume t a s) = invs s" "inst (add_volume t a s) = inst s" "ques (add_volume t a s) = ques s"
  "mss (add_volume t a s) = mss s"
  "toks (add_volume t a s) =
     (toks s)\<lparr> token_volume := (token_volume (toks s))(t \<mapsto> saturating_add (get_token_volume t s) a) \<rparr>"
  by (simp_all add: add_volume_def Let_def)

lemma lp_bookkeeping_frame [simp]:
  "invs (add_invoice_to_lp f n s) = invs s" "inst (add_invoice_to_lp f n s) = inst s"
  "ques (add_invoice_to_lp f n s) = ques s" "mss (add_invoice_to_lp f n s) = mss s"
  "toks (add_invoice_to_lp f n s) = toks s"
  "invs (increment_total_funded s) = invs s" "inst (increment_total_funded s) = inst s"
  "ques (increment_total_funded s) = ques s" "mss (increment_total_funded s) = mss s"
  "toks (increment_total_funded s) = toks s"
  by (simp_all add: add_invoice_to_lp_def increment_total_funded_def)

lemma finish_funding_frame:
  assumes "finish_funding e fdr n a i s = Inr s'"
  shows "invs s' = invs (save_invoice i s)" "inst s' = inst s" "ques s' = ques s" "mss s' = mss s"
    "toks s' = (toks s)\<lparr> token_volume := (token_volume (toks s))(token i \<mapsto> saturating_add (get_token_volume (token i) s) a) \<rparr>"
proof -
  obtain s1 s3 s4 where s1: "sync_nft_state e n (save_invoice i s) = Inr s1"
    and s3: "s3 = (if status i = Funded then increment_total_funded (add_invoice_to_lp fdr n s1) else add_invoice_to_lp fdr n s1)"
    and s4: "notify_distribution_funding e fdr a (add_volume (token i) a s3) = Inr s4"
    and s': "s' = publish (funded_event e fdr a i) s4"
    using assms unfolding finish_funding_def and_then_eq_Inr Let_def by blast
  obtain w where w: "s4 = (add_volume (token i) a s3)\<lparr> wld := w \<rparr>"
    using notify_distribution_funding_frame [OF s4] by blast
  note f = sync_nft_state_fields [OF s1]
  have s3f: "invs s3 = invs s1" "inst s3 = inst s1" "ques s3 = ques s1" "mss s3 = mss s1" "toks s3 = toks s1"
    by (simp_all add: s3)
  have v: "get_token_volume (token i) s3 = get_token_volume (token i) s" "toks (save_invoice i s) = toks s"
    "inst (save_invoice i s) = inst s" "ques (save_invoice i s) = ques s" "mss (save_invoice i s) = mss s"
    using s3f f by (simp_all add: get_token_volume_def save_invoice_def)
  show "invs s' = invs (save_invoice i s)" "inst s' = inst s" "ques s' = ques s" "mss s' = mss s"
    "toks s' = (toks s)\<lparr> token_volume := (token_volume (toks s))(token i \<mapsto> saturating_add (get_token_volume (token i) s) a) \<rparr>"
    by (simp_all add: s' w publish_def s3f f v)
qed

lemma fund_invoice_eq_Inr:
  assumes "fund_invoice e fdr n a b s = Inr s'"
  obtains i i' s1 s2 s3 s4 where
    "try_load_invoice n s = Some i" "\<not> is_paused s" "fdr \<in> auths e" "fund_checks e fdr n b (set_lock True s) = Inr (i, s1)"
    "status i = PartiallyFunded \<or> status i = Pending \<and> timestamp e \<le> due_date i"
    "amount_funded i + a \<le> amount i" "in_i128 (amount_funded i + a)"
    "collect_cost e fdr i a (amount_funded i + a) s1 = Inr s2"
    "complete_funding e fdr (i\<lparr> amount_funded := amount_funded i + a \<rparr>)
       (save_invoice_funders n (credit_funder fdr a (get_invoice_funders n s)) s2) = Inr (i', s3)"
    "finish_funding e fdr n a i' s3 = Inr s4" "s' = unlock_reentrancy s4"
proof -
  from assms obtain i i' s1 s2 s3 s4 where *: "fund_checks e fdr n b (set_lock True s) = Inr (i, s1)"
    "amount_funded i + a \<le> amount i" "in_i128 (amount_funded i + a)"
    "collect_cost e fdr i a (amount_funded i + a) s1 = Inr s2"
    "complete_funding e fdr (i\<lparr> amount_funded := amount_funded i + a \<rparr>)
       (save_invoice_funders n (credit_funder fdr a (get_invoice_funders n s2)) s2) = Inr (i', s3)"
    "finish_funding e fdr n a i' s3 = Inr s4" "s' = unlock_reentrancy s4"
    by (auto simp: fund_invoice_def and_then_eq_Inr lock_reentrancy_eq_Inr ok_or_err_eq_Inr checked_add_def Let_def
        split: if_splits)
  note c = fund_checks_eq_Inr [OF *(1)]
  have "invs s2 = invs s1" using *(4) by (auto elim: collect_cost_eq_Inr)
  then have "get_invoice_funders n s2 = get_invoice_funders n s" using c by (simp add: get_invoice_funders_def)
  with * c show ?thesis by (intro that [of i s1 s2 i' s3 s4]) simp_all
qed

end
