(* ===== verification/Settlement.thy ===== *)
theory Settlement
  imports Funding
begin

text \<open>
  Settlement of a funded invoice (src/contracts/invoice_liquidity/src/lib.rs): \<open>mark_paid\<close>,
  \<open>claim_yield\<close>, \<open>claim_default\<close> with the insurance claim, the appeal of a default and the
  dispute of an invoice with their resolutions. The insurance pool is a parameter:
  \<open>x_is_enrolled\<close> is \<open>is_enrolled\<close>, \<open>x_claim\<close> is \<open>claim\<close>; both are called through \<open>try_\<close>, so \<open>None\<close> is
  a failed call whose effects are undone.

  Shown here: the exact effect of each operation on the invoice, that a full payment distributes
  at most what the payer paid and leaves less than one unit per funder and for the fee, and that the
  refunds of a default are taken from money the invoice does not have in the contract.
\<close>

section \<open>Payment\<close>

definition protocol_fee_of :: "invoice \<Rightarrow> 'w state \<Rightarrow> int" where
  "protocol_fee_of i s =
     quot (unwrap_or (checked_mul (amount i) (int (effective_fee_rate (amount i) s))) 0) 10000"

definition pay_fee :: "'w env \<Rightarrow> nat \<Rightarrow> invoice \<Rightarrow> int \<Rightarrow> 'w state \<Rightarrow> 'w state result" where
  "pay_fee e n i fee s =
     (if fee > 0 then
        and_then (expect (get_admin s)) (\<lambda>a.
        and_then (pay_or_escrow e (token i) a fee n s) (\<lambda>(_, s1). Inr s1))
      else Inr s)"

definition funder_share :: "invoice \<Rightarrow> int \<Rightarrow> int \<Rightarrow> int" where
  "funder_share i distribute_amount fund_amt =
     quot (unwrap_or (checked_mul distribute_amount fund_amt) 0) (amount i)"

fun distribute :: "'w env \<Rightarrow> nat \<Rightarrow> invoice \<Rightarrow> int \<Rightarrow> funders \<Rightarrow> 'w state \<Rightarrow> 'w state result" where
  "distribute e n i d [] s = Inr s"
| "distribute e n i d ((a, amt) # fs) s =
     and_then (pay_or_escrow e (token i) a (funder_share i d amt) n s) (\<lambda>(_, s1). distribute e n i d fs s1)"

definition paid_event :: "'w env \<Rightarrow> invoice \<Rightarrow> address \<Rightarrow> int \<Rightarrow> int \<Rightarrow> event" where
  "paid_event e i primary_lp lp_earned lp_payout =
     EvInvoicePaid (inv_id i) (payer i) primary_lp (freelancer i) (token i) (amount i) lp_earned lp_payout
       (timestamp e) (timestamp e \<le> due_date i) (status i)"

definition reward_payment :: "'w env \<Rightarrow> invoice \<Rightarrow> 'w state \<Rightarrow> 'w state result" where
  "reward_payment e i s =
     and_then (notify_distribution_settlement e (freelancer i) (payer i) (timestamp e \<le> due_date i)
       (increment_total_paid s)) (\<lambda>s1.
     let (score, s2) = get_payer_score e (payer i) s1 in
     and_then (set_payer_score e (payer i) (sat_add_u32 score 1) s2) (\<lambda>s3.
     Inr (increment_invoices_paid (freelancer i) (increment_invoices_paid (payer i) s3))))"

definition settle :: "'w env \<Rightarrow> nat \<Rightarrow> invoice \<Rightarrow> funders \<Rightarrow> address \<Rightarrow> int \<Rightarrow> 'w state \<Rightarrow> 'w state result" where
  "settle e n i funders primary_lp primary_lp_funded s =
     (let fee = protocol_fee_of i s in
      and_then (pay_fee e n i fee s) (\<lambda>s1.
      let distribute_amount = saturating_sub (amount i) fee in
      and_then (ok_or_err (checked_mul distribute_amount primary_lp_funded) ArithmeticOverflow) (\<lambda>m.
      let primary_lp_payout = quot m (amount i);
          lp_earned = unwrap_or (checked_sub primary_lp_payout primary_lp_funded) 0;
          i' = i\<lparr> status := Paid \<rparr> in
      and_then (sync_nft_state e n (save_invoice i' s1)) (\<lambda>s2.
      and_then (distribute e n i' distribute_amount funders s2) (\<lambda>s3.
      and_then (reward_payment e i' s3) (\<lambda>s4.
      Inr (publish (paid_event e i' primary_lp lp_earned primary_lp_payout) s4)))))))"

definition record_partial_payment :: "'w env \<Rightarrow> nat \<Rightarrow> int \<Rightarrow> invoice \<Rightarrow> 'w state \<Rightarrow> 'w state result" where
  "record_partial_payment e n amt i s =
     and_then (sync_nft_state e n (save_invoice i s)) (\<lambda>s1.
     Inr (publish (EvInvoicePartiallyPaid (inv_id i) (payer i) amt (amount_paid i)
            (saturating_sub (amount i) (amount_paid i))) s1))"

text \<open>The part of \<open>mark_paid\<close> after its checks.\<close>

definition take_payment :: "'w env \<Rightarrow> nat \<Rightarrow> int \<Rightarrow> invoice \<Rightarrow> funders \<Rightarrow> 'w state \<Rightarrow> 'w state result" where
  "take_payment e n amt i funders s =
     (case funders of
        [] \<Rightarrow> err NotFunded
      | (primary_lp, primary_lp_funded) # _ \<Rightarrow>
          and_then (ok_or_err (checked_add (amount_paid i) amt) ArithmeticOverflow) (\<lambda>paid.
          and_then (require_authorized e (token i) (payer i) s) (\<lambda>_.
          and_then (token_transfer e (token i) (payer i) (self e) (normalize_amount (token i) amt s) s) (\<lambda>s1.
          let i' = i\<lparr> amount_paid := paid \<rparr> in
          if paid < amount i then record_partial_payment e n amt i' s1
          else settle e n i' funders primary_lp primary_lp_funded s1))))"

definition mark_paid :: "'w env \<Rightarrow> nat \<Rightarrow> int \<Rightarrow> 'w state \<Rightarrow> 'w state result" where
  "mark_paid e n amt s =
     and_then (lock_reentrancy s) (\<lambda>s0.
     if is_paused s0 then err ContractPaused
     else if amt \<le> 0 then err InvalidAmount
     else
       and_then (ok_or_err (try_load_invoice n s0) InvoiceNotFound) (\<lambda>i.
       and_then (require_payer_by_id e n s0) (\<lambda>_.
       and_then (require_funded (status i)) (\<lambda>_.
       if amt > saturating_sub (amount i) (amount_paid i) then err OverpaymentRejected
       else
         and_then (take_payment e n amt i (get_invoice_funders n s0) s0) (\<lambda>s1.
         Inr (unlock_reentrancy s1))))))"

definition claim_yield :: "'w env \<Rightarrow> nat \<Rightarrow> 'w state \<Rightarrow> int result" where
  "claim_yield e n s =
     (if \<not> invoice_exists n s then err InvoiceNotFound
      else
        and_then (load_invoice n s) (\<lambda>i.
        case funder i of
          None \<Rightarrow> err NothingToClaim
        | Some f \<Rightarrow>
            and_then (require_lp_by_id e f n s) (\<lambda>_.
            case status i of
              Pending \<Rightarrow> Inr 0
            | PartiallyFunded \<Rightarrow> Inr 0
            | Funded \<Rightarrow> Inr 0
            | Defaulted \<Rightarrow> err InvoiceDefaulted
            | Appealed \<Rightarrow> err InvoiceAppealed
            | Disputed \<Rightarrow> err InvoiceDisputed
            | Expired \<Rightarrow> err InvoiceExpired
            | Cancelled \<Rightarrow> err AlreadyCancelled
            | Paid \<Rightarrow> Inr (discount_on (amount i) (discount_rate i)))))"

section \<open>Default\<close>

text \<open>The refunds of \<open>cancel_invoice\<close>, and their saturating sum for the event.\<close>

definition total_refunded :: "invoice \<Rightarrow> funders \<Rightarrow> int" where
  "total_refunded i fs = fold (\<lambda>(_, amt) acc. saturating_add acc (funding_cost i amt)) fs 0"

definition claim_insurance :: "'w env \<Rightarrow> address \<Rightarrow> nat \<Rightarrow> invoice \<Rightarrow> 'w state \<Rightarrow> 'w state" where
  "claim_insurance e fdr n i s =
     (case get_insurance_pool s of
        None \<Rightarrow> s
      | Some pool \<Rightarrow>
          if x_is_enrolled (ext e) (wld s) pool fdr = Some True then
            (case x_claim (ext e) (wld s) pool n fdr of
               Some (payout, w) \<Rightarrow> publish (EvInsuranceClaimAttempted (inv_id i) fdr True payout) (s\<lparr> wld := w \<rparr>)
             | None \<Rightarrow> publish (EvInsuranceClaimAttempted (inv_id i) fdr False 0) s)
          else s)"

definition penalize_payer :: "'w env \<Rightarrow> nat \<Rightarrow> invoice \<Rightarrow> 'w state \<Rightarrow> 'w state result" where
  "penalize_payer e n i s =
     (let (score, s1) = get_payer_score e (payer i) s;
          s2 = save_pre_default_payer_score n score s1
      in and_then (set_payer_score e (payer i) (if score > 5 then score - 5 else 0) s2) (\<lambda>s3.
         Inr (increment_invoices_defaulted (payer i) s3)))"

definition defaulted_event :: "'w env \<Rightarrow> address \<Rightarrow> invoice \<Rightarrow> int \<Rightarrow> event" where
  "defaulted_event e fdr i refunded =
     EvInvoiceDefaulted (inv_id i) fdr (freelancer i) (payer i) (token i) (amount i) (due_date i)
       (timestamp e) refunded (status i)"

definition claim_default :: "'w env \<Rightarrow> address \<Rightarrow> nat \<Rightarrow> 'w state \<Rightarrow> 'w state result" where
  "claim_default e fdr n s =
     and_then (lock_reentrancy s) (\<lambda>s0.
     if is_paused s0 then err ContractPaused
     else
       and_then (require_auth e fdr) (\<lambda>_.
       if \<not> invoice_exists n s0 then err InvoiceNotFound
       else
         and_then (load_invoice n s0) (\<lambda>i.
         let funders = get_invoice_funders n s0 in
         if fdr \<notin> fst ` set funders then err Unauthorized
         else if timestamp e < due_date i then err NotYetDefaulted
         else
           and_then (require_funded (status i)) (\<lambda>_.
           let i' = i\<lparr> status := Defaulted \<rparr> in
           and_then (sync_nft_state e n (save_invoice i' s0)) (\<lambda>s1.
           and_then (refund_funders e n i' funders s1) (\<lambda>s2.
           and_then (penalize_payer e n i' (claim_insurance e fdr n i' s2)) (\<lambda>s3.
           Inr (unlock_reentrancy (publish (defaulted_event e fdr i' (total_refunded i' funders)) s3)))))))))"

section \<open>Appeals\<close>

definition appeal_default :: "'w env \<Rightarrow> nat \<Rightarrow> bytes32 \<Rightarrow> 'w state \<Rightarrow> 'w state result" where
  "appeal_default e n evidence s =
     (if is_paused s then err ContractPaused
      else if \<not> invoice_exists n s then err InvoiceNotFound
      else
        and_then (load_invoice n s) (\<lambda>i.
        and_then (require_payer_by_id e n s) (\<lambda>_.
        if appeal (invs s) n \<noteq> None then err AlreadyAppealed
        else if status i \<noteq> Defaulted then err NotDefaulted
        else if timestamp e > sat_add_u64 (due_date i) APPEAL_WINDOW_SECONDS then err AppealWindowClosed
        else
          let (score, s1) = (case pre_default_payer_score (invs s) n of
                               Some sc \<Rightarrow> (sc, s) | None \<Rightarrow> get_payer_score e (payer i) s) in
          and_then (to_u32 (timestamp e)) (\<lambda>now.
          let s2 = save_appeal n \<lparr> evidence_hash = evidence, appealed_at = now, pre_default_score = score \<rparr> s1
          in and_then (sync_nft_state e n (save_invoice (i\<lparr> status := Appealed \<rparr>) s2)) (\<lambda>s3.
             Inr (publish (EvDefaultAppealed n (payer i) evidence (timestamp e)) s3))))))"

definition restore_reputation :: "'w env \<Rightarrow> invoice \<Rightarrow> nat \<Rightarrow> 'w state \<Rightarrow> 'w state result" where
  "restore_reputation e i score s =
     and_then (set_payer_score e (payer i) score s) (\<lambda>s1.
     let profile = get_reputation (payer i) s1
     in Inr (set_reputation (profile\<lparr> invoices_defaulted := invoices_defaulted profile - 1 \<rparr>) s1))"

definition resolve_appeal :: "'w env \<Rightarrow> nat \<Rightarrow> bool \<Rightarrow> 'w state \<Rightarrow> 'w state result" where
  "resolve_appeal e n upheld s =
     and_then (require_admin e s) (\<lambda>_.
     and_then (record_admin_action e ''resolve_appeal'' s) (\<lambda>s0.
     if \<not> invoice_exists n s0 then err InvoiceNotFound
     else
       and_then (load_invoice n s0) (\<lambda>i.
       if status i \<noteq> Appealed then err NotDefaulted
       else
         and_then (ok_or_err (appeal (invs s0) n) InvoiceNotFound) (\<lambda>ap.
         and_then (if upheld then restore_reputation e i (pre_default_score ap) s0 else Inr s0) (\<lambda>s1.
         and_then (sync_nft_state e n (save_invoice (i\<lparr> status := Defaulted \<rparr>) s1)) (\<lambda>s2.
         Inr (publish (EvAppealResolved n (payer i) upheld (timestamp e)) s2)))))))"

section \<open>Disputes\<close>

definition require_disputable :: "invoice_status \<Rightarrow> unit result" where
  "require_disputable st =
     (case st of
        Pending \<Rightarrow> Inr ()
      | PartiallyFunded \<Rightarrow> Inr ()
      | Funded \<Rightarrow> Inr ()
      | Paid \<Rightarrow> err AlreadyPaid
      | Defaulted \<Rightarrow> err InvoiceDefaulted
      | Appealed \<Rightarrow> err InvoiceAppealed
      | Expired \<Rightarrow> err InvoiceExpired
      | Cancelled \<Rightarrow> err AlreadyCancelled
      | Disputed \<Rightarrow> err AlreadyDisputed)"

definition dispute_invoice :: "'w env \<Rightarrow> nat \<Rightarrow> bytes32 \<Rightarrow> 'w state \<Rightarrow> 'w state result" where
  "dispute_invoice e n reason s =
     (if is_paused s then err ContractPaused
      else if \<not> invoice_exists n s then err InvoiceNotFound
      else
        and_then (load_invoice n s) (\<lambda>i.
        and_then (require_payer_by_id e n s) (\<lambda>_.
        if dispute (invs s) n \<noteq> None then err AlreadyDisputed
        else
          and_then (require_disputable (status i)) (\<lambda>_.
          let s1 = save_dispute n \<lparr> reason_hash = reason, disputed_at = sequence e \<rparr> s
          in and_then (sync_nft_state e n (save_invoice (i\<lparr> status := Disputed \<rparr>) s1)) (\<lambda>s2.
             Inr (publish (EvInvoiceDisputed n (payer i) reason (timestamp e)) s2))))))"

definition status_from_funding :: "invoice \<Rightarrow> invoice_status" where
  "status_from_funding i =
     (if amount_funded i = amount i then Funded
      else if amount_funded i > 0 then PartiallyFunded
      else Pending)"

definition refund_payer :: "'w env \<Rightarrow> nat \<Rightarrow> invoice \<Rightarrow> 'w state \<Rightarrow> 'w state result" where
  "refund_payer e n i s =
     (if amount_paid i > 0 then
        and_then (pay_or_escrow e (token i) (payer i) (amount_paid i) n s) (\<lambda>(_, s1).
        Inr (publish (EvDisputeUpheldPayerRefund n (payer i) (amount_paid i)) s1))
      else Inr s)"

definition uphold_dispute :: "'w env \<Rightarrow> nat \<Rightarrow> invoice \<Rightarrow> 'w state \<Rightarrow> 'w state result" where
  "uphold_dispute e n i s =
     and_then (refund_funders e n i (get_invoice_funders n s) (save_invoice i s)) (refund_payer e n i)"

definition resolve_dispute :: "'w env \<Rightarrow> nat \<Rightarrow> bytes32 \<Rightarrow> nat \<Rightarrow> 'w state \<Rightarrow> 'w state result" where
  "resolve_dispute e n resolution_hash resolution s =
     and_then (lock_reentrancy s) (\<lambda>s0.
     and_then (require_admin e s0) (\<lambda>_.
     and_then (record_admin_action e ''resolve_dispute'' s0) (\<lambda>s1.
     if \<not> invoice_exists n s1 then err InvoiceNotFound
     else
       and_then (load_invoice n s1) (\<lambda>i.
       if status i \<noteq> Disputed then err NotDisputed
       else
         and_then
           (if resolution = 1 then
              and_then (uphold_dispute e n (cancelled i) s1) (\<lambda>s2. Inr (cancelled i, s2))
            else if resolution = 2 then Inr (i\<lparr> status := status_from_funding i \<rparr>, s1)
            else err Unauthorized) (\<lambda>(i', s2).
         and_then (sync_nft_state e n (save_invoice i' s2)) (\<lambda>s3.
         Inr (unlock_reentrancy
           (publish (EvDisputeResolved n resolution_hash resolution (timestamp e)) s3))))))))"

definition zero_hash :: bytes32 where
  "zero_hash = replicate 32 0"

definition auto_resolve_dispute :: "'w env \<Rightarrow> nat \<Rightarrow> 'w state \<Rightarrow> 'w state result" where
  "auto_resolve_dispute e n s =
     (if \<not> invoice_exists n s then err InvoiceNotFound
      else
        and_then (load_invoice n s) (\<lambda>i.
        if status i \<noteq> Disputed then err NotDisputed
        else
          and_then (ok_or_err (dispute (invs s) n) InvoiceNotFound) (\<lambda>d.
          and_then (ok_or_err (get_config s) Unauthorized) (\<lambda>c.
          if sequence e < sat_add_u64 (disputed_at d) (dispute_timeout_ledgers c) then err Unauthorized
          else
            and_then (sync_nft_state e n (save_invoice (i\<lparr> status := status_from_funding i \<rparr>) s)) (\<lambda>s1.
            Inr (publish (EvDisputeResolved n zero_hash 2 (timestamp e)) s1))))))"

section \<open>Frames\<close>

lemma distribute_frame:
  assumes "distribute e n i d fs s = Inr s'"
  shows "inst s' = inst s \<and> invs s' = invs s \<and> idxs s' = idxs s \<and> reps s' = reps s \<and> ques s' = ques s \<and>
    stats s' = stats s \<and> nfts s' = nfts s \<and> orcs s' = orcs s \<and> mss s' = mss s \<and> alog s' = alog s"
  using assms
proof (induction e n i d fs s rule: distribute.induct)
  case (2 e n i d a amt fs s)
  then obtain b s1 where p: "pay_or_escrow e (token i) a (funder_share i d amt) n s = Inr (b, s1)"
    "distribute e n i d fs s1 = Inr s'" by (auto simp: and_then_eq_Inr)
  with 2(1) [OF p(1) refl] pay_or_escrow_frame [OF p(1)] show ?case by simp
qed simp

lemma pay_fee_frame:
  assumes "pay_fee e n i fee s = Inr s'"
  shows "inst s' = inst s" "invs s' = invs s" "reps s' = reps s" "ques s' = ques s" "stats s' = stats s"
    "nfts s' = nfts s" "mss s' = mss s"
  using assms pay_or_escrow_frame [of e "token i" _ fee n s]
  by (auto simp: pay_fee_def and_then_eq_Inr split: if_splits)

lemma reward_payment_frame:
  assumes "reward_payment e i s = Inr s'"
  shows "inst s' = inst s" "invs s' = invs s" "ques s' = ques s" "toks s' = toks s" "nfts s' = nfts s" "mss s' = mss s"
proof -
  obtain s1 sc s2 s3 where s1: "notify_distribution_settlement e (freelancer i) (payer i) (timestamp e \<le> due_date i)
      (increment_total_paid s) = Inr s1" and s2: "get_payer_score e (payer i) s1 = (sc, s2)"
    and s3: "set_payer_score e (payer i) (sat_add_u32 sc 1) s2 = Inr s3"
    and s': "s' = increment_invoices_paid (freelancer i) (increment_invoices_paid (payer i) s3)"
    using assms unfolding reward_payment_def and_then_eq_Inr Let_def case_prod_beta
    by (metis prod.collapse sum.inject(2))
  obtain w where "s1 = (increment_total_paid s)\<lparr> wld := w \<rparr>"
    using notify_distribution_settlement_frame [OF s1] by blast
  then show "inst s' = inst s" "invs s' = invs s" "ques s' = ques s" "toks s' = toks s" "nfts s' = nfts s" "mss s' = mss s"
    using get_payer_score_pair [OF s2] set_payer_score_frame [OF s3]
    by (simp_all add: s' increment_total_paid_def)
qed

lemma settle_eq_Inr:
  assumes "settle e n i fs q x s = Inr s'"
  obtains s1 s2 s3 s4 where "pay_fee e n i (protocol_fee_of i s) s = Inr s1"
    "sync_nft_state e n (save_invoice (i\<lparr> status := Paid \<rparr>) s1) = Inr s2"
    "distribute e n (i\<lparr> status := Paid \<rparr>) (saturating_sub (amount i) (protocol_fee_of i s)) fs s2 = Inr s3"
    "reward_payment e (i\<lparr> status := Paid \<rparr>) s3 = Inr s4" "\<exists>ev. s' = publish ev s4"
  using assms unfolding settle_def Let_def and_then_eq_Inr by blast

lemma save_invoice_frame [simp]:
  "inst (save_invoice i s) = inst s" "idxs (save_invoice i s) = idxs s" "reps (save_invoice i s) = reps s"
  "ques (save_invoice i s) = ques s" "toks (save_invoice i s) = toks s" "stats (save_invoice i s) = stats s"
  "nfts (save_invoice i s) = nfts s" "orcs (save_invoice i s) = orcs s" "mss (save_invoice i s) = mss s"
  "alog (save_invoice i s) = alog s" "wld (save_invoice i s) = wld s"
  by (simp_all add: save_invoice_def)

lemma invs_save_invoice_cong: "invs s = invs s1 \<Longrightarrow> invs (save_invoice i s) = invs (save_invoice i s1)"
  by (simp add: save_invoice_def)

lemma settle_frame:
  assumes "settle e n i fs q x s = Inr s'"
  shows "invs s' = invs (save_invoice (i\<lparr> status := Paid \<rparr>) s)" "inst s' = inst s" "ques s' = ques s" "mss s' = mss s"
proof -
  obtain s1 s2 s3 s4 ev where s: "pay_fee e n i (protocol_fee_of i s) s = Inr s1"
    "sync_nft_state e n (save_invoice (i\<lparr> status := Paid \<rparr>) s1) = Inr s2"
    "distribute e n (i\<lparr> status := Paid \<rparr>) (saturating_sub (amount i) (protocol_fee_of i s)) fs s2 = Inr s3"
    "reward_payment e (i\<lparr> status := Paid \<rparr>) s3 = Inr s4" "s' = publish ev s4"
    using assms by (rule settle_eq_Inr) blast
  note f = pay_fee_frame [OF s(1)] sync_nft_state_fields [OF s(2)] distribute_frame [OF s(3)] reward_payment_frame [OF s(4)]
  show "invs s' = invs (save_invoice (i\<lparr> status := Paid \<rparr>) s)"
    using f invs_save_invoice_cong [of s1 s] by (simp add: s(5) publish_def)
  show "inst s' = inst s" "ques s' = ques s" "mss s' = mss s" using f by (simp_all add: s(5) publish_def)
qed

lemma record_partial_payment_frame:
  assumes "record_partial_payment e n a i s = Inr s'"
  shows "invs s' = invs (save_invoice i s)" "inst s' = inst s" "ques s' = ques s" "mss s' = mss s" "toks s' = toks s"
    "wld s' = wld s"
proof -
  obtain s1 where s1: "sync_nft_state e n (save_invoice i s) = Inr s1"
    and s': "s' = publish (EvInvoicePartiallyPaid (inv_id i) (payer i) a (amount_paid i)
            (saturating_sub (amount i) (amount_paid i))) s1"
    using assms unfolding record_partial_payment_def and_then_eq_Inr by blast
  show "invs s' = invs (save_invoice i s)" "inst s' = inst s" "ques s' = ques s" "mss s' = mss s" "toks s' = toks s"
    "wld s' = wld s"
    using sync_nft_state_fields [OF s1] by (simp_all add: s' publish_def)
qed

section \<open>Inversion of the operations\<close>

lemma take_payment_eq_Inr:
  assumes "take_payment e n a i fs s = Inr s'"
  obtains q x fs' w where "fs = (q, x) # fs'" "in_i128 (amount_paid i + a)"
    "x_transfer (ext e) (wld s) (token i) (insert (self e) (auths e)) (payer i) (self e) a = Some w"
    "if amount_paid i + a < amount i
     then record_partial_payment e n a (i\<lparr> amount_paid := amount_paid i + a \<rparr>) (s\<lparr> wld := w \<rparr>) = Inr s'
     else settle e n (i\<lparr> amount_paid := amount_paid i + a \<rparr>) fs q x (s\<lparr> wld := w \<rparr>) = Inr s'"
proof (cases fs)
  case (Cons y fs')
  obtain q x where y: "y = (q, x)" by fastforce
  obtain w where "in_i128 (amount_paid i + a)"
    "x_transfer (ext e) (wld s) (token i) (insert (self e) (auths e)) (payer i) (self e) a = Some w"
    "(if amount_paid i + a < amount i
      then record_partial_payment e n a (i\<lparr> amount_paid := amount_paid i + a \<rparr>) (s\<lparr> wld := w \<rparr>)
      else settle e n (i\<lparr> amount_paid := amount_paid i + a \<rparr>) fs q x (s\<lparr> wld := w \<rparr>)) = Inr s'"
    using assms unfolding take_payment_def Cons y list.case prod.case and_then_eq_Inr ok_or_err_eq_Inr
      token_transfer_eq_Inr checked_add_eq_Some Let_def normalize_amount_id by blast
  then show ?thesis using Cons y by (intro that [of q x fs' w]) (auto split: if_splits)
qed (use assms in \<open>simp add: take_payment_def\<close>)

lemma take_payment_frame:
  assumes "take_payment e n a i fs s = Inr s'"
  shows "inst s' = inst s" "ques s' = ques s" "mss s' = mss s"
    and "invs s' = invs (save_invoice (i\<lparr> amount_paid := amount_paid i + a,
           status := if amount_paid i + a < amount i then status i else Paid \<rparr>) s)"
proof -
  obtain q x fs' w where *: "if amount_paid i + a < amount i
     then record_partial_payment e n a (i\<lparr> amount_paid := amount_paid i + a \<rparr>) (s\<lparr> wld := w \<rparr>) = Inr s'
     else settle e n (i\<lparr> amount_paid := amount_paid i + a \<rparr>) fs q x (s\<lparr> wld := w \<rparr>) = Inr s'"
    using assms by (rule take_payment_eq_Inr) blast
  have "inst s' = inst s \<and> ques s' = ques s \<and> mss s' = mss s \<and>
    invs s' = invs (save_invoice (i\<lparr> amount_paid := amount_paid i + a,
           status := if amount_paid i + a < amount i then status i else Paid \<rparr>) s)"
  proof (cases "amount_paid i + a < amount i")
    case True
    with * have "record_partial_payment e n a (i\<lparr> amount_paid := amount_paid i + a \<rparr>) (s\<lparr> wld := w \<rparr>) = Inr s'" by simp
    from record_partial_payment_frame [OF this] True show ?thesis by (simp add: save_invoice_def)
  next
    case False
    with * have "settle e n (i\<lparr> amount_paid := amount_paid i + a \<rparr>) fs q x (s\<lparr> wld := w \<rparr>) = Inr s'" by simp
    from settle_frame [OF this] False show ?thesis by (simp add: save_invoice_def)
  qed
  then show "inst s' = inst s" "ques s' = ques s" "mss s' = mss s"
    and "invs s' = invs (save_invoice (i\<lparr> amount_paid := amount_paid i + a,
           status := if amount_paid i + a < amount i then status i else Paid \<rparr>) s)" by simp_all
qed

lemma mark_paid_eq_Inr:
  assumes "mark_paid e n a s = Inr s'"
  obtains i i0 s1 where "try_load_invoice n s = Some i" "\<not> is_paused s" "0 < a" "status i = Funded"
    "invoice_at (invs s) n = Some i0" "payer i0 \<in> auths e"
    "a \<le> saturating_sub (amount i) (amount_paid i)"
    "take_payment e n a i (get_invoice_funders n s) (set_lock True s) = Inr s1"
    "s' = unlock_reentrancy s1"
  using assms
  by (auto simp: mark_paid_def and_then_eq_Inr lock_reentrancy_eq_Inr ok_or_err_eq_Inr require_funded_eq_Inr
      require_payer_by_id_eq_Inr not_le split: if_splits)

lemma claim_insurance_frame [simp]:
  "inst (claim_insurance e f n i s) = inst s" "invs (claim_insurance e f n i s) = invs s"
  "ques (claim_insurance e f n i s) = ques s" "mss (claim_insurance e f n i s) = mss s"
  "toks (claim_insurance e f n i s) = toks s" "nfts (claim_insurance e f n i s) = nfts s"
  "reps (claim_insurance e f n i s) = reps s"
  by (auto simp: claim_insurance_def publish_def split: option.split)

lemma penalize_payer_frame:
  assumes "penalize_payer e n i s = Inr s'"
  shows "inst s' = inst s" "ques s' = ques s" "mss s' = mss s" "nfts s' = nfts s" "toks s' = toks s" "wld s' = wld s"
    and "invs s' = (invs s)\<lparr> pre_default_payer_score :=
           (pre_default_payer_score (invs s))(n \<mapsto> fst (get_payer_score e (payer i) s)) \<rparr>"
proof -
  obtain sc s1 where sc: "get_payer_score e (payer i) s = (sc, s1)" by fastforce
  obtain s3 where s3: "set_payer_score e (payer i) (if sc > 5 then sc - 5 else 0) (save_pre_default_payer_score n sc s1) = Inr s3"
    and s': "s' = increment_invoices_defaulted (payer i) s3"
    using assms unfolding penalize_payer_def sc Let_def prod.case and_then_eq_Inr by blast
  note f = get_payer_score_pair [OF sc] set_payer_score_frame [OF s3]
  show "inst s' = inst s" "ques s' = ques s" "mss s' = mss s" "nfts s' = nfts s" "toks s' = toks s" "wld s' = wld s"
    and "invs s' = (invs s)\<lparr> pre_default_payer_score :=
           (pre_default_payer_score (invs s))(n \<mapsto> fst (get_payer_score e (payer i) s)) \<rparr>"
    using f by (simp_all add: s' sc save_pre_default_payer_score_def)
qed

lemma claim_default_eq_Inr:
  assumes "claim_default e f n s = Inr s'"
  obtains i s1 s2 s3 where "invoice_at (invs s) n = Some i" "\<not> is_paused s" "f \<in> auths e"
    "f \<in> fst ` set (get_invoice_funders n s)" "due_date i \<le> timestamp e" "status i = Funded"
    "sync_nft_state e n (save_invoice (i\<lparr> status := Defaulted \<rparr>) (set_lock True s)) = Inr s1"
    "refund_funders e n (i\<lparr> status := Defaulted \<rparr>) (get_invoice_funders n s) s1 = Inr s2"
    "penalize_payer e n (i\<lparr> status := Defaulted \<rparr>) (claim_insurance e f n (i\<lparr> status := Defaulted \<rparr>) s2) = Inr s3"
    "\<exists>ev. s' = unlock_reentrancy (publish ev s3)"
proof (cases "invoice_at (invs s) n")
  case None
  then show ?thesis using assms
    by (auto simp: claim_default_def and_then_eq_Inr lock_reentrancy_eq_Inr invoice_exists_def split: if_splits)
next
  case (Some i)
  let ?s0 = "set_lock True s" and ?i = "i\<lparr> status := Defaulted \<rparr>"
  have g: "\<not> is_paused s" "f \<in> auths e" "f \<in> fst ` set (get_invoice_funders n s)" "due_date i \<le> timestamp e"
    and rest: "and_then (require_funded (status i)) (\<lambda>_.
           and_then (sync_nft_state e n (save_invoice ?i ?s0)) (\<lambda>s1.
           and_then (refund_funders e n ?i (get_invoice_funders n s) s1) (\<lambda>s2.
           and_then (penalize_payer e n ?i (claim_insurance e f n ?i s2)) (\<lambda>s3.
           Inr (unlock_reentrancy (publish (defaulted_event e f ?i (total_refunded ?i (get_invoice_funders n s))) s3)))))) = Inr s'"
    using assms Some
    by (simp_all add: claim_default_def and_then_eq_Inr [where m = "lock_reentrancy s"] lock_reentrancy_eq_Inr
        and_then_eq_Inr [where m = "require_auth e f"] require_auth_eq_Inr invoice_exists_def load_invoice_def Let_def
        split: if_splits)
  from rest show ?thesis using that [OF Some g]
    unfolding and_then_eq_Inr require_funded_eq_Inr by blast
qed

lemma claim_default_frame:
  assumes "claim_default e f n s = Inr s'"
  obtains i sc where "invoice_at (invs s) n = Some i" "status i = Funded"
    "invs s' = (invs s)\<lparr> invoice_at := (invoice_at (invs s))(inv_id i \<mapsto> i\<lparr> status := Defaulted \<rparr>),
       pre_default_payer_score := (pre_default_payer_score (invs s))(n \<mapsto> sc) \<rparr>"
    "ques s' = ques s" "mss s' = mss s"
proof -
  from assms obtain i s1 s2 s3 ev where i: "invoice_at (invs s) n = Some i" "status i = Funded"
    and s1: "sync_nft_state e n (save_invoice (i\<lparr> status := Defaulted \<rparr>) (set_lock True s)) = Inr s1"
    and s2: "refund_funders e n (i\<lparr> status := Defaulted \<rparr>) (get_invoice_funders n s) s1 = Inr s2"
    and s3: "penalize_payer e n (i\<lparr> status := Defaulted \<rparr>) (claim_insurance e f n (i\<lparr> status := Defaulted \<rparr>) s2) = Inr s3"
    and s': "s' = unlock_reentrancy (publish ev s3)"
    by (rule claim_default_eq_Inr) blast
  note fr = sync_nft_state_fields [OF s1] refund_funders_frame [OF s2] penalize_payer_frame [OF s3]
  show ?thesis
    by (rule that [OF i]) (use fr in \<open>simp_all add: s' store_defs\<close>)
qed

lemma appeal_default_eq_Inr:
  assumes "appeal_default e n h s = Inr s'"
  obtains i sc where "invoice_at (invs s) n = Some i" "\<not> is_paused s" "payer i \<in> auths e" "status i = Defaulted"
    "appeal (invs s) n = None" "timestamp e \<le> sat_add_u64 (due_date i) APPEAL_WINDOW_SECONDS"
    "pre_default_payer_score (invs s) n = Some sc \<or>
     pre_default_payer_score (invs s) n = None \<and> sc = fst (get_payer_score e (payer i) s)"
    "invs s' = (invs s)\<lparr> invoice_at := (invoice_at (invs s))(inv_id i \<mapsto> i\<lparr> status := Appealed \<rparr>),
       appeal := (appeal (invs s))(n \<mapsto> \<lparr> evidence_hash = h, appealed_at = timestamp e, pre_default_score = sc \<rparr>) \<rparr>"
    "inst s' = inst s" "ques s' = ques s" "mss s' = mss s"
proof (cases "invoice_at (invs s) n")
  case None
  then show ?thesis using assms by (simp add: appeal_default_def invoice_exists_def split: if_splits)
next
  case (Some i)
  obtain sc s1 where sc: "(case pre_default_payer_score (invs s) n of
      Some sc \<Rightarrow> (sc, s) | None \<Rightarrow> get_payer_score e (payer i) s) = (sc, s1)" by fastforce
  have g: "\<not> is_paused s" "payer i \<in> auths e" "appeal (invs s) n = None" "status i = Defaulted"
    "timestamp e \<le> sat_add_u64 (due_date i) APPEAL_WINDOW_SECONDS"
    and "and_then (to_u32 (timestamp e)) (\<lambda>now.
      and_then (sync_nft_state e n (save_invoice (i\<lparr> status := Appealed \<rparr>)
        (save_appeal n \<lparr> evidence_hash = h, appealed_at = now, pre_default_score = sc \<rparr> s1))) (\<lambda>s3.
      Inr (publish (EvDefaultAppealed n (payer i) h (timestamp e)) s3))) = Inr s'"
    using assms Some
    by (simp_all add: appeal_default_def and_then_eq_Inr [where m = "require_payer_by_id e n s"]
        require_payer_by_id_eq_Inr invoice_exists_def load_invoice_def sc Let_def split: if_splits)
  then obtain s3 where s3: "sync_nft_state e n (save_invoice (i\<lparr> status := Appealed \<rparr>)
        (save_appeal n \<lparr> evidence_hash = h, appealed_at = timestamp e, pre_default_score = sc \<rparr> s1)) = Inr s3"
    and s': "s' = publish (EvDefaultAppealed n (payer i) h (timestamp e)) s3"
    unfolding and_then_eq_Inr to_u32_eq_Inr by blast
  have s1: "invs s1 = invs s" "inst s1 = inst s" "ques s1 = ques s" "mss s1 = mss s"
    "pre_default_payer_score (invs s) n = Some sc \<or>
     pre_default_payer_score (invs s) n = None \<and> sc = fst (get_payer_score e (payer i) s)"
    using sc by (auto split: option.splits dest: get_payer_score_pair)
  show ?thesis
    by (rule that [OF Some g(1,2,4,3,5) s1(5)])
      (use sync_nft_state_fields [OF s3] s1 in \<open>simp_all add: s' publish_def save_appeal_def save_invoice_def\<close>)
qed

lemma record_admin_action_frame:
  assumes "record_admin_action e act s = Inr s'"
  shows "inst s' = inst s" "invs s' = invs s" "idxs s' = idxs s" "reps s' = reps s" "ques s' = ques s"
    "toks s' = toks s" "stats s' = stats s" "nfts s' = nfts s" "orcs s' = orcs s" "mss s' = mss s" "wld s' = wld s"
  using assms by (auto simp: record_admin_action_def Let_def and_then_eq_Inr split: option.splits)

lemma restore_reputation_frame:
  assumes "restore_reputation e i sc s = Inr s'"
  shows "inst s' = inst s" "invs s' = invs s" "ques s' = ques s" "mss s' = mss s" "nfts s' = nfts s" "toks s' = toks s"
proof -
  obtain s1 where s1: "set_payer_score e (payer i) sc s = Inr s1"
    and s': "s' = set_reputation ((get_reputation (payer i) s1)\<lparr> invoices_defaulted :=
      invoices_defaulted (get_reputation (payer i) s1) - 1 \<rparr>) s1"
    using assms unfolding restore_reputation_def and_then_eq_Inr Let_def by blast
  show "inst s' = inst s" "invs s' = invs s" "ques s' = ques s" "mss s' = mss s" "nfts s' = nfts s" "toks s' = toks s"
    using set_payer_score_frame [OF s1] by (simp_all add: s')
qed

lemma resolve_appeal_eq_Inr:
  assumes "resolve_appeal e n upheld s = Inr s'"
  obtains i ap a s0 where "admin (inst s) = Some a" "a \<in> auths e" "invoice_at (invs s) n = Some i" "status i = Appealed"
    "appeal (invs s) n = Some ap" "record_admin_action e ''resolve_appeal'' s = Inr s0"
    "\<exists>s1. (if upheld then restore_reputation e i (pre_default_score ap) s0 else Inr s0) = Inr s1 \<and> reps s' = reps s1"
    "invs s' = invs (save_invoice (i\<lparr> status := Defaulted \<rparr>) s)"
    "inst s' = inst s" "ques s' = ques s" "mss s' = mss s"
proof -
  obtain a s0 where a: "admin (inst s) = Some a" "a \<in> auths e" and s0: "record_admin_action e ''resolve_appeal'' s = Inr s0"
    and r: "(if \<not> invoice_exists n s0 then err InvoiceNotFound
     else and_then (load_invoice n s0) (\<lambda>i. if status i \<noteq> Appealed then err NotDefaulted
       else and_then (ok_or_err (appeal (invs s0) n) InvoiceNotFound) (\<lambda>ap.
         and_then (if upheld then restore_reputation e i (pre_default_score ap) s0 else Inr s0) (\<lambda>s1.
         and_then (sync_nft_state e n (save_invoice (i\<lparr> status := Defaulted \<rparr>) s1)) (\<lambda>s2.
         Inr (publish (EvAppealResolved n (payer i) upheld (timestamp e)) s2)))))) = Inr s'"
    using assms unfolding resolve_appeal_def and_then_eq_Inr [where m = "require_admin e s"]
      and_then_eq_Inr [where m = "record_admin_action e ''resolve_appeal'' s"] require_admin_eq_Inr by blast
  note f0 = record_admin_action_frame [OF s0]
  obtain i where i0: "invoice_at (invs s) n = Some i"
    using r f0 by (cases "invoice_at (invs s) n") (simp_all add: invoice_exists_def)
  have "status i = Appealed" and r': "and_then (ok_or_err (appeal (invs s) n) InvoiceNotFound) (\<lambda>ap.
         and_then (if upheld then restore_reputation e i (pre_default_score ap) s0 else Inr s0) (\<lambda>s1.
         and_then (sync_nft_state e n (save_invoice (i\<lparr> status := Defaulted \<rparr>) s1)) (\<lambda>s2.
         Inr (publish (EvAppealResolved n (payer i) upheld (timestamp e)) s2)))) = Inr s'"
    using r i0 f0 by (simp_all add: invoice_exists_def load_invoice_def split: if_splits)
  then obtain ap s1 s2 where i: "invoice_at (invs s) n = Some i" "status i = Appealed" "appeal (invs s) n = Some ap"
    and s1: "(if upheld then restore_reputation e i (pre_default_score ap) s0 else Inr s0) = Inr s1"
    and s2: "sync_nft_state e n (save_invoice (i\<lparr> status := Defaulted \<rparr>) s1) = Inr s2"
    and s': "s' = publish (EvAppealResolved n (payer i) upheld (timestamp e)) s2"
    using i0 unfolding and_then_eq_Inr ok_or_err_eq_Inr by blast
  have f1: "inst s1 = inst s0" "invs s1 = invs s0" "ques s1 = ques s0" "mss s1 = mss s0"
    using s1 restore_reputation_frame [of e i "pre_default_score ap" s0 s1] by (auto split: if_splits)
  note f2 = sync_nft_state_fields [OF s2]
  show ?thesis
    by (rule that [OF a i s0]) (use s1 f0 f1 f2 in \<open>auto simp: s' publish_def save_invoice_def\<close>)
qed

lemma require_disputable_eq_Inr:
  "require_disputable st = Inr u \<longleftrightarrow> st = Pending \<or> st = PartiallyFunded \<or> st = Funded"
  by (cases st) (auto simp: require_disputable_def)

lemma dispute_invoice_eq_Inr:
  assumes "dispute_invoice e n h s = Inr s'"
  obtains i where "invoice_at (invs s) n = Some i" "\<not> is_paused s" "payer i \<in> auths e" "dispute (invs s) n = None"
    "status i = Pending \<or> status i = PartiallyFunded \<or> status i = Funded"
    "invs s' = (invs s)\<lparr> invoice_at := (invoice_at (invs s))(inv_id i \<mapsto> i\<lparr> status := Disputed \<rparr>),
       dispute := (dispute (invs s))(n \<mapsto> \<lparr> reason_hash = h, disputed_at = sequence e \<rparr>) \<rparr>"
    "inst s' = inst s" "ques s' = ques s" "mss s' = mss s"
proof (cases "invoice_at (invs s) n")
  case None
  then show ?thesis using assms by (simp add: dispute_invoice_def invoice_exists_def split: if_splits)
next
  case (Some i)
  have g: "\<not> is_paused s" "payer i \<in> auths e" "dispute (invs s) n = None"
    and "and_then (require_disputable (status i)) (\<lambda>_.
      and_then (sync_nft_state e n (save_invoice (i\<lparr> status := Disputed \<rparr>)
        (save_dispute n \<lparr> reason_hash = h, disputed_at = sequence e \<rparr> s))) (\<lambda>s2.
      Inr (publish (EvInvoiceDisputed n (payer i) h (timestamp e)) s2))) = Inr s'"
    using assms Some
    by (simp_all add: dispute_invoice_def and_then_eq_Inr [where m = "require_payer_by_id e n s"]
        require_payer_by_id_eq_Inr invoice_exists_def load_invoice_def Let_def split: if_splits)
  then obtain s2 where d: "status i = Pending \<or> status i = PartiallyFunded \<or> status i = Funded"
    and s2: "sync_nft_state e n (save_invoice (i\<lparr> status := Disputed \<rparr>)
        (save_dispute n \<lparr> reason_hash = h, disputed_at = sequence e \<rparr> s)) = Inr s2"
    and s': "s' = publish (EvInvoiceDisputed n (payer i) h (timestamp e)) s2"
    unfolding and_then_eq_Inr require_disputable_eq_Inr by blast
  show ?thesis
    by (rule that [OF Some g d])
      (use sync_nft_state_fields [OF s2] in \<open>simp_all add: s' publish_def save_dispute_def save_invoice_def\<close>)
qed

lemma refund_payer_frame:
  assumes "refund_payer e n i s = Inr s'"
  shows "inst s' = inst s" "invs s' = invs s" "ques s' = ques s" "mss s' = mss s"
  using assms pay_or_escrow_frame [of e "token i" "payer i" "amount_paid i" n s]
  by (auto simp: refund_payer_def and_then_eq_Inr publish_def split: if_splits)

lemma uphold_dispute_frame:
  assumes "uphold_dispute e n i s = Inr s'"
  shows "inst s' = inst s" "invs s' = invs (save_invoice i s)" "ques s' = ques s" "mss s' = mss s"
proof -
  obtain s1 where s1: "refund_funders e n i (get_invoice_funders n s) (save_invoice i s) = Inr s1"
    and s': "refund_payer e n i s1 = Inr s'"
    using assms unfolding uphold_dispute_def and_then_eq_Inr by blast
  show "inst s' = inst s" "invs s' = invs (save_invoice i s)" "ques s' = ques s" "mss s' = mss s"
    using refund_funders_frame [OF s1] refund_payer_frame [OF s'] by simp_all
qed

lemma status_from_funding_cases:
  "status_from_funding i = Funded \<or> status_from_funding i = PartiallyFunded \<or> status_from_funding i = Pending"
  by (simp add: status_from_funding_def)

lemma resolve_dispute_eq_Inr:
  assumes "resolve_dispute e n h r s = Inr s'"
  obtains i a s1 where "admin (inst s) = Some a" "a \<in> auths e" "invoice_at (invs s) n = Some i" "status i = Disputed"
    "r = 1 \<or> r = 2" "record_admin_action e ''resolve_dispute'' (set_lock True s) = Inr s1"
    "r = 1 \<longrightarrow> (\<exists>s2 s3 ev. uphold_dispute e n (cancelled i) s1 = Inr s2 \<and>
       sync_nft_state e n (save_invoice (cancelled i) s2) = Inr s3 \<and> s' = unlock_reentrancy (publish ev s3))"
    "invs s' = invs (save_invoice (i\<lparr> status := if r = 1 then Cancelled else status_from_funding i \<rparr>) s)"
    "ques s' = ques s" "mss s' = mss s"
proof -
  let ?s0 = "set_lock True s"
  have lock: "lock_reentrancy s = Inr ?s0" "admin (inst ?s0) = admin (inst s)"
    using assms by (cases "lock_reentrancy s"; simp add: resolve_dispute_def lock_reentrancy_def set_lock_def split: if_splits)+
  obtain a s1 where a: "admin (inst s) = Some a" "a \<in> auths e"
    and s1: "record_admin_action e ''resolve_dispute'' ?s0 = Inr s1"
    and rest: "(if \<not> invoice_exists n s1 then err InvoiceNotFound
     else and_then (load_invoice n s1) (\<lambda>i. if status i \<noteq> Disputed then err NotDisputed
       else and_then (if r = 1 then and_then (uphold_dispute e n (cancelled i) s1) (\<lambda>s2. Inr (cancelled i, s2))
            else if r = 2 then Inr (i\<lparr> status := status_from_funding i \<rparr>, s1) else err Unauthorized) (\<lambda>(i', s2).
         and_then (sync_nft_state e n (save_invoice i' s2)) (\<lambda>s3.
         Inr (unlock_reentrancy (publish (EvDisputeResolved n h r (timestamp e)) s3)))))) = Inr s'"
    using assms
    unfolding resolve_dispute_def lock(1) and_then_simps and_then_eq_Inr [where m = "require_admin e ?s0"]
      and_then_eq_Inr [where m = "record_admin_action e ''resolve_dispute'' ?s0"] require_admin_eq_Inr lock(2) by blast
  note f1 = record_admin_action_frame [OF s1]
  obtain i where i: "invoice_at (invs s) n = Some i" "status i = Disputed"
    and rest': "and_then (if r = 1 then and_then (uphold_dispute e n (cancelled i) s1) (\<lambda>s2. Inr (cancelled i, s2))
            else if r = 2 then Inr (i\<lparr> status := status_from_funding i \<rparr>, s1) else err Unauthorized) (\<lambda>(i', s2).
         and_then (sync_nft_state e n (save_invoice i' s2)) (\<lambda>s3.
         Inr (unlock_reentrancy (publish (EvDisputeResolved n h r (timestamp e)) s3)))) = Inr s'"
    using rest f1(2)
    by (cases "invoice_at (invs s) n") (simp_all add: invoice_exists_def load_invoice_def split: if_splits)
  then obtain i' s2 s3 where m: "(if r = 1 then and_then (uphold_dispute e n (cancelled i) s1) (\<lambda>s2. Inr (cancelled i, s2))
            else if r = 2 then Inr (i\<lparr> status := status_from_funding i \<rparr>, s1) else err Unauthorized) = Inr (i', s2)"
    and s3: "sync_nft_state e n (save_invoice i' s2) = Inr s3"
    and s': "s' = unlock_reentrancy (publish (EvDisputeResolved n h r (timestamp e)) s3)"
    unfolding and_then_eq_Inr [where m = "if r = 1 then _ else _"] by (clarsimp simp del: One_nat_def simp: and_then_eq_Inr)
  have "inv_id i' = inv_id i"
    "r = 1 \<and> i' = cancelled i \<and> uphold_dispute e n (cancelled i) s1 = Inr s2 \<or>
        r = 2 \<and> i' = i\<lparr> status := status_from_funding i \<rparr> \<and> s2 = s1"
    using m by (auto simp: and_then_eq_Inr cancelled_def split: if_splits)
  then show ?thesis
  proof (elim disjE conjE)
    assume up: "r = 1" "i' = cancelled i" "uphold_dispute e n (cancelled i) s1 = Inr s2"
    note f = sync_nft_state_fields [OF s3] uphold_dispute_frame [OF up(3)] f1
    show ?thesis
    proof (rule that [OF a i _ s1])
      show "r = 1 \<longrightarrow> (\<exists>s2 s3 ev. uphold_dispute e n (cancelled i) s1 = Inr s2 \<and>
       sync_nft_state e n (save_invoice (cancelled i) s2) = Inr s3 \<and> s' = unlock_reentrancy (publish ev s3))"
        using up s3 s' by blast
    qed (use up(1,2) f in \<open>simp_all add: s' unlock_reentrancy_def publish_def save_invoice_def cancelled_def set_lock_def\<close>)
  next
    assume rej: "r = 2" "i' = i\<lparr> status := status_from_funding i \<rparr>" "s2 = s1"
    show ?thesis
      by (rule that [OF a i _ s1]) (use rej sync_nft_state_fields [OF s3] f1 in
          \<open>simp_all add: s' unlock_reentrancy_def publish_def save_invoice_def set_lock_def\<close>)
  qed
qed

lemma auto_resolve_dispute_eq_Inr:
  assumes "auto_resolve_dispute e n s = Inr s'"
  obtains i d c where "invoice_at (invs s) n = Some i" "status i = Disputed" "dispute (invs s) n = Some d"
    "get_config s = Some c" "sat_add_u64 (disputed_at d) (dispute_timeout_ledgers c) \<le> sequence e"
    "invs s' = invs (save_invoice (i\<lparr> status := status_from_funding i \<rparr>) s)"
    "inst s' = inst s" "ques s' = ques s" "mss s' = mss s"
proof (cases "invoice_at (invs s) n")
  case None
  then show ?thesis using assms by (simp add: auto_resolve_dispute_def invoice_exists_def split: if_splits)
next
  case (Some i)
  obtain d c s1 where i: "status i = Disputed" "dispute (invs s) n = Some d" "get_config s = Some c"
    "sat_add_u64 (disputed_at d) (dispute_timeout_ledgers c) \<le> sequence e"
    and s1: "sync_nft_state e n (save_invoice (i\<lparr> status := status_from_funding i \<rparr>) s) = Inr s1"
    and s': "s' = publish (EvDisputeResolved n zero_hash 2 (timestamp e)) s1"
    using assms Some
    by (auto simp: auto_resolve_dispute_def invoice_exists_def load_invoice_def and_then_eq_Inr ok_or_err_eq_Inr
        split: if_splits)
  show ?thesis
    by (rule that [OF Some i]) (use sync_nft_state_fields [OF s1] in \<open>simp_all add: s' publish_def\<close>)
qed

end
