(* ===== verification/MockLedger.thy ===== *)
theory MockLedger
  imports TokenSafety
begin

text \<open>
  The repository's own token contract (src/contracts/tests/mocks/mock_token.rs), the SEP-41 token
  its integration tests deploy: balances, the one-shot transfer failure, frozen holders. A ledger
  is a set of such tokens by address. It discharges the laws of the token interface, so what is
  proved from them holds for a real implementation, and it serves as the ledger of the examples.
\<close>

record mock_token =
  mock_balances :: "address \<rightharpoonup> int"
  fail_next :: bool
  mock_frozen :: "address \<rightharpoonup> bool"

type_synonym mock_ledger = "address \<rightharpoonup> mock_token"

definition mock_balance :: "mock_token \<Rightarrow> address \<Rightarrow> int" where
  "mock_balance m a = unwrap_or (mock_balances m a) 0"

definition mock_transfer ::
    "mock_token \<Rightarrow> address set \<Rightarrow> address \<Rightarrow> address \<Rightarrow> int \<Rightarrow> mock_token result" where
  "mock_transfer m as from to a =
     (if from \<notin> as then Inl Trap
      else if fail_next m then Inl Trap
      else if \<not> mock_balance m from \<ge> a then Inl Trap
      else and_then (expect (checked_sub (mock_balance m from) a)) (\<lambda>fb.
           let m1 = m\<lparr> mock_balances := (mock_balances m)(from \<mapsto> fb) \<rparr> in
           and_then (expect (checked_add (mock_balance m1 to) a)) (\<lambda>tb.
           Inr (m1\<lparr> mock_balances := (mock_balances m1)(to \<mapsto> tb) \<rparr>))))"

definition mock_decimals :: "mock_token \<Rightarrow> nat" where "mock_decimals m = 7"

definition mock_authorized :: "mock_token \<Rightarrow> address \<Rightarrow> bool" where
  "mock_authorized m a = (mock_frozen m a = None)"

definition mock_set_authorized :: "mock_token \<Rightarrow> address \<Rightarrow> bool \<Rightarrow> mock_token" where
  "mock_set_authorized m a b =
     m\<lparr> mock_frozen := (mock_frozen m)(a := if b then None else Some True) \<rparr>"

definition mock_mint :: "mock_token \<Rightarrow> address \<Rightarrow> int \<Rightarrow> mock_token result" where
  "mock_mint m to a =
     and_then (expect (checked_add (mock_balance m to) a)) (\<lambda>b.
     Inr (m\<lparr> mock_balances := (mock_balances m)(to \<mapsto> b) \<rparr>))"

definition mock_burn :: "mock_token \<Rightarrow> address set \<Rightarrow> address \<Rightarrow> int \<Rightarrow> mock_token result" where
  "mock_burn m as from a =
     (if from \<notin> as then Inl Trap
      else if \<not> mock_balance m from \<ge> a then Inl Trap
      else and_then (expect (checked_sub (mock_balance m from) a)) (\<lambda>b.
           Inr (m\<lparr> mock_balances := (mock_balances m)(from \<mapsto> b) \<rparr>)))"

definition fail_next_transfer :: "mock_token \<Rightarrow> mock_token" where
  "fail_next_transfer m = m\<lparr> fail_next := True \<rparr>"

definition mock_ext :: "mock_ledger ext" where
  "mock_ext = no_contracts\<lparr>
     x_balance := (\<lambda>w t a. map_option (\<lambda>m. mock_balance m a) (w t)),
     x_transfer := (\<lambda>w t as from to a.
       case w t of
         None \<Rightarrow> None
       | Some m \<Rightarrow> (case mock_transfer m as from to a of Inl _ \<Rightarrow> None | Inr m' \<Rightarrow> Some (w(t \<mapsto> m')))),
     x_decimals := (\<lambda>w t. map_option mock_decimals (w t)),
     x_authorized := (\<lambda>w t a. map_option (\<lambda>m. mock_authorized m a) (w t)) \<rparr>"

text \<open>A token with one holder, for the examples.\<close>

definition mock_holding :: "address \<Rightarrow> int \<Rightarrow> mock_token" where
  "mock_holding a v = \<lparr> mock_balances = [a \<mapsto> v], fail_next = False, mock_frozen = Map.empty \<rparr>"

section \<open>The mock token is a SEP-41 token\<close>

lemma mock_transfer_eq_Inr:
  "mock_transfer m as from to a = Inr m' \<Longrightarrow>
     from \<in> as \<and> a \<le> mock_balance m from \<and>
     mock_balance m' b = mock_balance m b - (if b = from then a else 0) + (if b = to then a else 0)"
  by (auto simp: mock_transfer_def mock_balance_def Let_def res_simps checked_sub_def split: if_splits)

lemma mock_ext_transfer:
  "x_transfer mock_ext w t as from to a = Some w' \<longleftrightarrow>
     (\<exists>m m'. w t = Some m \<and> mock_transfer m as from to a = Inr m' \<and> w' = w(t \<mapsto> m'))"
  by (auto simp: mock_ext_def split: option.splits sum.splits)

lemma mock_ext_balance: "x_balance mock_ext w t a = map_option (\<lambda>m. mock_balance m a) (w t)"
  by (simp add: mock_ext_def)

interpretation mock_sep41: sep41_spend mock_ext
proof
  fix w :: mock_ledger and t as "from" to a w' b v
  assume "x_transfer mock_ext w t as from to a = Some w'"
  then obtain m m' where m: "w t = Some m" "mock_transfer m as from to a = Inr m'" "w' = w(t \<mapsto> m')"
    by (auto simp: mock_ext_transfer)
  note step = mock_transfer_eq_Inr [OF m(2)]
  show "from \<in> as" using step by simp
  show "x_balance mock_ext w' t b = Some (v - (if b = from then a else 0) + (if b = to then a else 0))"
    if "x_balance mock_ext w t b = Some v"
    using that m step [of b] by (auto simp: mock_ext_balance)
  show "x_balance mock_ext w' t' b = x_balance mock_ext w t' b" if "t' \<noteq> t" for t'
    using that m by (simp add: mock_ext_balance)
  show "a \<le> v" if "x_balance mock_ext w t from = Some v"
    using that m step by (auto simp: mock_ext_balance)
qed

text \<open>A negative amount is not rejected: the mock moves tokens the other way.\<close>

lemma mock_accepts_negative:
  assumes "from \<in> as" and "from \<noteq> to" and "0 \<le> a" and "mock_balance m to = v" and "in_i128 (v - a)"
    and "mock_balance m from = u" and "in_i128 (u + a)" and "- a \<le> u" and "\<not> fail_next m"
  shows "\<exists>m'. mock_transfer m as from to (- a) = Inr m' \<and> mock_balance m' from = u + a \<and>
    mock_balance m' to = v - a"
  using assms by (auto simp: mock_transfer_def Let_def mock_balance_def checked_sub_def checked_add_def)

section \<open>Properties\<close>

text \<open>
  C6: over a SEP-41 token, a successful payout of a positive amount to another address either
  moves exactly that amount from the contract's balance to the recipient's, changes no other
  balance of the token and leaves the escrow book alone, or books exactly that amount for the
  recipient and moves nothing; the book stays the sum of its entries and the contract still holds
  at least everything it has escrowed of the token.
\<close>

theorem payout_conserves_escrow:
  assumes "sep41 (ext e)" and "pay_or_escrow e t to a n s = Inr (b, s')"
    and "escrow_ok (toks s)" and "to \<noteq> self e" and "0 < a"
    and "x_balance (ext e) (wld s) t (self e) = Some v"
  shows "escrow_ok (toks s') \<and> escrow_covered e t s' \<and>
    (if b then x_balance (ext e) (wld s') t (self e) = Some (v - a) \<and>
       (\<forall>u. x_balance (ext e) (wld s) t to = Some u \<longrightarrow> x_balance (ext e) (wld s') t to = Some (u + a)) \<and>
       (\<forall>c u. c \<noteq> self e \<longrightarrow> c \<noteq> to \<longrightarrow> x_balance (ext e) (wld s) t c = Some u \<longrightarrow>
         x_balance (ext e) (wld s') t c = Some u) \<and>
       toks s' = toks s
     else wld s' = wld s \<and> pending_payout to t s' = pending_payout to t s + a \<and>
       pending_payout_total t s' = pending_payout_total t s + a)"
  using sep41.pay_or_escrow_correct [OF assms(1) refl assms(2-6)]
    sep41.pay_or_escrow_moves [OF assms(1) refl _ assms(5), of t to n s s'] assms(2-4)
  by (cases b) simp_all

theorem payout_conserves_escrow_witness:
  "let e = call_env mock_ext 0 0 {};
       s = fresh_state [Address 9 \<mapsto> mock_holding (Address 0) 100]
   in sep41 (ext e) \<and> escrow_ok (toks s) \<and>
     (\<exists>s'. pay_or_escrow e (Address 9) (Address 1) 30 4 s = Inr (True, s') \<and>
       x_balance (ext e) (wld s') (Address 9) (Address 0) = Some 70 \<and>
       x_balance (ext e) (wld s') (Address 9) (Address 1) = Some 30)"
proof -
  let ?e = "call_env mock_ext 0 0 {}"
  let ?s = "fresh_state [Address 9 \<mapsto> mock_holding (Address 0) 100]"
  have ok: "sep41 (ext ?e)" "escrow_ok (toks ?s)" "self ?e = Address 0"
    "x_balance (ext ?e) (wld ?s) (Address 9) (self ?e) = Some 100"
    by (simp_all add: call_env_def mock_sep41.sep41_axioms fresh_state_def escrow_ok_def mock_ext_balance
        mock_holding_def mock_balance_def width_defs)
  obtain s' where s': "pay_or_escrow ?e (Address 9) (Address 1) 30 4 ?s = Inr (True, s')"
    by (simp add: pay_or_escrow_def ensure_spendable_def token_balance_def is_authorized_def
        query_authorized_def token_transfer_def pending_payout_total_def call_env_def fresh_state_def
        mock_ext_def mock_holding_def mock_balance_def mock_authorized_def mock_transfer_def
        arith_defs width_defs Let_def)
  have "x_balance (ext ?e) (wld ?s) (Address 9) (Address 1) = Some 0"
    by (simp add: call_env_def fresh_state_def mock_ext_balance mock_holding_def mock_balance_def)
  then show ?thesis
    using ok s' payout_conserves_escrow [OF ok(1) s' ok(2) _ _ ok(4)] by (auto simp: Let_def)
qed

text \<open>
  C7: over a SEP-41 token, claiming an escrowed payout transfers exactly the recorded amount,
  removes the entry, keeps the book the sum of its entries and still leaves the contract holding
  everything escrowed for the others.
\<close>

theorem claim_releases_escrow:
  assumes "sep41 (ext e)" and "claim_pending e r t s = Inr (a, s')"
    and "escrow_ok (toks s)" and "r \<noteq> self e"
    and "x_balance (ext e) (wld s) t (self e) = Some v"
  shows "a = pending_payout r t s \<and> 0 < a \<and> escrow_ok (toks s') \<and> escrow_covered e t s' \<and>
    pending_payout r t s' = 0 \<and> x_balance (ext e) (wld s') t (self e) = Some (v - a)"
  by (rule sep41.claim_pending_correct [OF assms(1) refl assms(2-5)])

theorem claim_releases_escrow_witness:
  "let e = call_env mock_ext 0 0 {};
       s = set_pending (Address 1) (Address 9) 30 30
             (fresh_state [Address 9 \<mapsto> mock_holding (Address 0) 100])
   in sep41 (ext e) \<and> escrow_ok (toks s) \<and>
     (\<exists>s'. claim_pending e (Address 1) (Address 9) s = Inr (30, s') \<and>
       x_balance (ext e) (wld s') (Address 9) (Address 0) = Some 70)"
proof -
  let ?e = "call_env mock_ext 0 0 {}"
  let ?f = "fresh_state [Address 9 \<mapsto> mock_holding (Address 0) 100]"
  let ?s = "set_pending (Address 1) (Address 9) 30 30 ?f"
  have f: "escrow_ok (toks ?f)" "pending_payout_total (Address 9) ?f = 0" "pending_payout (Address 1) (Address 9) ?f = 0"
    by (simp_all add: fresh_state_def escrow_ok_def pending_payout_total_def pending_payout_def width_defs)
  have ok: "sep41 (ext ?e)" "escrow_ok (toks ?s)" "self ?e = Address 0"
    "x_balance (ext ?e) (wld ?s) (Address 9) (self ?e) = Some 100"
    using set_pending_escrow_ok [OF f(1), of 30 30 "Address 9" "Address 1"] f(2,3)
    by (simp_all add: call_env_def mock_sep41.sep41_axioms width_defs)
      (simp add: fresh_state_def mock_ext_balance mock_holding_def mock_balance_def)
  obtain s' where s': "claim_pending ?e (Address 1) (Address 9) ?s = Inr (30, s')"
    by (simp add: claim_pending_def ensure_spendable_def token_balance_def require_authorized_def
        query_authorized_def token_transfer_def pending_payout_total_def pending_payout_def call_env_def
        fresh_state_def mock_ext_def mock_holding_def mock_balance_def mock_authorized_def
        mock_transfer_def set_pending_def arith_defs width_defs Let_def)
  show ?thesis
    using ok s' claim_releases_escrow [OF ok(1) s' ok(2) _ ok(4)] by (auto simp: Let_def)
qed

end
