(* ===== verification/Multisig.thy ===== *)
theory Multisig
  imports Access
begin

text \<open>
  The multi-signature admin (src/contracts/invoice_liquidity/src/multisig.rs) and the entry points
  of lib.rs that expose it. A proposal collects approvals of configured signers until the
  threshold; executing it applies its action; a signer rotation waits behind a timelock.

  Shown here: approvals on a proposal are distinct, a proposal is executed at most once and only
  with the threshold, at most one live proposal exists per action, and a rotation applied to the
  signer set it was scheduled for keeps that set valid. A rotation that outlives a change of the
  signer set may leave a set no proposal can ever pass.
\<close>

definition MULTISIG_WINDOW_LEDGERS :: nat where "MULTISIG_WINDOW_LEDGERS = 17280"
definition ROTATION_TIMELOCK_LEDGERS :: nat where "ROTATION_TIMELOCK_LEDGERS = 34560"

section \<open>Checks\<close>

definition is_valid_config :: "address list \<Rightarrow> nat \<Rightarrow> bool" where
  "is_valid_config sgs n =
     (if sgs = [] \<or> n = 0 \<or> n > length sgs then False
      else \<not> (\<exists>i \<in> set [0..<length sgs]. \<exists>j \<in> set [i + 1..<length sgs]. sgs ! i = sgs ! j))"

definition is_signer :: "address list \<Rightarrow> address \<Rightarrow> bool" where
  "is_signer sgs a = List.member sgs a"

definition has_signed :: "multisig_proposal \<Rightarrow> address \<Rightarrow> bool" where
  "has_signed p a = List.member (signers_approved p) a"

definition threshold_reached :: "multisig_proposal \<Rightarrow> nat \<Rightarrow> bool" where
  "threshold_reached p n \<longleftrightarrow> length (signers_approved p) \<ge> n"

definition is_expired :: "'w env \<Rightarrow> multisig_proposal \<Rightarrow> bool" where
  "is_expired e p \<longleftrightarrow> sequence e \<ge> expires_at p"

definition load_config :: "'w state \<Rightarrow> multisig_admin result" where
  "load_config s = ok_or_err (multisig (mss s)) MultisigNotConfigured"

definition require_signer :: "'w env \<Rightarrow> multisig_admin \<Rightarrow> address \<Rightarrow> unit result" where
  "require_signer e c a =
     and_then (require_auth e a) (\<lambda>_.
     if \<not> is_signer (signers c) a then err NotAuthorizedSigner else Inr ())"

section \<open>Configuration and proposals\<close>

definition multisig_initialize :: "'w env \<Rightarrow> address list \<Rightarrow> nat \<Rightarrow> 'w state \<Rightarrow> 'w state result" where
  "multisig_initialize e sgs n s =
     (if multisig (mss s) \<noteq> None then err MultisigAlreadyConfigured
      else if \<not> is_valid_config sgs n then err InvalidMultisigConfig
      else and_then (require_admin e s) (\<lambda>_.
        Inr (s\<lparr> mss := (mss s)\<lparr> multisig := Some \<lparr> signers = sgs, threshold = n \<rparr>,
                              next_proposal_id := Some 1 \<rparr> \<rparr>)))"

definition has_live_proposal :: "'w env \<Rightarrow> admin_action \<Rightarrow> 'w state \<Rightarrow> bool" where
  "has_live_proposal e act s =
     (case pending_action (mss s) act of
        Some existing_id \<Rightarrow>
          (case proposal (mss s) existing_id of
             Some existing \<Rightarrow> proposal_state existing = ProposalPending \<and> \<not> is_expired e existing
           | None \<Rightarrow> False)
      | None \<Rightarrow> False)"

definition propose :: "'w env \<Rightarrow> address \<Rightarrow> admin_action \<Rightarrow> 'w state \<Rightarrow> ('w, nat) outcome" where
  "propose e proposer act s =
     and_then (load_config s) (\<lambda>c.
     and_then (require_signer e c proposer) (\<lambda>_.
     if has_live_proposal e act s then err DuplicateProposal
     else
       let i = unwrap_or (next_proposal_id (mss s)) 1;
           p = \<lparr> proposal_id = i, action = act, signers_approved = [proposer],
                 proposal_state = ProposalPending, expires_at = sequence e + MULTISIG_WINDOW_LEDGERS \<rparr>
       in and_then (expect (checked_add_u64 i 1)) (\<lambda>i'.
          Inr (i, s\<lparr> mss := (mss s)\<lparr> next_proposal_id := Some i',
                                   proposal := (proposal (mss s))(i \<mapsto> p),
                                   pending_action := (pending_action (mss s))(act \<mapsto> i) \<rparr> \<rparr>))))"

text \<open>
  \<open>sign\<close> and \<open>execute\<close> write \<open>Expired\<close> before they return the error; the host discards that write
  with the failed call.
\<close>

definition live_proposal :: "'w env \<Rightarrow> nat \<Rightarrow> 'w state \<Rightarrow> multisig_proposal result" where
  "live_proposal e i s =
     and_then (ok_or_err (proposal (mss s) i) ProposalNotFound) (\<lambda>p.
     if proposal_state p = ProposalExecuted then err ProposalAlreadyExecuted
     else if is_expired e p then err ProposalExpired
     else Inr p)"

definition put_proposal :: "nat \<Rightarrow> multisig_proposal \<Rightarrow> 'w state \<Rightarrow> 'w state" where
  "put_proposal i p s = s\<lparr> mss := (mss s)\<lparr> proposal := (proposal (mss s))(i \<mapsto> p) \<rparr> \<rparr>"

definition sign :: "'w env \<Rightarrow> address \<Rightarrow> nat \<Rightarrow> 'w state \<Rightarrow> 'w state result" where
  "sign e signer i s =
     and_then (load_config s) (\<lambda>c.
     and_then (require_signer e c signer) (\<lambda>_.
     and_then (live_proposal e i s) (\<lambda>p.
     if has_signed p signer then err AlreadySigned
     else Inr (put_proposal i (p\<lparr> signers_approved := signers_approved p @ [signer] \<rparr>) s))))"

definition execute :: "'w env \<Rightarrow> address \<Rightarrow> nat \<Rightarrow> 'w state \<Rightarrow> ('w, admin_action) outcome" where
  "execute e caller i s =
     and_then (load_config s) (\<lambda>c.
     and_then (require_signer e c caller) (\<lambda>_.
     and_then (live_proposal e i s) (\<lambda>p.
     if \<not> threshold_reached p (threshold c) then err ThresholdNotReached
     else
       let s1 = put_proposal i (p\<lparr> proposal_state := ProposalExecuted \<rparr>) s
       in Inr (action p, s1\<lparr> mss := (mss s1)\<lparr> pending_action :=
            (pending_action (mss s1))(action p := None) \<rparr> \<rparr>))))"

section \<open>Signer rotation\<close>

definition schedule_rotation ::
    "'w env \<Rightarrow> address \<Rightarrow> address \<Rightarrow> 'w state \<Rightarrow> ('w, pending_rotation) outcome" where
  "schedule_rotation e old new s =
     (if rotation (mss s) \<noteq> None then err RotationAlreadyPending
      else and_then (load_config s) (\<lambda>c.
        if \<not> is_signer (signers c) old then err NotAuthorizedSigner
        else if old = new \<or> is_signer (signers c) new then err InvalidMultisigConfig
        else
          let r = \<lparr> old_signer = old, new_signer = new,
                    effective_at = sequence e + ROTATION_TIMELOCK_LEDGERS \<rparr>
          in Inr (r, s\<lparr> mss := (mss s)\<lparr> rotation := Some r \<rparr> \<rparr>)))"

definition finalize_rotation :: "'w env \<Rightarrow> address \<Rightarrow> 'w state \<Rightarrow> ('w, pending_rotation) outcome" where
  "finalize_rotation e caller s =
     and_then (load_config s) (\<lambda>c.
     and_then (require_signer e c caller) (\<lambda>_.
     and_then (ok_or_err (rotation (mss s)) RotationNotFound) (\<lambda>r.
     if sequence e < effective_at r then err RotationTimelockNotExpired
     else
       let new_signers = filter (\<lambda>a. a \<noteq> old_signer r) (signers c) @ [new_signer r]
       in Inr (r, s\<lparr> mss := (mss s)\<lparr> multisig := Some (c\<lparr> signers := new_signers \<rparr>),
                                   rotation := None \<rparr> \<rparr>))))"

definition cancel_rotation :: "'w env \<Rightarrow> address \<Rightarrow> 'w state \<Rightarrow> ('w, pending_rotation) outcome" where
  "cancel_rotation e caller s =
     and_then (load_config s) (\<lambda>c.
     and_then (require_signer e c caller) (\<lambda>_.
     and_then (ok_or_err (rotation (mss s)) RotationNotFound) (\<lambda>r.
     Inr (r, s\<lparr> mss := (mss s)\<lparr> rotation := None \<rparr> \<rparr>))))"

section \<open>Entry points\<close>

definition finalize_signer_rotation :: "'w env \<Rightarrow> address \<Rightarrow> 'w state \<Rightarrow> 'w state result" where
  "finalize_signer_rotation e caller s =
     and_then (finalize_rotation e caller s) (\<lambda>(r, s1).
     Inr (publish (EvSignerRotationFinalized (old_signer r) (new_signer r)) s1))"

definition cancel_signer_rotation :: "'w env \<Rightarrow> address \<Rightarrow> 'w state \<Rightarrow> 'w state result" where
  "cancel_signer_rotation e caller s =
     and_then (cancel_rotation e caller s) (\<lambda>(r, s1).
     Inr (publish (EvSignerRotationCancelled (old_signer r) (new_signer r)) s1))"

definition delist_token :: "address \<Rightarrow> 'w state \<Rightarrow> 'w state" where
  "delist_token t s = s\<lparr> toks := (toks s)\<lparr> approved_token := (approved_token (toks s))(t \<mapsto> False),
     token_list := Some (filter (\<lambda>x. x \<noteq> t) (unwrap_or (token_list (toks s)) [])) \<rparr> \<rparr>"

definition store_fee_rate :: "nat \<Rightarrow> 'w state \<Rightarrow> 'w state" where
  "store_fee_rate r s = s\<lparr> inst := (inst s)\<lparr> fee_rate := Some r \<rparr> \<rparr>"

definition store_max_discount_rate :: "nat \<Rightarrow> 'w state \<Rightarrow> 'w state" where
  "store_max_discount_rate r s = s\<lparr> inst := (inst s)\<lparr> max_discount_rate := Some r \<rparr> \<rparr>"

fun apply_admin_action :: "'w env \<Rightarrow> address \<Rightarrow> admin_action \<Rightarrow> 'w state \<Rightarrow> 'w state result" where
  "apply_admin_action e caller Pause s = Inr (publish (EvContractPaused (timestamp e)) (set_paused e True s))"
| "apply_admin_action e caller Unpause s = Inr (publish (EvContractUnpaused (timestamp e)) (set_paused e False s))"
| "apply_admin_action e caller (RemoveToken t) s = Inr (publish (EvTokenRemoved t) (delist_token t s))"
| "apply_admin_action e caller (SetFeeRate r) s =
     Inr (publish (EvParameterUpdated ''protocol_fee_rate_bps'' (int (unwrap_or (fee_rate (inst s)) 0)) (int r) caller)
       (store_fee_rate r s))"
| "apply_admin_action e caller (SetMaxDiscount r) s =
     Inr (publish (EvParameterUpdated ''max_discount_rate_bps'' (int (unwrap_or (max_discount_rate (inst s)) 0)) (int r) caller)
       (store_max_discount_rate r s))"
| "apply_admin_action e caller (UpdateMultisig sgs n) s =
     (if \<not> is_valid_config sgs n then err InvalidMultisigConfig
      else Inr (s\<lparr> mss := (mss s)\<lparr> multisig := Some \<lparr> signers = sgs, threshold = n \<rparr> \<rparr> \<rparr>))"
| "apply_admin_action e caller (RotateSigner old new) s =
     and_then (schedule_rotation e old new s) (\<lambda>(r, s1).
     Inr (publish (EvSignerRotationScheduled old new (effective_at r)) s1))"

definition execute_proposal :: "'w env \<Rightarrow> address \<Rightarrow> nat \<Rightarrow> 'w state \<Rightarrow> 'w state result" where
  "execute_proposal e caller i s =
     and_then (execute e caller i s) (\<lambda>(act, s1). apply_admin_action e caller act s1)"

text \<open>The multisig entry points as one type of call, and their dispatch.\<close>

datatype multisig_call =
    InitializeMultisig "address list" nat
  | Propose address admin_action
  | SignProposal address nat
  | ExecuteProposal address nat
  | FinalizeRotation address
  | CancelRotation address

fun multisig_exec :: "'w env \<Rightarrow> multisig_call \<Rightarrow> 'w state \<Rightarrow> 'w state result" where
  "multisig_exec e (InitializeMultisig sgs n) s = multisig_initialize e sgs n s"
| "multisig_exec e (Propose a act) s = and_then (propose e a act s) (\<lambda>(_, s'). Inr s')"
| "multisig_exec e (SignProposal a i) s = sign e a i s"
| "multisig_exec e (ExecuteProposal a i) s = execute_proposal e a i s"
| "multisig_exec e (FinalizeRotation a) s = finalize_signer_rotation e a s"
| "multisig_exec e (CancelRotation a) s = cancel_signer_rotation e a s"

text \<open>A sequence of calls, each in its own environment.\<close>

definition multisig_run :: "('w env \<times> multisig_call) list \<Rightarrow> 'w state \<Rightarrow> 'w state result" where
  "multisig_run = fold_res (\<lambda>(e, c). multisig_exec e c)"

section \<open>Invariant\<close>

text \<open>
  \<open>q\<close> is the ledger reached so far. A pending proposal is the indexed one of its action unless it
  has expired.
\<close>

definition proposal_ok :: "nat \<Rightarrow> multisig_store \<Rightarrow> nat \<Rightarrow> multisig_proposal \<Rightarrow> bool" where
  "proposal_ok q m i p \<longleftrightarrow>
     proposal_id p = i \<and> i < unwrap_or (next_proposal_id m) 1 \<and>
     distinct (signers_approved p) \<and> signers_approved p \<noteq> [] \<and> proposal_state p \<noteq> ProposalLapsed \<and>
     (proposal_state p = ProposalPending \<longrightarrow> pending_action m (action p) = Some i \<or> expires_at p \<le> q)"

definition multisig_ok :: "nat \<Rightarrow> multisig_store \<Rightarrow> bool" where
  "multisig_ok q m \<longleftrightarrow>
     (\<forall>i p. proposal m i = Some p \<longrightarrow> proposal_ok q m i p) \<and>
     (multisig m = None \<longrightarrow> proposal m = Map.empty) \<and>
     (\<forall>c. multisig m = Some c \<longrightarrow> 0 < threshold c)"

text \<open>
  Executions: successful multisig calls at non-decreasing ledgers, in between anything that leaves
  the multisig storage alone. The list is the history of the multisig calls, each with the multisig
  storage it was made in.
\<close>

inductive multisig_trace ::
    "nat \<Rightarrow> ('w env \<times> multisig_call \<times> multisig_store) list \<Rightarrow> 'w state \<Rightarrow> bool" where
  start: "mss s = mss (fresh_state (wld s)) \<Longrightarrow> multisig_trace q [] s"
| call: "multisig_trace q h s \<Longrightarrow> q \<le> sequence e \<Longrightarrow> multisig_exec e c s = Inr s' \<Longrightarrow>
    multisig_trace (sequence e) (h @ [(e, c, mss s)]) s'"
| other: "multisig_trace q h s \<Longrightarrow> q \<le> q' \<Longrightarrow> mss s' = mss s \<Longrightarrow> multisig_trace q' h s'"

text \<open>
  A concrete history: the admin installs three signers with threshold 2, the signers schedule the
  rotation of \<open>Address 1\<close> into \<open>Address 4\<close> and then, before it is finalized, replace the signer set
  by \<open>Address 1\<close> and \<open>Address 4\<close>.
\<close>

definition admin_state :: "unit state" where
  "admin_state = (fresh_state ())\<lparr> inst := (inst (fresh_state ()))\<lparr> admin := Some (Address 9) \<rparr> \<rparr>"

definition at_ledger :: "nat \<Rightarrow> nat \<Rightarrow> unit env" where
  "at_ledger q a = call_env no_contracts 0 q {Address a}"

definition rotation_script :: "(unit env \<times> multisig_call) list" where
  "rotation_script =
     [(at_ledger 0 9, InitializeMultisig [Address 1, Address 2, Address 3] 2),
      (at_ledger 1 1, Propose (Address 1) (RotateSigner (Address 1) (Address 4))),
      (at_ledger 2 2, SignProposal (Address 2) 1),
      (at_ledger 3 1, ExecuteProposal (Address 1) 1),
      (at_ledger 4 1, Propose (Address 1) (UpdateMultisig [Address 1, Address 4] 2)),
      (at_ledger 5 2, SignProposal (Address 2) 2),
      (at_ledger 6 1, ExecuteProposal (Address 1) 2)]"

text \<open>A signer set that lists one address twice with threshold 2, and no rotation left to repair it.\<close>

definition locked :: "address \<Rightarrow> multisig_store \<Rightarrow> bool" where
  "locked d m \<longleftrightarrow> multisig m = Some \<lparr> signers = [d, d], threshold = 2 \<rparr> \<and> rotation m = None \<and>
     (\<forall>i p. proposal m i = Some p \<longrightarrow> proposal_state p = ProposalExecuted \<or> signers_approved p = [d])"

lemmas multisig_defs = load_config_def require_signer_def live_proposal_def put_proposal_def
  is_signer_def has_signed_def threshold_reached_def is_expired_def

section \<open>Lemmas\<close>

lemma is_valid_config_iff:
  "is_valid_config sgs n \<longleftrightarrow> sgs \<noteq> [] \<and> 0 < n \<and> n \<le> length sgs \<and> distinct sgs"
proof -
  have "(\<exists>i \<in> set [0..<length sgs]. \<exists>j \<in> set [i + 1..<length sgs]. sgs ! i = sgs ! j) \<longleftrightarrow> \<not> distinct sgs"
  proof
    assume "\<exists>i \<in> set [0..<length sgs]. \<exists>j \<in> set [i + 1..<length sgs]. sgs ! i = sgs ! j"
    then obtain i j where "i < j" "j < length sgs" "sgs ! i = sgs ! j" by (auto simp: Suc_le_eq)
    then show "\<not> distinct sgs" using nth_eq_iff_index_eq [of sgs i j] by auto
  next
    assume "\<not> distinct sgs"
    then obtain i j where "i < j" "j < length sgs" "sgs ! i = sgs ! j"
      unfolding distinct_conv_nth by (metis linorder_neqE_nat)
    then show "\<exists>i \<in> set [0..<length sgs]. \<exists>j \<in> set [i + 1..<length sgs]. sgs ! i = sgs ! j"
      by (intro bexI [of _ i] bexI [of _ j]) simp_all
  qed
  then show ?thesis by (auto simp: is_valid_config_def)
qed

lemma is_signer_iff [simp]: "is_signer sgs a \<longleftrightarrow> a \<in> set sgs"
  by (simp add: is_signer_def)

lemma has_signed_iff [simp]: "has_signed p a \<longleftrightarrow> a \<in> set (signers_approved p)"
  by (simp add: has_signed_def)

lemma require_signer_eq_Inr [res_simps]:
  "require_signer e c a = Inr u \<longleftrightarrow> a \<in> auths e \<and> a \<in> set (signers c)"
  by (auto simp: require_signer_def res_simps)

lemma load_config_eq_Inr [res_simps]: "load_config s = Inr c \<longleftrightarrow> multisig (mss s) = Some c"
  by (simp add: load_config_def res_simps)

lemma live_proposal_eq_Inr [res_simps]:
  "live_proposal e i s = Inr p \<longleftrightarrow>
     proposal (mss s) i = Some p \<and> proposal_state p \<noteq> ProposalExecuted \<and> sequence e < expires_at p"
  by (auto simp: live_proposal_def res_simps is_expired_def)

lemma propose_eq_Inr:
  assumes "propose e a act s = Inr (i, s')"
  obtains c where "multisig (mss s) = Some c" "a \<in> auths e" "a \<in> set (signers c)"
    "\<not> has_live_proposal e act s" "i = unwrap_or (next_proposal_id (mss s)) 1"
    "s' = s\<lparr> mss := (mss s)\<lparr> next_proposal_id := Some (i + 1),
        proposal := (proposal (mss s))(i \<mapsto> \<lparr> proposal_id = i, action = act, signers_approved = [a],
          proposal_state = ProposalPending, expires_at = sequence e + MULTISIG_WINDOW_LEDGERS \<rparr>),
        pending_action := (pending_action (mss s))(act \<mapsto> i) \<rparr> \<rparr>"
  using assms by (auto simp: propose_def Let_def res_simps)

lemma sign_eq_Inr:
  assumes "sign e a i s = Inr s'"
  obtains c p where "multisig (mss s) = Some c" "a \<in> auths e" "a \<in> set (signers c)"
    "proposal (mss s) i = Some p" "proposal_state p \<noteq> ProposalExecuted" "sequence e < expires_at p"
    "a \<notin> set (signers_approved p)"
    "s' = put_proposal i (p\<lparr> signers_approved := signers_approved p @ [a] \<rparr>) s"
  using assms by (auto simp: sign_def res_simps)

lemma execute_eq_Inr:
  assumes "execute e a i s = Inr (act, s')"
  obtains c p where "multisig (mss s) = Some c" "a \<in> auths e" "a \<in> set (signers c)"
    "proposal (mss s) i = Some p" "proposal_state p \<noteq> ProposalExecuted" "sequence e < expires_at p"
    "threshold c \<le> length (signers_approved p)" "act = action p"
    "s' = s\<lparr> mss := (mss s)\<lparr> proposal := (proposal (mss s))(i \<mapsto> p\<lparr> proposal_state := ProposalExecuted \<rparr>),
        pending_action := (pending_action (mss s))(act := None) \<rparr> \<rparr>"
  using assms by (auto simp: execute_def Let_def res_simps threshold_reached_def put_proposal_def)

lemma finalize_rotation_eq_Inr:
  assumes "finalize_rotation e a s = Inr (r, s')"
  obtains c where "multisig (mss s) = Some c" "a \<in> auths e" "a \<in> set (signers c)"
    "rotation (mss s) = Some r" "effective_at r \<le> sequence e"
    "s' = s\<lparr> mss := (mss s)\<lparr> multisig := Some (c\<lparr> signers := filter (\<lambda>a. a \<noteq> old_signer r) (signers c) @ [new_signer r] \<rparr>),
       rotation := None \<rparr> \<rparr>"
  using assms by (auto simp: finalize_rotation_def Let_def res_simps)

text \<open>What the operations do to the proposals and their index, besides the signer set.\<close>

lemma apply_admin_action_mss:
  assumes "apply_admin_action e a act s = Inr s'"
  shows "proposal (mss s') = proposal (mss s)" "pending_action (mss s') = pending_action (mss s)"
    "next_proposal_id (mss s') = next_proposal_id (mss s)"
    "multisig (mss s') \<noteq> multisig (mss s) \<Longrightarrow>
       \<exists>sgs n. is_valid_config sgs n \<and> multisig (mss s') = Some \<lparr> signers = sgs, threshold = n \<rparr>"
  using assms
  by (cases act; auto simp: store_defs delist_token_def store_fee_rate_def store_max_discount_rate_def
      Let_def res_simps schedule_rotation_def split: if_splits)+

lemma proposal_ok_mono: "proposal_ok q m i p \<Longrightarrow> q \<le> q' \<Longrightarrow> proposal_ok q' m i p"
  by (auto simp: proposal_ok_def)

lemma multisig_ok_mono: "multisig_ok q m \<Longrightarrow> q \<le> q' \<Longrightarrow> multisig_ok q' m"
  by (auto simp: multisig_ok_def intro: proposal_ok_mono)

lemma multisig_ok_signers:
  assumes "multisig_ok q m" and "proposal m' = proposal m" "pending_action m' = pending_action m"
    "next_proposal_id m' = next_proposal_id m" and "\<exists>c. multisig m' = Some c \<and> 0 < threshold c"
  shows "multisig_ok q m'"
  using assms by (auto simp: multisig_ok_def proposal_ok_def)

lemma propose_ok:
  assumes "multisig_ok q (mss s)" and "q \<le> sequence e" and "propose e a act s = Inr (i, s')"
  shows "multisig_ok (sequence e) (mss s')"
proof -
  obtain c where c: "multisig (mss s) = Some c" "\<not> has_live_proposal e act s"
    "i = unwrap_or (next_proposal_id (mss s)) 1"
    and s': "s' = s\<lparr> mss := (mss s)\<lparr> next_proposal_id := Some (i + 1),
        proposal := (proposal (mss s))(i \<mapsto> \<lparr> proposal_id = i, action = act, signers_approved = [a],
          proposal_state = ProposalPending, expires_at = sequence e + MULTISIG_WINDOW_LEDGERS \<rparr>),
        pending_action := (pending_action (mss s))(act \<mapsto> i) \<rparr> \<rparr>"
    using assms(3) by (rule propose_eq_Inr)
  have "proposal_ok (sequence e) (mss s') j p"
    if j: "j \<noteq> i" "proposal (mss s) j = Some p" for j p
  proof -
    have ok: "proposal_ok (sequence e) (mss s) j p"
      using assms(1,2) j(2) by (auto simp: multisig_ok_def intro: proposal_ok_mono)
    moreover have "expires_at p \<le> sequence e"
      if "action p = act" "proposal_state p = ProposalPending" "pending_action (mss s) act = Some j"
      using that c(2) j(2) by (auto simp: has_live_proposal_def is_expired_def)
    ultimately show ?thesis using c(3) by (auto simp: s' proposal_ok_def)
  qed
  then show ?thesis using assms(1) c(1) by (auto simp: multisig_ok_def s' proposal_ok_def)
qed

lemma sign_ok:
  assumes "multisig_ok q (mss s)" and "q \<le> sequence e" and "sign e a i s = Inr s'"
  shows "multisig_ok (sequence e) (mss s')"
proof -
  note ok = multisig_ok_mono [OF assms(1,2)]
  obtain c p where c: "multisig (mss s) = Some c" "proposal (mss s) i = Some p" "a \<notin> set (signers_approved p)"
    "s' = put_proposal i (p\<lparr> signers_approved := signers_approved p @ [a] \<rparr>) s"
    using assms(3) by (rule sign_eq_Inr)
  then have "proposal_ok (sequence e) (mss s) i p" using ok by (simp add: multisig_ok_def)
  then show ?thesis using ok c by (auto simp: multisig_ok_def put_proposal_def proposal_ok_def)
qed

lemma execute_ok:
  assumes "multisig_ok q (mss s)" and "q \<le> sequence e" and "execute e a i s = Inr (act, s')"
  shows "multisig_ok (sequence e) (mss s')"
proof -
  note ok = multisig_ok_mono [OF assms(1,2)]
  obtain c p where c: "multisig (mss s) = Some c" "proposal (mss s) i = Some p"
    "proposal_state p \<noteq> ProposalExecuted" "sequence e < expires_at p" "act = action p"
    and s': "s' = s\<lparr> mss := (mss s)\<lparr> proposal := (proposal (mss s))(i \<mapsto> p\<lparr> proposal_state := ProposalExecuted \<rparr>),
        pending_action := (pending_action (mss s))(act := None) \<rparr> \<rparr>"
    using assms(3) by (rule execute_eq_Inr)
  have p: "proposal_ok (sequence e) (mss s) i p" using ok c(2) by (simp add: multisig_ok_def)
  then have idx: "pending_action (mss s) act = Some i"
    using c(3-5) by (cases "proposal_state p") (auto simp: proposal_ok_def)
  have "proposal_ok (sequence e) (mss s') j r" if "j \<noteq> i" "proposal (mss s) j = Some r" for j r
  proof -
    have "proposal_ok (sequence e) (mss s) j r" using ok that(2) by (simp add: multisig_ok_def)
    then show ?thesis using idx that(1) by (auto simp: s' proposal_ok_def)
  qed
  moreover have "proposal_ok (sequence e) (mss s') i (p\<lparr> proposal_state := ProposalExecuted \<rparr>)"
    using p by (auto simp: s' proposal_ok_def)
  ultimately show ?thesis using ok c(1) by (auto simp: multisig_ok_def s')
qed

lemma apply_admin_action_ok:
  assumes "multisig_ok q (mss s)" and "multisig (mss s) \<noteq> None" and "apply_admin_action e a act s = Inr s'"
  shows "multisig_ok q (mss s')"
proof -
  note m = apply_admin_action_mss [OF assms(3)]
  have "\<exists>c. multisig (mss s') = Some c \<and> 0 < threshold c"
  proof (cases "multisig (mss s') = multisig (mss s)")
    case True
    then show ?thesis using assms(1,2) by (auto simp: multisig_ok_def)
  next
    case False
    then show ?thesis using m(4) by (auto simp: is_valid_config_iff)
  qed
  then show ?thesis using multisig_ok_signers [OF assms(1)] m(1-3) by blast
qed

lemma multisig_exec_ok:
  assumes "multisig_ok q (mss s)" and "q \<le> sequence e" and "multisig_exec e c s = Inr s'"
  shows "multisig_ok (sequence e) (mss s')"
proof (cases c)
  case (InitializeMultisig sgs n)
  then show ?thesis using multisig_ok_mono [OF assms(1,2)] assms(3)
    by (auto simp: multisig_initialize_def res_simps multisig_ok_def is_valid_config_iff)
next
  case (Propose a act)
  then show ?thesis using assms propose_ok by (auto simp: res_simps)
next
  case (SignProposal a i)
  then show ?thesis using assms sign_ok by auto
next
  case (ExecuteProposal a i)
  then obtain act s1 where e: "execute e a i s = Inr (act, s1)" "apply_admin_action e a act s1 = Inr s'"
    using assms(3) by (auto simp: execute_proposal_def res_simps)
  have "multisig (mss s1) \<noteq> None" using e(1) by (rule execute_eq_Inr) simp
  then show ?thesis using apply_admin_action_ok [OF execute_ok [OF assms(1,2) e(1)] _ e(2)] by blast
next
  case (FinalizeRotation a)
  then obtain r s1 where "finalize_rotation e a s = Inr (r, s1)" and s1: "mss s' = mss s1"
    using assms(3) by (auto simp: finalize_signer_rotation_def res_simps publish_def)
  from this(1) obtain c' where f: "multisig (mss s) = Some c'"
    "s1 = s\<lparr> mss := (mss s)\<lparr> multisig := Some (c'\<lparr> signers := filter (\<lambda>a. a \<noteq> old_signer r) (signers c') @ [new_signer r] \<rparr>),
       rotation := None \<rparr> \<rparr>"
    by (rule finalize_rotation_eq_Inr)
  then have "0 < threshold c'" using assms(1) by (simp add: multisig_ok_def)
  then show ?thesis using f s1 by (intro multisig_ok_signers [OF multisig_ok_mono [OF assms(1,2)]]) simp_all
next
  case (CancelRotation a)
  then obtain c' where f: "multisig (mss s) = Some c'" "mss s' = (mss s)\<lparr> rotation := None \<rparr>"
    using assms(3) by (auto simp: cancel_signer_rotation_def cancel_rotation_def res_simps publish_def)
  then have "0 < threshold c'" using assms(1) by (simp add: multisig_ok_def)
  then show ?thesis using f by (intro multisig_ok_signers [OF multisig_ok_mono [OF assms(1,2)]]) simp_all
qed

lemma multisig_trace_ok: "multisig_trace q h s \<Longrightarrow> multisig_ok q (mss s)"
proof (induction rule: multisig_trace.induct)
  case (start s q)
  then show ?case by (simp add: multisig_ok_def fresh_state_def)
next
  case (call q h s e c s')
  then show ?case using multisig_exec_ok by blast
next
  case (other q h s q' s')
  then show ?case using multisig_ok_mono by metis
qed

text \<open>
  An address has approved proposal \<open>i\<close> for action \<open>act\<close>: it authorised, while it was one of the
  configured signers, a call that signed the proposal or the call that created it.
\<close>

definition approved_by ::
    "('w env \<times> multisig_call \<times> multisig_store) list \<Rightarrow> nat \<Rightarrow> admin_action \<Rightarrow> address \<Rightarrow> bool" where
  "approved_by h i act a \<longleftrightarrow>
     (\<exists>(e, c, m) \<in> set h. a \<in> auths e \<and> (\<exists>k. multisig m = Some k \<and> a \<in> set (signers k)) \<and>
        (c = SignProposal a i \<and> map_option action (proposal m i) = Some act \<or>
         c = Propose a act \<and> unwrap_or (next_proposal_id m) 1 = i))"

lemma approved_by_append: "approved_by h i act a \<Longrightarrow> approved_by (h @ h') i act a"
  by (auto simp: approved_by_def)

lemma multisig_exec_proposals:
  assumes "multisig_exec e c s = Inr s'" and "proposal (mss s') i = Some p"
  shows "(\<exists>a. c = Propose a (action p) \<and> a \<in> auths e \<and> signers_approved p = [a] \<and>
       (\<exists>k. multisig (mss s) = Some k \<and> a \<in> set (signers k)) \<and> unwrap_or (next_proposal_id (mss s)) 1 = i) \<or>
    (\<exists>p0. proposal (mss s) i = Some p0 \<and> action p0 = action p \<and>
       (signers_approved p = signers_approved p0 \<or>
        (\<exists>a. c = SignProposal a i \<and> a \<in> auths e \<and> signers_approved p = signers_approved p0 @ [a] \<and>
           (\<exists>k. multisig (mss s) = Some k \<and> a \<in> set (signers k)))))"
proof (cases c)
  case (InitializeMultisig sgs n)
  then show ?thesis using assms by (auto simp: multisig_initialize_def res_simps)
next
  case (Propose a act)
  then obtain j where "propose e a act s = Inr (j, s')" using assms(1) by (auto simp: res_simps)
  then show ?thesis using assms(2) Propose
    by - (erule propose_eq_Inr, auto split: if_splits)
next
  case (SignProposal a j)
  then have "sign e a j s = Inr s'" using assms(1) by simp
  then show ?thesis using assms(2) SignProposal
    by - (erule sign_eq_Inr, auto simp: put_proposal_def split: if_splits)
next
  case (ExecuteProposal a j)
  then obtain act s1 where e: "execute e a j s = Inr (act, s1)" "apply_admin_action e a act s1 = Inr s'"
    using assms(1) by (auto simp: execute_proposal_def res_simps)
  have "proposal (mss s1) i = Some p" using apply_admin_action_mss(1) [OF e(2)] assms(2) by simp
  with e(1) show ?thesis by - (erule execute_eq_Inr, auto split: if_splits)
next
  case (FinalizeRotation a)
  then show ?thesis using assms
    by (auto simp: finalize_signer_rotation_def finalize_rotation_def Let_def res_simps publish_def)
next
  case (CancelRotation a)
  then show ?thesis using assms
    by (auto simp: cancel_signer_rotation_def cancel_rotation_def Let_def res_simps publish_def)
qed

lemma multisig_trace_approved:
  "multisig_trace q h s \<Longrightarrow> proposal (mss s) i = Some p \<Longrightarrow> a \<in> set (signers_approved p) \<Longrightarrow>
     approved_by h i (action p) a"
proof (induction arbitrary: p rule: multisig_trace.induct)
  case (start s q)
  then show ?case by (simp add: fresh_state_def)
next
  case (call q h s e c s')
  from multisig_exec_proposals [OF call.hyps(3) call.prems(1)] consider
      (granted) "approved_by [(e, c, mss s)] i (action p) a"
    | (old) p0 where "proposal (mss s) i = Some p0" "action p0 = action p" "a \<in> set (signers_approved p0)"
    using call.prems(2) by (auto simp: approved_by_def)
  then show ?case
  proof cases
    case granted
    then show ?thesis by (auto simp: approved_by_def)
  next
    case old
    then show ?thesis using call.IH approved_by_append by metis
  qed
next
  case (other q h s q' s')
  then show ?case by simp
qed

text \<open>An executed proposal stays as it is.\<close>

lemma multisig_exec_keeps_executed:
  assumes "multisig_ok q (mss s)" and "multisig_exec e c s = Inr s'"
    and "proposal (mss s) i = Some p" and "proposal_state p = ProposalExecuted"
  shows "proposal (mss s') i = Some p"
proof (cases c)
  case (Propose a act)
  then obtain j where j: "propose e a act s = Inr (j, s')" using assms(2) by (auto simp: res_simps)
  have "i < unwrap_or (next_proposal_id (mss s)) 1"
    using assms(1,3) by (simp add: multisig_ok_def proposal_ok_def)
  with j show ?thesis using assms(3) by - (erule propose_eq_Inr, auto)
next
  case (SignProposal a j)
  then have "sign e a j s = Inr s'" using assms(2) by simp
  then show ?thesis using assms(3,4) by - (erule sign_eq_Inr, auto simp: put_proposal_def)
next
  case (ExecuteProposal a j)
  then obtain act s1 where e: "execute e a j s = Inr (act, s1)" "apply_admin_action e a act s1 = Inr s'"
    using assms(2) by (auto simp: execute_proposal_def res_simps)
  from e(1) have "proposal (mss s1) i = Some p" using assms(3,4) by - (erule execute_eq_Inr, auto)
  then show ?thesis using apply_admin_action_mss(1) [OF e(2)] by simp
next
  case (InitializeMultisig sgs n)
  then show ?thesis using assms(2,3) by (auto simp: multisig_initialize_def res_simps)
next
  case (FinalizeRotation a)
  then show ?thesis using assms(2,3)
    by (auto simp: finalize_signer_rotation_def finalize_rotation_def Let_def res_simps publish_def)
next
  case (CancelRotation a)
  then show ?thesis using assms(2,3)
    by (auto simp: cancel_signer_rotation_def cancel_rotation_def Let_def res_simps publish_def)
qed

lemma execute_proposal_executes:
  assumes "execute_proposal e a i s = Inr s'"
  shows "\<exists>p. proposal (mss s') i = Some p \<and> proposal_state p = ProposalExecuted"
proof -
  obtain act s1 where e: "execute e a i s = Inr (act, s1)" "apply_admin_action e a act s1 = Inr s'"
    using assms by (auto simp: execute_proposal_def res_simps)
  from e(1) have "\<exists>p. proposal (mss s1) i = Some p \<and> proposal_state p = ProposalExecuted"
    by (rule execute_eq_Inr) simp
  then show ?thesis using apply_admin_action_mss(1) [OF e(2)] by simp
qed

lemma multisig_trace_executed:
  "multisig_trace q h s \<Longrightarrow> (e, ExecuteProposal a i, m) \<in> set h \<Longrightarrow>
     \<exists>p. proposal (mss s) i = Some p \<and> proposal_state p = ProposalExecuted"
proof (induction rule: multisig_trace.induct)
  case (call q h s e' c s')
  show ?case
  proof (cases "(e, ExecuteProposal a i, m) \<in> set h")
    case True
    then show ?thesis
      using call multisig_exec_keeps_executed [OF multisig_trace_ok] by blast
  next
    case False
    then show ?thesis using call.prems call.hyps(3) execute_proposal_executes by auto
  qed
qed simp_all

text \<open>A run of calls from empty multisig storage at non-decreasing ledgers is a trace.\<close>

lemma multisig_run_trace:
  assumes "multisig_trace q h s" and "multisig_run cs s = Inr s'"
    and "sorted (q # map (\<lambda>(e, _). sequence e) cs)"
  shows "\<exists>h'. multisig_trace (last (q # map (\<lambda>(e, _). sequence e) cs)) h' s' \<and>
    map (\<lambda>(e, c, _). (e, c)) h' = map (\<lambda>(e, c, _). (e, c)) h @ cs"
  using assms
proof (induction cs arbitrary: q h s)
  case Nil
  then show ?case by (auto simp: multisig_run_def)
next
  case (Cons ec cs)
  obtain e c where ec: "ec = (e, c)" by (cases ec)
  obtain s1 where s1: "multisig_exec e c s = Inr s1" "multisig_run cs s1 = Inr s'"
    using Cons.prems(2) by (auto simp: multisig_run_def ec res_simps)
  have "multisig_trace (sequence e) (h @ [(e, c, mss s)]) s1"
    using Cons.prems(1,3) s1(1) by (intro multisig_trace.call) (auto simp: ec)
  from Cons.IH [OF this s1(2)] show ?case using Cons.prems(3) by (simp add: ec)
qed

lemmas script_simps = at_ledger_def call_env_def admin_state_def fresh_state_def multisig_initialize_def
  require_admin_def is_valid_config_iff propose_def sign_def execute_def execute_proposal_def
  has_live_proposal_def Let_def multisig_defs schedule_rotation_def finalize_rotation_def
  finalize_signer_rotation_def publish_def MULTISIG_WINDOW_LEDGERS_def ROTATION_TIMELOCK_LEDGERS_def
  checked_add_u64_def u64_max_def set_paused_def

lemma locked_execute_fails:
  assumes "locked d (mss s)"
  shows "\<not> is_ok (execute_proposal e a i s)"
proof
  assume "is_ok (execute_proposal e a i s)"
  then obtain act s1 where "execute e a i s = Inr (act, s1)"
    by (auto simp: is_ok_iff execute_proposal_def res_simps)
  then obtain c p where "multisig (mss s) = Some c" "proposal (mss s) i = Some p"
    "proposal_state p \<noteq> ProposalExecuted" "threshold c \<le> length (signers_approved p)"
    by (rule execute_eq_Inr)
  moreover have "signers_approved p = [d]" using assms calculation(2,3) by (auto simp: locked_def)
  ultimately show False using assms by (simp add: locked_def)
qed

lemma locked_multisig_exec:
  assumes "locked d (mss s)" and "multisig_exec e c s = Inr s'"
  shows "locked d (mss s')"
proof (cases c)
  case (InitializeMultisig sgs n)
  then show ?thesis using assms by (auto simp: multisig_initialize_def res_simps locked_def)
next
  case (Propose a act)
  then obtain j where "propose e a act s = Inr (j, s')" using assms(2) by (auto simp: res_simps)
  then show ?thesis using assms(1) by - (erule propose_eq_Inr, auto simp: locked_def)
next
  case (SignProposal a j)
  then have "sign e a j s = Inr s'" using assms(2) by simp
  then obtain c p where "multisig (mss s) = Some c" "a \<in> set (signers c)" "proposal (mss s) j = Some p"
    "proposal_state p \<noteq> ProposalExecuted" "a \<notin> set (signers_approved p)"
    by (rule sign_eq_Inr)
  moreover have "signers_approved p = [d]" using assms(1) calculation(3,4) by (auto simp: locked_def)
  ultimately show ?thesis using assms(1) by (simp add: locked_def)
next
  case (ExecuteProposal a j)
  then show ?thesis using locked_execute_fails [OF assms(1), of e a j] assms(2) by (simp add: is_ok_iff)
next
  case (FinalizeRotation a)
  then show ?thesis using assms
    by (auto simp: finalize_signer_rotation_def finalize_rotation_def Let_def res_simps locked_def)
next
  case (CancelRotation a)
  then show ?thesis using assms
    by (auto simp: cancel_signer_rotation_def cancel_rotation_def Let_def res_simps locked_def)
qed

section \<open>Properties\<close>

text \<open>C12. A multisig action needs the threshold. In every execution, when \<open>execute_proposal\<close>
  succeeds there is a set of at least \<open>threshold\<close> (and at least one) distinct addresses, each of
  which was a configured signer when, in an earlier call that it authorised, it created exactly this
  proposal or signed it with this action; the caller is a configured signer who authorised the call,
  and the proposal had not expired. The approvers need not be signers any more.\<close>

theorem multisig_threshold:
  assumes "multisig_trace q h s" and "execute_proposal e caller i s = Inr s'"
  shows "\<exists>c p. multisig (mss s) = Some c \<and> proposal (mss s) i = Some p \<and>
    caller \<in> set (signers c) \<and> caller \<in> auths e \<and> sequence e < expires_at p \<and>
    0 < threshold c \<and> threshold c \<le> card (set (signers_approved p)) \<and>
    (\<forall>a \<in> set (signers_approved p). approved_by h i (action p) a)"
proof -
  obtain act s1 where "execute e caller i s = Inr (act, s1)"
    using assms(2) by (auto simp: execute_proposal_def res_simps)
  then obtain c p where c: "multisig (mss s) = Some c" "caller \<in> auths e" "caller \<in> set (signers c)"
    "proposal (mss s) i = Some p" "sequence e < expires_at p" "threshold c \<le> length (signers_approved p)"
    by (rule execute_eq_Inr)
  have "distinct (signers_approved p)" "0 < threshold c"
    using multisig_trace_ok [OF assms(1)] c(1,4) by (simp_all add: multisig_ok_def proposal_ok_def)
  then show ?thesis
    using c multisig_trace_approved [OF assms(1) c(4)] by (auto simp: distinct_card)
qed

theorem multisig_threshold_witness:
  "\<exists>h s c p. multisig_trace 5 h s \<and> is_ok (execute_proposal (at_ledger 6 1) (Address 1) 2 s) \<and>
     multisig (mss s) = Some c \<and> proposal (mss s) 2 = Some p \<and>
     threshold c \<le> card (set (signers_approved p))"
proof -
  let ?h = "take 6 rotation_script"
  obtain s where s: "multisig_run ?h admin_state = Inr s" "is_ok (execute_proposal (at_ledger 6 1) (Address 1) 2 s)"
    by (simp add: rotation_script_def multisig_run_def script_simps)
  have "multisig_trace 0 [] admin_state" by (rule multisig_trace.start) (simp add: admin_state_def fresh_state_def)
  from multisig_run_trace [OF this s(1)] obtain h where "multisig_trace 5 h s"
    by (auto simp: rotation_script_def at_ledger_def call_env_def)
  with s(2) show ?thesis using multisig_threshold unfolding is_ok_iff by metis
qed

text \<open>C13. No replay. Once a call \<open>execute_proposal\<close> for a proposal is in the history, no later
  call executes that proposal again, whoever calls it and in whatever environment.\<close>

theorem multisig_no_replay:
  assumes "multisig_trace q h s" and "(e, ExecuteProposal caller i, m) \<in> set h"
  shows "\<not> is_ok (execute_proposal e' caller' i s)"
proof
  assume "is_ok (execute_proposal e' caller' i s)"
  then obtain act s1 where x: "execute e' caller' i s = Inr (act, s1)"
    by (auto simp: is_ok_iff execute_proposal_def res_simps)
  show False using multisig_trace_executed [OF assms] x by (auto elim!: execute_eq_Inr)
qed

theorem multisig_no_replay_witness:
  "\<exists>h s m. multisig_trace 3 h s \<and> (at_ledger 3 1, ExecuteProposal (Address 1) 1, m) \<in> set h \<and>
     \<not> is_ok (execute_proposal (at_ledger 4 1) (Address 1) 1 s)"
proof -
  let ?h = "take 4 rotation_script"
  obtain s where s: "multisig_run ?h admin_state = Inr s"
    by (simp add: rotation_script_def multisig_run_def script_simps)
  have "multisig_trace 0 [] admin_state" by (rule multisig_trace.start) (simp add: admin_state_def fresh_state_def)
  from multisig_run_trace [OF this s] obtain h where h: "multisig_trace 3 h s" "map (\<lambda>(e, c, _). (e, c)) h = ?h"
    by (auto simp: rotation_script_def at_ledger_def call_env_def)
  have "(at_ledger 3 1, ExecuteProposal (Address 1) 1) \<in> set ?h" by (simp add: rotation_script_def)
  then obtain m where "(at_ledger 3 1, ExecuteProposal (Address 1) 1, m) \<in> set h"
    unfolding h(2) [symmetric] by auto
  with h(1) show ?thesis using multisig_no_replay by blast
qed

text \<open>C14. One live proposal per action. In every execution, two proposals for the same action that
  are both pending and not expired are the same proposal.\<close>

theorem multisig_single_live_proposal:
  assumes "multisig_trace q h s" and "q \<le> sequence e"
    and "proposal (mss s) i = Some p" and "proposal_state p = ProposalPending" and "\<not> is_expired e p"
    and "proposal (mss s) j = Some r" and "proposal_state r = ProposalPending" and "\<not> is_expired e r"
    and "action p = action r"
  shows "i = j"
proof -
  have ok: "proposal_ok q (mss s) i p" "proposal_ok q (mss s) j r"
    using multisig_trace_ok [OF assms(1)] assms(3,6) by (simp_all add: multisig_ok_def)
  have "pending_action (mss s) (action p) = Some i" "pending_action (mss s) (action r) = Some j"
    using ok assms(2,4,5,7,8) by (auto simp: proposal_ok_def is_expired_def)
  then show ?thesis using assms(9) by simp
qed

theorem multisig_single_live_proposal_witness:
  "\<exists>h (s :: unit state) p j. multisig_trace 1 h s \<and> proposal (mss s) j = Some p \<and>
     proposal_state p = ProposalPending \<and> \<not> is_expired (at_ledger 1 1) p \<and> j = 1"
proof -
  let ?h = "take 2 rotation_script"
  obtain s p where s: "multisig_run ?h admin_state = Inr s" "proposal (mss s) 1 = Some p"
    "proposal_state p = ProposalPending" "\<not> is_expired (at_ledger 1 1) p"
    by (simp add: rotation_script_def multisig_run_def script_simps)
  have "multisig_trace 0 [] admin_state" by (rule multisig_trace.start) (simp add: admin_state_def fresh_state_def)
  from multisig_run_trace [OF this s(1)] obtain h where t: "multisig_trace 1 h s"
    by (auto simp: rotation_script_def at_ledger_def call_env_def)
  have "1 \<le> sequence (at_ledger 1 1)" by (simp add: at_ledger_def call_env_def)
  from multisig_single_live_proposal [OF t this s(2-4) s(2-4) refl] t s(2-4) show ?thesis
    by (intro exI [of _ h] exI [of _ s] exI [of _ p] exI [of _ 1] conjI)
qed

text \<open>C15. Signer rotation. If a rotation is scheduled while the signer set is valid and is finalized
  under that same set, then at least 34,560 ledgers have passed in between, the new set has the
  new signer in place of the old one, is as long as before, keeps the threshold and is valid.\<close>

theorem rotation_sound:
  assumes "multisig (mss s) = Some c" and "is_valid_config (signers c) (threshold c)"
    and "schedule_rotation e old new s = Inr (r, s1)"
    and "multisig (mss s2) = Some c" and "rotation (mss s2) = Some r"
    and "finalize_rotation e' caller s2 = Inr (r', s3)"
  shows "\<exists>c'. multisig (mss s3) = Some c' \<and> threshold c' = threshold c \<and>
    set (signers c') = insert new (set (signers c) - {old}) \<and> length (signers c') = length (signers c) \<and>
    is_valid_config (signers c') (threshold c') \<and> rotation (mss s3) = None \<and>
    sequence e + 34560 \<le> sequence e'"
proof -
  have r: "old \<in> set (signers c)" "new \<notin> set (signers c)"
    "r = \<lparr> old_signer = old, new_signer = new, effective_at = sequence e + 34560 \<rparr>"
    using assms(1,3) by (auto simp: schedule_rotation_def res_simps Let_def ROTATION_TIMELOCK_LEDGERS_def)
  obtain c0 where c0: "multisig (mss s2) = Some c0" "rotation (mss s2) = Some r'" "effective_at r' \<le> sequence e'"
    "s3 = s2\<lparr> mss := (mss s2)\<lparr> multisig := Some (c0\<lparr> signers := filter (\<lambda>a. a \<noteq> old_signer r') (signers c0) @ [new_signer r'] \<rparr>),
       rotation := None \<rparr> \<rparr>"
    using assms(6) by (rule finalize_rotation_eq_Inr)
  have d: "distinct (signers c)" using assms(2) by (simp add: is_valid_config_iff)
  have "filter (\<lambda>a. a \<noteq> old) (signers c) = remove1 old (signers c)"
    using d by (simp add: distinct_remove1_removeAll removeAll_filter_not_eq eq_commute)
  then have "length (filter (\<lambda>a. a \<noteq> old) (signers c)) + 1 = length (signers c)"
    using r(1) length_pos_if_in_set [OF r(1)] by (simp add: length_remove1)
  moreover have "c0 = c" "r' = r" using c0(1,2) assms(4,5) by simp_all
  ultimately show ?thesis using c0(3,4) assms(2) r d by (simp add: is_valid_config_iff) auto
qed

theorem rotation_sound_witness:
  "\<exists>s r s2 r' s3 c'. schedule_rotation (at_ledger 3 1) (Address 1) (Address 4) s = Inr (r, s2) \<and>
     finalize_rotation (at_ledger 40000 2) (Address 2) s2 = Inr (r', s3) \<and> multisig (mss s3) = Some c' \<and>
     set (signers c') = {Address 4, Address 2} \<and> is_valid_config (signers c') (threshold c')"
proof -
  let ?c = "\<lparr> signers = [Address 1, Address 2], threshold = 2 \<rparr>"
  define s where "s = admin_state\<lparr> mss := (mss admin_state)\<lparr> multisig := Some ?c \<rparr> \<rparr>"
  obtain r s2 where r: "schedule_rotation (at_ledger 3 1) (Address 1) (Address 4) s = Inr (r, s2)"
    "multisig (mss s2) = Some ?c" "rotation (mss s2) = Some r" "effective_at r = 34563"
    by (simp add: s_def script_simps)
  obtain r' s3 where f: "finalize_rotation (at_ledger 40000 2) (Address 2) s2 = Inr (r', s3)"
    using r(2-4) by (simp add: script_simps)
  have "multisig (mss s) = Some ?c" "is_valid_config (signers ?c) (threshold ?c)"
    by (simp_all add: s_def is_valid_config_iff)
  from rotation_sound [OF this r(1-3) f] obtain c' where "multisig (mss s3) = Some c'"
    "set (signers c') = insert (Address 4) (set (signers ?c) - {Address 1})"
    "is_valid_config (signers c') (threshold c')" by blast
  then show ?thesis using r(1) f by (intro exI [of _ s] exI [of _ r] exI [of _ s2] exI [of _ r'] exI [of _ s3] exI [of _ c'])
    auto
qed

text \<open>C16. A rotation that outlives its signer set can lock the multisig. The signers of
  \<open>rotation_script\<close> schedule the rotation of \<open>Address 1\<close> into \<open>Address 4\<close>, then replace the set by
  these two addresses with threshold 2 (a set \<open>is_valid_config\<close> accepts). Finalizing the rotation
  does not validate the result: \<open>Address 4\<close> is listed twice, and after that, whatever multisig
  calls follow, the signer set never changes and no proposal can be executed.\<close>

theorem stale_rotation_locks_multisig:
  "\<exists>s. multisig_run (rotation_script @ [(at_ledger 40000 4, FinalizeRotation (Address 4))]) admin_state = Inr s \<and>
     (\<forall>cs s'. multisig_run cs s = Inr s' \<longrightarrow>
        multisig (mss s') = Some \<lparr> signers = [Address 4, Address 4], threshold = 2 \<rparr> \<and>
        (\<forall>e a i. \<not> is_ok (execute_proposal e a i s')))"
proof -
  obtain s where s: "multisig_run (rotation_script @ [(at_ledger 40000 4, FinalizeRotation (Address 4))]) admin_state = Inr s"
    and l: "locked (Address 4) (mss s)"
    by (simp add: rotation_script_def multisig_run_def script_simps locked_def)
  have "locked (Address 4) (mss s')" if "multisig_run cs s = Inr s'" for cs s'
    using that l unfolding multisig_run_def
    by (rule fold_res_invariant [where P = "\<lambda>s. locked (Address 4) (mss s)"]) (auto intro: locked_multisig_exec)
  then have "multisig (mss s') = Some \<lparr> signers = [Address 4, Address 4], threshold = 2 \<rparr> \<and>
      (\<forall>e a i. \<not> is_ok (execute_proposal e a i s'))" if "multisig_run cs s = Inr s'" for cs s'
    using that locked_execute_fails unfolding locked_def by blast
  with s show ?thesis by blast
qed

theorem stale_rotation_locks_multisig_witness:
  "\<exists>s s'. multisig_run [(at_ledger 40001 4, Propose (Address 4) Pause)] s = Inr s' \<and>
     \<not> is_ok (execute_proposal (at_ledger 40002 4) (Address 4) 3 s')"
proof -
  obtain s where s: "multisig_run (rotation_script @ [(at_ledger 40000 4, FinalizeRotation (Address 4))]) admin_state = Inr s"
    and l: "\<And>cs s'. multisig_run cs s = Inr s' \<Longrightarrow> \<not> is_ok (execute_proposal (at_ledger 40002 4) (Address 4) 3 s')"
    using stale_rotation_locks_multisig by blast
  have "\<exists>s'. multisig_run [(at_ledger 40001 4, Propose (Address 4) Pause)] s = Inr s'"
    using s by (simp add: rotation_script_def multisig_run_def script_simps) (auto simp: script_simps)
  with l show ?thesis by blast
qed

end
