(* ===== verification/Admin.thy ===== *)
theory Admin
  imports Terms Multisig
begin

text \<open>
  The administrative entry points of src/contracts/invoice_liquidity/src/lib.rs: initialisation,
  parameters, token allowlist, pause, upgrade guard, migration, rollback rehearsal; the parameter
  updates of config.rs; and the read-only status views. The single-admin setters share a gate:
  the admin's signature, the per-function cooldown, and an entry of the audit log.

  The theory holds the definitions; that none of these entry points touches an invoice is shown
  with the dispatch of all calls in \<open>Calls\<close>, and that they keep the life cycle in \<open>Lifecycle\<close>. Note that
  \<open>initialize\<close> can be repeated by anybody: the flag it checks is never written.
\<close>

section \<open>Initialisation\<close>

definition initial_config :: "address \<Rightarrow> address \<Rightarrow> address \<Rightarrow> config" where
  "initial_config usdc eurc xlm = \<lparr> high_rep_threshold = 70, bonus_bps = 100, min_discount_rate_bps = 100,
     decay_rate_bps = 50, decay_period_ledgers = 10000, dispute_timeout_ledgers = 10000,
     xlm_sac_address = xlm, usdc_sac_address = usdc, eurc_sac_address = eurc, price_oracle = None,
     max_oracle_age_ledgers = DEFAULT_MAX_ORACLE_AGE_LEDGERS \<rparr>"

definition bootstrap_tokens :: "address \<Rightarrow> address \<Rightarrow> address \<Rightarrow> token_store \<Rightarrow> token_store" where
  "bootstrap_tokens usdc eurc xlm ts = ts\<lparr>
     approved_token := (approved_token ts)(usdc \<mapsto> True, eurc \<mapsto> True, xlm \<mapsto> True),
     token_decimals := (token_decimals ts)(usdc \<mapsto> 6, eurc \<mapsto> 6, xlm \<mapsto> 7),
     token_list := Some [usdc, xlm, eurc] \<rparr>"

definition initialize ::
    "'w env \<Rightarrow> address \<Rightarrow> address \<Rightarrow> address \<Rightarrow> address \<Rightarrow> 'w state \<Rightarrow> 'w state result" where
  "initialize e adm usdc eurc xlm s =
     (if invoice_count (inst s) \<noteq> None then err AlreadyInitialized
      else
        let s1 = s\<lparr> inst := (inst s)\<lparr> admin := Some adm, fee_rate := Some 0, max_discount_rate := Some 5000 \<rparr> \<rparr>;
            s2 = (if next_id (invs s1) = None then s1\<lparr> invs := (invs s1)\<lparr> next_id := Some 1 \<rparr> \<rparr> else s1);
            s3 = set_config (initial_config usdc eurc xlm) s2;
            s4 = s3\<lparr> toks := bootstrap_tokens usdc eurc xlm (toks s3) \<rparr>
        in Inr (publish (EvContractInitialized adm usdc xlm eurc (timestamp e)) s4))"

section \<open>Parameters\<close>

definition admin_gate :: "'w env \<Rightarrow> string \<Rightarrow> nat \<Rightarrow> 'w state \<Rightarrow> 'w state result" where
  "admin_gate e fn cooldown s =
     and_then (require_admin e s) (\<lambda>_.
     and_then (check_rate_limit e fn cooldown s) (\<lambda>s1.
     record_admin_action e fn s1))"

definition set_admin :: "'w env \<Rightarrow> address \<Rightarrow> 'w state \<Rightarrow> 'w state result" where
  "set_admin e new_admin s =
     and_then (admin_gate e ''set_admin'' ADMIN_CHANGE_COOLDOWN_LEDGERS s) (\<lambda>s1.
     and_then (expect (get_admin s1)) (\<lambda>old_admin.
     Inr (publish (EvAdminChanged old_admin new_admin (timestamp e)) (store_admin new_admin s1))))"

definition update_fee_rate :: "'w env \<Rightarrow> nat \<Rightarrow> 'w state \<Rightarrow> 'w state result" where
  "update_fee_rate e rate s =
     and_then (admin_gate e ''update_fee_rate'' ECONOMIC_PARAM_COOLDOWN_LEDGERS s) (\<lambda>s1.
     let old_rate = unwrap_or (fee_rate (inst s1)) 0; s2 = store_fee_rate rate s1 in
     and_then (ok_or_err (get_admin s2) Unauthorized) (\<lambda>updated_by.
     Inr (publish (EvParameterUpdated ''protocol_fee_rate_bps'' (int old_rate) (int rate) updated_by) s2)))"

definition update_max_discount :: "'w env \<Rightarrow> nat \<Rightarrow> 'w state \<Rightarrow> 'w state result" where
  "update_max_discount e rate s =
     and_then (admin_gate e ''update_max_discount'' ECONOMIC_PARAM_COOLDOWN_LEDGERS s) (\<lambda>s1.
     let old_rate = unwrap_or (max_discount_rate (inst s1)) 0; s2 = store_max_discount_rate rate s1 in
     and_then (ok_or_err (get_admin s2) Unauthorized) (\<lambda>updated_by.
     Inr (publish (EvParameterUpdated ''max_discount_rate_bps'' (int old_rate) (int rate) updated_by) s2)))"

definition update_decay_params :: "'w env \<Rightarrow> nat \<Rightarrow> nat \<Rightarrow> 'w state \<Rightarrow> 'w state result" where
  "update_decay_params e rate_bps period_ledgers s =
     and_then (admin_gate e ''update_decay_params'' ECONOMIC_PARAM_COOLDOWN_LEDGERS s) (\<lambda>s1.
     and_then (ok_or_err (get_admin s1) Unauthorized) (\<lambda>adm.
     and_then (ok_or_err (get_config s1) Unauthorized) (\<lambda>c.
     let s2 = set_config (c\<lparr> decay_rate_bps := rate_bps, decay_period_ledgers := period_ledgers \<rparr>) s1;
         s3 = publish (EvParameterUpdated ''decay_rate_bps'' (int (decay_rate_bps c)) (int rate_bps) adm) s2
     in Inr (publish (EvParameterUpdated ''decay_period_ledgers'' (int (decay_period_ledgers c))
               (int period_ledgers) adm) s3))))"

definition set_distribution_contract :: "'w env \<Rightarrow> address \<Rightarrow> 'w state \<Rightarrow> 'w state result" where
  "set_distribution_contract e d s =
     and_then (admin_gate e ''set_distribution_contract'' DEFAULT_RATE_LIMIT_LEDGERS s) (\<lambda>s1.
     let old_d = distribution_contract (inst s1);
         s2 = s1\<lparr> inst := (inst s1)\<lparr> distribution_contract := Some d \<rparr> \<rparr> in
     and_then (ok_or_err (get_admin s2) Unauthorized) (\<lambda>updated_by.
     Inr (publish (EvDistributionContractUpdated old_d d updated_by) s2)))"

text \<open>\<open>config::set_price_oracle\<close> and \<open>config::set_max_oracle_age\<close>; their errors all become
  \<open>Unauthorized\<close> in the entry points.\<close>

definition update_config_of :: "address \<Rightarrow> (config \<Rightarrow> config) \<Rightarrow> 'w state \<Rightarrow> 'w state result" where
  "update_config_of caller f s =
     and_then (ok_or_err (get_admin s) Unauthorized) (\<lambda>adm.
     and_then (ok_or_err (get_config s) Unauthorized) (\<lambda>c.
     if caller \<noteq> adm then err Unauthorized else Inr (set_config (f c) s)))"

definition set_price_oracle :: "'w env \<Rightarrow> address \<Rightarrow> 'w state \<Rightarrow> 'w state result" where
  "set_price_oracle e orc s =
     and_then (admin_gate e ''set_price_oracle'' DEFAULT_RATE_LIMIT_LEDGERS s) (\<lambda>s1.
     and_then (ok_or_err (get_admin s1) Unauthorized) (\<lambda>adm.
     let old_oracle = (case get_config s1 of Some c \<Rightarrow> price_oracle c | None \<Rightarrow> None) in
     and_then (update_config_of adm (\<lambda>c. c\<lparr> price_oracle := Some orc \<rparr>) s1) (\<lambda>s2.
     Inr (publish (EvPriceOracleUpdated old_oracle orc adm) s2))))"

definition get_max_oracle_age :: "'w state \<Rightarrow> nat" where
  "get_max_oracle_age s =
     (case get_config s of Some c \<Rightarrow> max_oracle_age_ledgers c | None \<Rightarrow> DEFAULT_MAX_ORACLE_AGE_LEDGERS)"

definition set_max_oracle_age :: "'w env \<Rightarrow> nat \<Rightarrow> 'w state \<Rightarrow> 'w state result" where
  "set_max_oracle_age e max_age s =
     and_then (admin_gate e ''set_max_oracle_age'' DEFAULT_RATE_LIMIT_LEDGERS s) (\<lambda>s1.
     and_then (ok_or_err (get_admin s1) Unauthorized) (\<lambda>adm.
     let old_max_age = get_max_oracle_age s1 in
     and_then (update_config_of adm (\<lambda>c. c\<lparr> max_oracle_age_ledgers := max_age \<rparr>) s1) (\<lambda>s2.
     Inr (publish (EvParameterUpdated ''max_oracle_age_ledgers'' (int old_max_age) (int max_age) adm) s2))))"

definition set_insurance_pool :: "'w env \<Rightarrow> address \<Rightarrow> 'w state \<Rightarrow> 'w state result" where
  "set_insurance_pool e pool s =
     and_then (admin_gate e ''set_insurance_pool'' DEFAULT_RATE_LIMIT_LEDGERS s) (\<lambda>s1.
     Inr (store_insurance_pool pool s1))"

definition set_min_payer_reputation :: "'w env \<Rightarrow> nat \<Rightarrow> 'w state \<Rightarrow> 'w state result" where
  "set_min_payer_reputation e v s =
     and_then (admin_gate e ''set_min_payer_reputation'' ECONOMIC_PARAM_COOLDOWN_LEDGERS s) (\<lambda>s1.
     and_then (ok_or_err (get_admin s1) Unauthorized) (\<lambda>updated_by.
     Inr (publish (EvParameterUpdated ''min_payer_reputation'' (int (get_min_payer_reputation s1)) (int v) updated_by)
       (store_min_payer_reputation v s1))))"

text \<open>The two rollout caps are set without an entry in the audit log.\<close>

definition set_max_invoice_amount :: "'w env \<Rightarrow> int \<Rightarrow> 'w state \<Rightarrow> 'w state result" where
  "set_max_invoice_amount e v s =
     and_then (require_admin e s) (\<lambda>_.
     and_then (check_rate_limit e ''set_max_invoice_amount'' ECONOMIC_PARAM_COOLDOWN_LEDGERS s) (\<lambda>s1.
     and_then (ok_or_err (get_admin s1) Unauthorized) (\<lambda>updated_by.
     Inr (publish (EvParameterUpdated ''max_invoice_amount'' (get_max_invoice_amount s1) v updated_by)
       (store_max_invoice_amount v s1)))))"

definition set_token_volume_cap :: "'w env \<Rightarrow> address \<Rightarrow> int \<Rightarrow> 'w state \<Rightarrow> 'w state result" where
  "set_token_volume_cap e t v s =
     and_then (require_admin e s) (\<lambda>_.
     and_then (check_rate_limit e ''set_token_volume_cap'' ECONOMIC_PARAM_COOLDOWN_LEDGERS s) (\<lambda>s1.
     and_then (ok_or_err (get_admin s1) Unauthorized) (\<lambda>updated_by.
     Inr (publish (EvParameterUpdated ''token_volume_cap'' (get_token_volume_cap t s1) v updated_by)
       (store_token_volume_cap t v s1)))))"

definition update_fee_tiers :: "'w env \<Rightarrow> (int \<times> nat) list \<Rightarrow> 'w state \<Rightarrow> 'w state result" where
  "update_fee_tiers e tiers s =
     and_then (require_admin e s) (\<lambda>_.
     if length tiers > MAX_FEE_TIERS e then err TooManyFeeTiers
     else and_then (check_rate_limit e ''update_fee_tiers'' ECONOMIC_PARAM_COOLDOWN_LEDGERS s) (\<lambda>s1.
          and_then (record_admin_action e ''update_fee_tiers'' s1) (\<lambda>s2.
          and_then (ok_or_err (get_admin s2) Unauthorized) (\<lambda>_.
          Inr (publish (EvFeeTiersUpdated (length tiers))
            (s2\<lparr> inst := (inst s2)\<lparr> fee_tiers := Some tiers \<rparr> \<rparr>))))))"

section \<open>config::update_config\<close>

datatype config_error =
  ConfigUnauthorized | InvalidBonusBps | InvalidMinDiscountRate | ConfigInvalidDecayRate | ConfigInvalidRepThreshold

datatype config_failure = ConfigErr config_error | ConfigTrap

definition update_config ::
    "'w env \<Rightarrow> address \<Rightarrow> nat \<Rightarrow> nat \<Rightarrow> nat \<Rightarrow> nat \<Rightarrow> nat \<Rightarrow> nat \<Rightarrow> address \<Rightarrow> address \<Rightarrow> address \<Rightarrow>
     'w state \<Rightarrow> config_failure + 'w state" where
  "update_config e caller high_rep bonus min_rate decay_rate decay_period dispute_timeout xlm usdc eurc s =
     and_then (ok_or (get_admin s) (ConfigErr ConfigUnauthorized)) (\<lambda>adm.
     and_then (ok_or (get_config s) (ConfigErr ConfigUnauthorized)) (\<lambda>old.
     if caller \<notin> auths e then Inl ConfigTrap
     else if caller \<noteq> adm then Inl (ConfigErr ConfigUnauthorized)
     else if bonus > 500 then Inl (ConfigErr InvalidBonusBps)
     else if min_rate = 0 \<or> min_rate \<ge> 10000 then Inl (ConfigErr InvalidMinDiscountRate)
     else if decay_rate > 500 then Inl (ConfigErr ConfigInvalidDecayRate)
     else if high_rep > 100 then Inl (ConfigErr ConfigInvalidRepThreshold)
     else
       let new = \<lparr> high_rep_threshold = high_rep, bonus_bps = bonus, min_discount_rate_bps = min_rate,
             decay_rate_bps = decay_rate, decay_period_ledgers = decay_period,
             dispute_timeout_ledgers = dispute_timeout, xlm_sac_address = xlm, usdc_sac_address = usdc,
             eurc_sac_address = eurc, price_oracle = price_oracle old,
             max_oracle_age_ledgers = max_oracle_age_ledgers old \<rparr>;
           emit = (\<lambda>nm old_v new_v. publish (EvParameterUpdated nm (int old_v) (int new_v) caller))
       in Inr ((emit ''dispute_timeout_ledgers'' (dispute_timeout_ledgers old) dispute_timeout
             \<circ> emit ''decay_period_ledgers'' (decay_period_ledgers old) decay_period
             \<circ> emit ''decay_rate_bps'' (decay_rate_bps old) decay_rate
             \<circ> emit ''min_discount_rate_bps'' (min_discount_rate_bps old) min_rate
             \<circ> emit ''bonus_bps'' (bonus_bps old) bonus
             \<circ> emit ''high_rep_threshold'' (high_rep_threshold old) high_rep)
            (set_config new s))))"

section \<open>Tokens\<close>

definition list_token :: "address \<Rightarrow> nat \<Rightarrow> 'w state \<Rightarrow> 'w state" where
  "list_token t decimals s =
     (let ts = (toks s)\<lparr> approved_token := (approved_token (toks s))(t \<mapsto> True),
                       token_decimals := (token_decimals (toks s))(t \<mapsto> decimals) \<rparr>;
          lst = unwrap_or (token_list ts) []
      in s\<lparr> toks := (if t \<in> set lst then ts else ts\<lparr> token_list := Some (lst @ [t]) \<rparr>) \<rparr>)"

text \<open>The probe transfer. A short delivery is returned and rejected; the rejection undoes both.\<close>

definition probe_token :: "'w env \<Rightarrow> address \<Rightarrow> address \<Rightarrow> 'w state \<Rightarrow> 'w state result" where
  "probe_token e t adm s =
     (let test_amount = 1000000 in
      and_then (token_balance e t (self e) s) (\<lambda>before_balance.
      and_then (token_transfer e t adm (self e) test_amount s) (\<lambda>s1.
      and_then (token_balance e t (self e) s1) (\<lambda>after_balance.
      let received = unwrap_or (checked_sub after_balance before_balance) 0 in
      if received \<noteq> test_amount then
        and_then (if received > 0 then token_transfer e t (self e) adm received s1 else Inr s1)
          (\<lambda>_. err FeeOnTransferToken)
      else token_transfer e t (self e) adm test_amount s1))))"

definition add_token :: "'w env \<Rightarrow> address \<Rightarrow> nat \<Rightarrow> 'w state \<Rightarrow> 'w state result" where
  "add_token e t decimals s =
     and_then (admin_gate e ''add_token'' DEFAULT_RATE_LIMIT_LEDGERS s) (\<lambda>s1.
     and_then (expect (get_admin s1)) (\<lambda>adm.
     and_then (validate_token_decimals e t decimals s1) (\<lambda>_.
     and_then (validate_sac_authorization e t adm s1) (\<lambda>_.
     and_then (probe_token e t adm s1) (\<lambda>s2.
     Inr (publish (EvTokenAdded t decimals) (list_token t decimals s2)))))))"

definition remove_token :: "'w env \<Rightarrow> address \<Rightarrow> 'w state \<Rightarrow> 'w state result" where
  "remove_token e t s =
     and_then (admin_gate e ''remove_token'' DEFAULT_RATE_LIMIT_LEDGERS s) (\<lambda>s1.
     Inr (publish (EvTokenRemoved t) (delist_token t s1)))"

definition get_token_decimals :: "address \<Rightarrow> 'w state \<Rightarrow> nat option" where
  "get_token_decimals t s = token_decimals (toks s) t"

definition correct_token_decimals :: "'w env \<Rightarrow> address \<Rightarrow> nat \<Rightarrow> 'w state \<Rightarrow> 'w state result" where
  "correct_token_decimals e t decimals s =
     and_then (require_admin e s) (\<lambda>_.
     if \<not> is_approved_token t s then err Unauthorized
     else and_then (check_rate_limit e ''correct_token_decimals'' DEFAULT_RATE_LIMIT_LEDGERS s) (\<lambda>s1.
       and_then (validate_token_decimals e t decimals s1) (\<lambda>_.
       let old_decimals = token_decimals (toks s1) t in
       and_then (record_admin_action e ''correct_token_decimals'' s1) (\<lambda>s2.
       let s3 = s2\<lparr> toks := (toks s2)\<lparr> token_decimals := (token_decimals (toks s2))(t \<mapsto> decimals) \<rparr> \<rparr> in
       and_then (ok_or_err (get_admin s3) Unauthorized) (\<lambda>updated_by.
       Inr (publish (EvTokenDecimalsCorrected t (unwrap_or old_decimals decimals) decimals updated_by) s3))))))"

definition claim_pending_payout :: "'w env \<Rightarrow> address \<Rightarrow> address \<Rightarrow> 'w state \<Rightarrow> ('w, int) outcome" where
  "claim_pending_payout e recipient t s =
     and_then (lock_reentrancy s) (\<lambda>s1.
     if is_paused s1 then err ContractPaused
     else and_then (require_auth e recipient) (\<lambda>_.
       and_then (claim_pending e recipient t s1) (\<lambda>(a, s2).
       Inr (a, unlock_reentrancy s2))))"

section \<open>Pause, upgrade, migration, rollback rehearsal\<close>

definition pause :: "'w env \<Rightarrow> 'w state \<Rightarrow> 'w state result" where
  "pause e s =
     and_then (require_admin e s) (\<lambda>_.
     and_then (record_admin_action e ''pause'' s) (\<lambda>s1.
     Inr (publish (EvContractPaused (timestamp e)) (set_paused e True s1))))"

definition unpause :: "'w env \<Rightarrow> 'w state \<Rightarrow> 'w state result" where
  "unpause e s =
     and_then (require_admin e s) (\<lambda>_.
     and_then (record_admin_action e ''unpause'' s) (\<lambda>s1.
     Inr (publish (EvContractUnpaused (timestamp e)) (set_paused e False s1))))"

text \<open>The ids a sample of size \<open>n\<close> visits, newest first.\<close>

definition sample_ids :: "nat \<Rightarrow> 'w state \<Rightarrow> nat list" where
  "sample_ids n s =
     (let last_id = read_next_invoice_id s - 1 in rev [last_id - (n - 1)..<last_id + 1])"

definition ttl_ok_at :: "'w env \<Rightarrow> nat \<Rightarrow> 'w state \<Rightarrow> bool" where
  "ttl_ok_at e i s \<longleftrightarrow>
     (invoice_core_at (invs s) i \<noteq> None \<longrightarrow> TTL_MIN_LEDGERS_BEFORE_UPGRADE e \<le> get_ttl e (TtlInvoiceCore i)) \<and>
     (invoice_metadata_at (invs s) i \<noteq> None \<longrightarrow> TTL_MIN_LEDGERS_BEFORE_UPGRADE e \<le> get_ttl e (TtlInvoiceMetadata i)) \<and>
     (fund_queue (ques s) i \<noteq> None \<longrightarrow> TTL_MIN_LEDGERS_BEFORE_UPGRADE e \<le> get_ttl e (TtlFundQueue i)) \<and>
     (fund_queue_opened_at (ques s) i \<noteq> None \<longrightarrow> TTL_MIN_LEDGERS_BEFORE_UPGRADE e \<le> get_ttl e (TtlFundQueueOpenedAt i)) \<and>
     (queue_resolution (ques s) i \<noteq> None \<longrightarrow> TTL_MIN_LEDGERS_BEFORE_UPGRADE e \<le> get_ttl e (TtlQueueResolution i))"

definition validate_ttl_fields_pre_upgrade :: "'w env \<Rightarrow> 'w state \<Rightarrow> unit result" where
  "validate_ttl_fields_pre_upgrade e s =
     (if read_next_invoice_id s \<le> 1 then Inr ()
      else if list_all (\<lambda>i. ttl_ok_at e i s) (sample_ids (TTL_UPGRADE_SAMPLE_SIZE e) s) then Inr ()
      else err UpgradeRemovesTtlFields)"

text \<open>
  \<open>upgrade\<close> also hands the new code to the host (\<open>update_current_contract_wasm\<close>). That changes no
  storage of the contract: it decides which code serves the next call, and the model describes this
  code only.
\<close>

definition upgrade :: "'w env \<Rightarrow> bytes32 \<Rightarrow> 'w state \<Rightarrow> 'w state result" where
  "upgrade e new_wasm_hash s =
     and_then (admin_gate e ''upgrade'' UPGRADE_COOLDOWN_LEDGERS s) (\<lambda>s1.
     and_then (ok_or_err (get_admin s1) Unauthorized) (\<lambda>adm.
     and_then (validate_ttl_fields_pre_upgrade e s1) (\<lambda>_.
     Inr (publish (EvContractUpgraded adm new_wasm_hash (timestamp e)) s1))))"

definition get_storage_version :: "'w state \<Rightarrow> nat" where
  "get_storage_version s = unwrap_or (storage_version (inst s)) 1"

definition backfill_decimals :: "config \<Rightarrow> token_store \<Rightarrow> token_store" where
  "backfill_decimals c ts =
     fold (\<lambda>(t, d) ts. if token_decimals ts t = None
                       then ts\<lparr> token_decimals := (token_decimals ts)(t \<mapsto> d) \<rparr> else ts)
       [(usdc_sac_address c, 6), (eurc_sac_address c, 6), (xlm_sac_address c, 7)] ts"

definition migrate :: "'w env \<Rightarrow> 'w state \<Rightarrow> ('w, nat) outcome" where
  "migrate e s =
     and_then (require_admin e s) (\<lambda>_.
     and_then (record_admin_action e ''migrate'' s) (\<lambda>s1.
     let current = get_storage_version s1 in
     if current \<ge> CURRENT_STORAGE_VERSION then Inr (current, s1)
     else
       let s2 = (if current < 3 then
                   (case get_config s1 of
                      Some c \<Rightarrow> s1\<lparr> toks := backfill_decimals c (toks s1) \<rparr>
                    | None \<Rightarrow> s1)
                 else s1);
           s3 = s2\<lparr> inst := (inst s2)\<lparr> storage_version := Some CURRENT_STORAGE_VERSION \<rparr> \<rparr>
       in Inr (CURRENT_STORAGE_VERSION,
            publish (EvMigrated current CURRENT_STORAGE_VERSION (timestamp e)) s3)))"

definition count_layout :: "'w state \<Rightarrow> nat \<Rightarrow> rollback_report \<Rightarrow> rollback_report" where
  "count_layout s i r =
     (let has_legacy = (invoice_at (invs s) i \<noteq> None);
          has_core = (invoice_core_at (invs s) i \<noteq> None);
          has_metadata = (invoice_metadata_at (invs s) i \<noteq> None)
      in if \<not> has_legacy \<and> \<not> has_core \<and> \<not> has_metadata then r
         else
           let r1 = r\<lparr> invoices_checked := sat_add_u32 (invoices_checked r) 1 \<rparr>
           in if has_legacy then r1\<lparr> legacy_format_count := sat_add_u32 (legacy_format_count r1) 1 \<rparr>
              else if has_core \<and> has_metadata then r1\<lparr> split_format_count := sat_add_u32 (split_format_count r1) 1 \<rparr>
              else r1\<lparr> orphaned_count := sat_add_u32 (orphaned_count r1) 1 \<rparr>)"

definition check_rollback_safety :: "'w env \<Rightarrow> 'w state \<Rightarrow> rollback_report result" where
  "check_rollback_safety e s =
     (let zero = \<lparr> invoices_checked = 0, split_format_count = 0, legacy_format_count = 0,
                   orphaned_count = 0, rollback_safe = True \<rparr>
      in if read_next_invoice_id s \<le> 1 then Inr zero
         else
           let counted = fold (count_layout s) (sample_ids (ROLLBACK_SAMPLE_SIZE e) s) zero;
               report = counted\<lparr> rollback_safe := (orphaned_count counted = 0) \<rparr>
           in if rollback_safe report then Inr report else err RollbackUnsafe)"

definition rehearse_rollback :: "'w env \<Rightarrow> 'w state \<Rightarrow> ('w, rollback_report) outcome" where
  "rehearse_rollback e s =
     and_then (require_admin e s) (\<lambda>_.
     and_then (record_admin_action e ''rehearse_rollback'' s) (\<lambda>s1.
     and_then (ok_or_err (get_admin s1) Unauthorized) (\<lambda>adm.
     and_then (check_rollback_safety e s1) (\<lambda>report.
     Inr (report, publish (EvRollbackRehearsalCompleted adm report (timestamp e)) s1)))))"

end
