(* ===== verification/Examples.thy ===== *)
theory Examples
  imports Settlement MockLedger Admin
begin

text \<open>
  A small deployment for the examples of the theories below: one invoice of 1001 units of the mock
  token with a discount of 333 basis points, an administrator, a payer, a freelancer and two
  liquidity providers, and the rules that let the simplifier run the entry points on it. The
  simplifier must not look into the continuation of a bind or a \<open>let\<close> before its argument is a
  value, hence the weak congruence rules \<open>run_cong\<close>.
\<close>

definition sample_invoice :: invoice where
  "sample_invoice =
     \<lparr> inv_id = 7, freelancer = Address 3, payer = Address 2, token = Address 9, amount = 1001,
       due_date = 100, discount_rate = 333, status = Pending, funder = None, funded_at = None,
       amount_funded = 0, amount_paid = 0, referral = NoReferral, submitter_reputation = 0 \<rparr>"

definition sample_ledger :: mock_ledger where
  "sample_ledger =
     [Address 9 \<mapsto> \<lparr> mock_balances = [Address 0 \<mapsto> 5000, Address 2 \<mapsto> 2000, Address 4 \<mapsto> 1000, Address 5 \<mapsto> 1000],
        fail_next = False, mock_frozen = Map.empty \<rparr>]"

definition sample_state :: "mock_ledger state" where
  "sample_state =
     (let s = fresh_state sample_ledger
      in s\<lparr> inst := (inst s)\<lparr> admin := Some (Address 1), fee_rate := Some 50 \<rparr>,
            invs := (invs s)\<lparr> invoice_at := [7 \<mapsto> sample_invoice], next_id := Some 8 \<rparr>,
            toks := (toks s)\<lparr> approved_token := [Address 9 \<mapsto> True] \<rparr> \<rparr>)"

definition sample_params :: invoice_params where
  "sample_params =
     \<lparr> p_freelancer = Address 3, p_payer = Address 2, p_amount = 20000000, p_due_date = 1000000,
       p_discount_rate = 300, p_token = Address 9, p_referral = NoReferral \<rparr>"

definition sample_env :: "nat \<Rightarrow> address \<Rightarrow> mock_ledger env" where
  "sample_env ts a = call_env mock_ext ts ts {a}"

section \<open>Running the entry points\<close>

lemma and_then_weak_cong: "m = m' \<Longrightarrow> and_then m f = and_then m' f"
  by simp

lemmas run_cong = and_then_weak_cong let_weak_cong prod.case_cong_weak

lemma sample_env_simps [simp]:
  "timestamp (sample_env ts a) = ts" "sequence (sample_env ts a) = ts" "self (sample_env ts a) = Address 0"
  "auths (sample_env ts a) = {a}" "ext (sample_env ts a) = mock_ext"
  by (simp_all add: sample_env_def call_env_def)

lemma mock_ext_simps:
  "x_balance mock_ext w t a = map_option (\<lambda>m. mock_balance m a) (w t)"
  "x_transfer mock_ext w t as f to x =
     (case w t of None \<Rightarrow> None
      | Some m \<Rightarrow> (case mock_transfer m as f to x of Inl _ \<Rightarrow> None | Inr m' \<Rightarrow> Some (w(t \<mapsto> m'))))"
  "x_authorized mock_ext w t a = map_option (\<lambda>m. mock_authorized m a) (w t)"
  by (simp_all add: mock_ext_def)

lemma sample_state_simps [simp]:
  "inst sample_state = (inst (fresh_state sample_ledger))\<lparr> admin := Some (Address 1), fee_rate := Some 50 \<rparr>"
  "invs sample_state = (invs (fresh_state sample_ledger))\<lparr> invoice_at := [7 \<mapsto> sample_invoice], next_id := Some 8 \<rparr>"
  "toks sample_state = (toks (fresh_state sample_ledger))\<lparr> approved_token := [Address 9 \<mapsto> True] \<rparr>"
  "idxs sample_state = idxs (fresh_state sample_ledger)" "reps sample_state = reps (fresh_state sample_ledger)"
  "ques sample_state = ques (fresh_state sample_ledger)" "stats sample_state = stats (fresh_state sample_ledger)"
  "nfts sample_state = nfts (fresh_state sample_ledger)" "wld sample_state = sample_ledger"
  by (simp_all add: sample_state_def Let_def) (simp add: fresh_state_def)

lemma fresh_state_simps:
  "paused (inst (fresh_state w)) = None" "cfg (inst (fresh_state w)) = None"
  "reentrancy_lock (inst (fresh_state w)) = None" "min_payer_reputation (inst (fresh_state w)) = None"
  "distribution_contract (inst (fresh_state w)) = None" "insurance_pool (inst (fresh_state w)) = None"
  "fee_tiers (inst (fresh_state w)) = None"
  "invoice_core_at (invs (fresh_state w)) = Map.empty" "invoice_metadata_at (invs (fresh_state w)) = Map.empty"
  "invoice_funders (invs (fresh_state w)) = Map.empty" "queue_resolution (ques (fresh_state w)) = Map.empty"
  "token_volume_cap (toks (fresh_state w)) = Map.empty" "token_volume (toks (fresh_state w)) = Map.empty"
  "token_list (toks (fresh_state w)) = None" "pending_payout_total_at (toks (fresh_state w)) = Map.empty"
  "pending_payout_at (toks (fresh_state w)) = Map.empty" "invoice_nft (nfts (fresh_state w)) = Map.empty"
  "invoice_nft_owner (nfts (fresh_state w)) = Map.empty" "lp_invoices (idxs (fresh_state w)) = Map.empty"
  "lp_score (reps (fresh_state w)) = Map.empty" "payer_score (reps (fresh_state w)) = Map.empty"
  "invoice_count (inst (fresh_state w)) = None" "next_id (invs (fresh_state w)) = None"
  "max_invoice_amount (inst (fresh_state w)) = None" "invoice_at (invs (fresh_state w)) = Map.empty"
  "approved_token (toks (fresh_state w)) = Map.empty" "token_decimals (toks (fresh_state w)) = Map.empty"
  "top_payers_heap (reps (fresh_state w)) = None" "reputation (reps (fresh_state w)) = Map.empty"
  by (simp_all add: fresh_state_def)

lemmas sample_defs = sample_invoice_def fresh_state_simps sample_ledger_def mock_ext_simps mock_transfer_def
  mock_balance_def mock_authorized_def arith_defs width_defs quot_nonneg Let_def

lemmas payout_exec = pay_or_escrow_def ensure_spendable_def token_balance_def is_authorized_def query_authorized_def
  token_transfer_def pending_payout_total_def require_authorized_def transfer_out_strict_def

lemmas nft_exec = sync_nft_state_def target_owner_def nft_should_exist_def invoice_nft_exists_def
  get_invoice_nft_owner_def mint_invoice_nft_def transfer_invoice_nft_def burn_invoice_nft_def

lemmas store_exec = try_load_invoice_def save_invoice_def save_invoice_funders_def get_invoice_funders_def
  set_lock_def lock_reentrancy_def unlock_reentrancy_def to_u32_def is_paused_def publish_def require_auth_def
  invoice_exists_def load_invoice_def

lemmas fund_exec = fund_invoice_def fund_checks_def get_queue_resolution_def is_approved_token_def
  reputation_gate_def get_min_payer_reputation_def oracle_gate_def require_fundable_def volume_gate_def
  get_token_volume_cap_def collect_cost_def complete_funding_def finish_funding_def funding_cost_def
  discount_on_def discount_rate_as_i128_def notify_distribution_funding_def increment_total_funded_def
  add_invoice_to_lp_def set_lp_score_def get_lp_score_def add_volume_def get_token_volume_def
  is_xlm_token_def is_usdc_token_def is_eurc_token_def get_lp_invoices_def

text \<open>On an empty leaderboard a score is simply entered.\<close>

lemma update_heap_empty [simp]: "update_heap a sc [] = Inr [\<lparr> tp_address = a, tp_score = sc \<rparr>]"
  by (simp add: update_heap_def remove_payer_from_heap_def find_payer_def insert_into_heap_def TOP_PAYERS_CAPACITY_def
      sift_up.simps [of _ 0])

lemmas score_exec = get_payer_score_def set_payer_score_def store_payer_score_def clear_payer_score_def
  sync_profile_score_def set_reputation_def get_reputation_def update_top_payers_on_score_change_def
  get_top_payers_heap_def save_top_payers_heap_def
  DEFAULT_PAYER_SCORE_def sat_add_u32_def

lemmas submit_exec = initialize_def initial_config_def bootstrap_tokens_def set_config_def submit_invoice_def
  MAX_DISCOUNT_RATE_def get_max_invoice_amount_def validate_invoice_terms_with_token_def
  validate_invoice_terms_for_min_def registered_token_decimals_def MIN_INVOICE_DURATION_def MAX_INVOICE_DURATION_def
  sat_add_u64_def store_submission_def next_invoice_id_def read_next_invoice_id_def write_next_invoice_id_def
  submitted_invoice_def add_invoice_to_submitter_def increment_total_invoices_def count_referral_def sample_params_def

lemmas default_exec = claim_default_def require_funded_def penalize_payer_def claim_insurance_def
  save_pre_default_payer_score_def get_insurance_pool_def

lemmas payment_exec = mark_paid_def take_payment_def require_payer_by_id_def require_funded_def settle_def
  protocol_fee_of_def effective_fee_rate_def get_fee_tiers_def pay_fee_def funder_share_def
  record_partial_payment_def reward_payment_def notify_distribution_settlement_def increment_total_paid_def

lemmas run_exec = sample_defs payout_exec nft_exec store_exec fund_exec

end
