(* ===== verification/Solvency.thy ===== *)
theory Solvency
  imports Examples
begin

text \<open>
  The money of the contract: what it holds of a token beyond what it has escrowed, and how funding,
  payment, default, cancellation and dispute change that amount. The laws used of the token are
  those of SEP-41; of the distribution and insurance contracts only that they do not touch the
  balances of this contract. Both are discharged for the repository's mock token.

  Shown here: a funding call adds its discounted cost and, when it completes the funding, pays the
  freelancer, so a fully funded invoice leaves only rounding dust in the contract; a full payment
  pays out at most what came in and keeps less than one unit per recipient; the refunds of a default
  therefore come out of what other invoices have in the contract.
\<close>

section \<open>The spendable amount\<close>

definition spendable :: "'w env \<Rightarrow> address \<Rightarrow> 'w state \<Rightarrow> int option" where
  "spendable e t s = map_option (\<lambda>v. v - pending_payout_total t s) (x_balance (ext e) (wld s) t (self e))"

definition refund_total :: "invoice \<Rightarrow> funders \<Rightarrow> int" where
  "refund_total i fs = sum_list (map (\<lambda>(_, amt). funding_cost i amt) fs)"

definition share_total :: "invoice \<Rightarrow> int \<Rightarrow> funders \<Rightarrow> int" where
  "share_total i d fs = sum_list (map (\<lambda>(_, amt). funder_share i d amt) fs)"

text \<open>Refunds and distributions are both a sequence of payouts of one token for one invoice.\<close>

fun pay_all :: "'w env \<Rightarrow> address \<Rightarrow> nat \<Rightarrow> (address \<times> int) list \<Rightarrow> 'w state \<Rightarrow> 'w state result" where
  "pay_all e t n [] s = Inr s"
| "pay_all e t n ((a, x) # ps) s = and_then (pay_or_escrow e t a x n s) (\<lambda>(_, s1). pay_all e t n ps s1)"

text \<open>The terms for which the arithmetic of the code is exact: no product leaves \<open>i128\<close>.\<close>

definition terms_exact :: "invoice \<Rightarrow> bool" where
  "terms_exact i \<longleftrightarrow> 0 < amount i \<and> discount_rate i \<le> 10000 \<and> amount i * 10000 \<le> i128_max"

definition funders_ok :: "'w env \<Rightarrow> invoice \<Rightarrow> funders \<Rightarrow> bool" where
  "funders_ok e i fs \<longleftrightarrow>
     list_all (\<lambda>(a, amt). a \<noteq> self e \<and> 0 \<le> amt) fs \<and> sum_list (map snd fs) = amount_funded i"

text \<open>A sequence of funding calls for one invoice.\<close>

fun fund_run :: "nat \<Rightarrow> ('w env \<times> address \<times> int \<times> bool) list \<Rightarrow> 'w state \<Rightarrow> 'w state result" where
  "fund_run n [] s = Inr s"
| "fund_run n ((e, fdr, a, b) # cs) s = and_then (fund_invoice e fdr n a b s) (fund_run n cs)"

definition call_ok :: "'w env \<Rightarrow> 'w env \<times> address \<times> int \<times> bool \<Rightarrow> bool" where
  "call_ok e0 c = (case c of (e, fdr, a, b) \<Rightarrow> ext e = ext e0 \<and> self e = self e0 \<and> fdr \<noteq> self e0 \<and> 0 \<le> a)"

definition total_cost :: "invoice \<Rightarrow> ('w env \<times> address \<times> int \<times> bool) list \<Rightarrow> int" where
  "total_cost i cs = sum_list (map (\<lambda>(_, _, a, _). funding_cost i a) cs)"

text \<open>A sequence of payments for one invoice, all by its payer.\<close>

fun pay_run :: "nat \<Rightarrow> ('w env \<times> int) list \<Rightarrow> 'w state \<Rightarrow> 'w state result" where
  "pay_run n [] s = Inr s"
| "pay_run n ((e, a) # cs) s = and_then (mark_paid e n a s) (pay_run n cs)"

text \<open>
  The account of invoice \<open>n\<close>: its record \<open>i\<close>, its funders and the spendable amount \<open>v\<close> of its token.
\<close>

definition account :: "'w env \<Rightarrow> nat \<Rightarrow> invoice \<Rightarrow> 'w state \<Rightarrow> int \<Rightarrow> bool" where
  "account e n i s v \<longleftrightarrow>
     no_split s \<and> invoice_at (invs s) n = Some i \<and> inv_id i = n \<and> freelancer i \<noteq> self e \<and> terms_exact i \<and>
     (amount_funded i = amount i \<longleftrightarrow> status i = Funded) \<and>
     escrow_ok (toks s) \<and> funders_ok e i (get_invoice_funders n s) \<and> spendable e (token i) s = Some v"

definition same_terms :: "invoice \<Rightarrow> invoice \<Rightarrow> bool" where
  "same_terms i j \<longleftrightarrow>
     token i = token j \<and> amount i = amount j \<and> discount_rate i = discount_rate j \<and> due_date i = due_date j \<and>
     freelancer i = freelancer j \<and> payer i = payer j \<and> amount_paid i = amount_paid j"

section \<open>Arithmetic of discounts and shares\<close>

lemma funding_cost_exact:
  assumes "terms_exact i" "0 \<le> a" "a \<le> amount i"
  shows "funding_cost i a = a - a * int (discount_rate i) div 10000"
    and "0 \<le> funding_cost i a" "funding_cost i a \<le> a"
proof -
  let ?r = "int (discount_rate i)"
  have r: "?r \<le> 10000" "a * 10000 \<le> i128_max" using assms by (auto simp: terms_exact_def)
  have p: "0 \<le> a * ?r" "a * ?r \<le> a * 10000" using assms(2) r by (auto intro: mult_left_mono)
  then have "in_i128 (a * ?r)" using r by (simp add: in_i128_def width_defs)
  then have d: "discount_on a (discount_rate i) = a * ?r div 10000"
    using p by (simp add: discount_on_def discount_rate_as_i128_def checked_mul_def quot_nonneg)
  have "0 \<le> a * ?r div 10000" "a * ?r div 10000 \<le> a" using p by linarith+
  moreover from this have "in_i128 (a - a * ?r div 10000)" using r assms(2) by (simp add: in_i128_def width_defs)
  ultimately show "funding_cost i a = a - a * ?r div 10000" "0 \<le> funding_cost i a" "funding_cost i a \<le> a"
    by (simp_all add: funding_cost_def saturating_sub_def d)
qed

lemma div_add_bounds:
  fixes x y m :: int assumes "0 < m"
  shows "x div m + y div m \<le> (x + y) div m" "(x + y) div m \<le> x div m + y div m + 1"
proof -
  have eq: "(x + y) div m = x div m + y div m + (x mod m + y mod m) div m" by (rule div_add1_eq)
  have "0 \<le> x mod m" "x mod m < m" "0 \<le> y mod m" "y mod m < m" using assms by simp_all
  then have "0 \<le> x mod m + y mod m" "x mod m + y mod m < 2 * m" by linarith+
  moreover have "(x mod m + y mod m + (- 2) * m) div m = - 2 + (x mod m + y mod m) div m"
    using assms by (intro div_mult_self1) simp
  ultimately have "0 \<le> (x mod m + y mod m) div m" "\<not> 0 \<le> - 2 + (x mod m + y mod m) div m"
    using assms pos_imp_zdiv_nonneg_iff [of m "x mod m + y mod m"]
      pos_imp_zdiv_nonneg_iff [of m "x mod m + y mod m + (- 2) * m"] by simp_all
  then show "x div m + y div m \<le> (x + y) div m" "(x + y) div m \<le> x div m + y div m + 1" using eq by auto
qed

lemma funding_cost_add:
  assumes "terms_exact i" "0 \<le> a" "0 \<le> b" "a + b \<le> amount i"
  shows "funding_cost i (a + b) \<le> funding_cost i a + funding_cost i b"
    and "funding_cost i a + funding_cost i b \<le> funding_cost i (a + b) + 1"
proof -
  note c = funding_cost_exact(1) [OF assms(1)]
  have "funding_cost i a = a - a * int (discount_rate i) div 10000"
    "funding_cost i b = b - b * int (discount_rate i) div 10000"
    "funding_cost i (a + b) = a + b - (a * int (discount_rate i) + b * int (discount_rate i)) div 10000"
    using c [of a] c [of b] c [of "a + b"] assms by (simp_all add: distrib_right)
  then show "funding_cost i (a + b) \<le> funding_cost i a + funding_cost i b"
    and "funding_cost i a + funding_cost i b \<le> funding_cost i (a + b) + 1"
    using div_add_bounds [of 10000 "a * int (discount_rate i)" "b * int (discount_rate i)"] by linarith+
qed

lemma funding_cost_same_terms: "same_terms i j \<Longrightarrow> funding_cost i = funding_cost j"
  by (simp add: same_terms_def funding_cost_def fun_eq_iff)

text \<open>Splitting an amount into parts costs at most one unit per part more than the whole.\<close>

lemma funding_cost_sum:
  assumes "terms_exact i" "list_all (\<lambda>a. 0 \<le> a) xs" "sum_list xs \<le> amount i"
  shows "funding_cost i (sum_list xs) \<le> sum_list (map (funding_cost i) xs) \<and>
    (xs \<noteq> [] \<longrightarrow> sum_list (map (funding_cost i) xs) < funding_cost i (sum_list xs) + int (length xs))"
  using assms(2,3)
proof (induction xs)
  case Nil
  show ?case using funding_cost_exact [OF assms(1), of 0] assms(1) by (simp add: terms_exact_def)
next
  case (Cons a xs)
  have nn: "0 \<le> sum_list xs" using Cons.prems(1) by (auto simp: list_all_iff intro: sum_list_nonneg)
  have h: "0 \<le> a" "a + sum_list xs \<le> amount i" using Cons.prems by simp_all
  note add = funding_cost_add [OF assms(1) h(1) nn h(2)]
  show ?case
  proof (cases "xs = []")
    case False
    then show ?thesis using Cons.IH Cons.prems h(1) add by (simp add: list_all_iff)
  qed simp
qed

text \<open>Rounding each share of an amount down loses less than one unit per share.\<close>

lemma sum_div_bounds:
  fixes d m :: int assumes "0 < m" "0 \<le> d"
  shows "sum_list (map (\<lambda>x. d * x div m) xs) * m \<le> d * sum_list xs \<and>
    (xs \<noteq> [] \<longrightarrow> d * sum_list xs < sum_list (map (\<lambda>x. d * x div m) xs) * m + int (length xs) * m)"
proof (induction xs)
  case (Cons x xs)
  have "d * x div m * m \<le> d * x" "d * x < d * x div m * m + m"
    using assms(1) pos_mod_bound [of m "d * x"] pos_mod_sign [of m "d * x"] div_mult_mod_eq [of "d * x" m] by linarith+
  then show ?case using Cons.IH by (cases "xs = []") (simp_all add: algebra_simps)
qed simp

lemma share_total_bounds:
  assumes "0 < amount i" "0 \<le> d" "d \<le> amount i" "amount i * amount i \<le> i128_max"
    "list_all (\<lambda>(_, x). 0 \<le> x) fs" "sum_list (map snd fs) = amount i"
  shows "list_all (\<lambda>(_, x). 0 \<le> funder_share i d x) fs \<and>
    share_total i d fs \<le> d \<and> d < share_total i d fs + int (length fs)"
proof -
  let ?m = "amount i"
  have le: "0 \<le> x \<and> x \<le> ?m" if "(a, x) \<in> set fs" for a x
    using member_le_sum_list [of x "map snd fs"] assms(5,6) that by (force simp: list_all_iff)
  have sh: "funder_share i d x = d * x div ?m" if "(a, x) \<in> set fs" for a x
  proof -
    have "0 \<le> d * x" "d * x \<le> ?m * ?m" using le [OF that] assms(2,3) by (auto intro: mult_mono)
    then have "in_i128 (d * x)" using assms(4) by (simp add: in_i128_def width_defs)
    then show ?thesis using \<open>0 \<le> d * x\<close> assms(1) by (simp add: funder_share_def checked_mul_def quot_nonneg)
  qed
  have "map (\<lambda>(_, x). funder_share i d x) fs = map (\<lambda>x. d * x div ?m) (map snd fs)" using sh by auto
  then have st: "share_total i d fs = sum_list (map (\<lambda>x. d * x div ?m) (map snd fs))"
    unfolding share_total_def by (rule arg_cong)
  have ne: "map snd fs \<noteq> []" using assms(1,6) by auto
  have "share_total i d fs * ?m \<le> d * ?m" "d * ?m < (share_total i d fs + int (length fs)) * ?m"
    using sum_div_bounds [OF assms(1,2), of "map snd fs"] ne assms(6) by (simp_all add: st algebra_simps)
  then have "share_total i d fs \<le> d" "d < share_total i d fs + int (length fs)"
    using assms(1) by (simp_all only: mult_le_cancel_right_pos mult_less_cancel_right_pos)
  moreover have "list_all (\<lambda>(_, x). 0 \<le> funder_share i d x) fs"
    using sh le assms(1,2) by (auto simp: list_all_iff intro!: pos_imp_zdiv_nonneg_iff [THEN iffD2])
  ultimately show ?thesis by simp
qed

lemma protocol_fee_bounds:
  assumes "terms_exact i" "effective_fee_rate (amount i) s \<le> 10000"
  shows "0 \<le> protocol_fee_of i s" "protocol_fee_of i s \<le> amount i"
    "protocol_fee_of i s = amount i * int (effective_fee_rate (amount i) s) div 10000"
proof -
  let ?r = "int (effective_fee_rate (amount i) s)"
  have p: "0 \<le> amount i * ?r" "amount i * ?r \<le> amount i * 10000"
    using assms by (auto simp: terms_exact_def intro: mult_left_mono)
  then have "in_i128 (amount i * ?r)"
    using assms(1) unfolding terms_exact_def in_i128_def width_defs by linarith
  with p show "0 \<le> protocol_fee_of i s" "protocol_fee_of i s \<le> amount i"
    "protocol_fee_of i s = amount i * ?r div 10000"
    by (simp_all add: protocol_fee_of_def checked_mul_def quot_nonneg)
qed

section \<open>Payouts and the spendable amount\<close>

lemma refund_funders_pay_all:
  "refund_funders e n i fs s = pay_all e (token i) n (map (\<lambda>(a, amt). (a, funding_cost i amt)) fs) s"
  by (induction e n i fs s rule: refund_funders.induct)
    (auto simp: funding_cost_def and_then_def split: sum.split)

lemma distribute_pay_all:
  "distribute e n i d fs s = pay_all e (token i) n (map (\<lambda>(a, amt). (a, funder_share i d amt)) fs) s"
  by (induction e n i d fs s rule: distribute.induct) (auto simp: and_then_def split: sum.split)

lemma spendable_frame:
  "wld s' = wld s \<Longrightarrow> toks s' = toks s \<Longrightarrow> spendable e t s' = spendable e t s"
  by (simp add: spendable_def pending_payout_total_def)

lemma escrow_ok_volume [simp]: "escrow_ok (ts\<lparr> token_volume := m \<rparr>) = escrow_ok ts"
  by (simp add: escrow_ok_def owed_to_def)

lemma spendable_volume:
  "wld s' = wld s \<Longrightarrow> toks s' = (toks s)\<lparr> token_volume := m \<rparr> \<Longrightarrow> spendable e t s' = spendable e t s"
  by (simp add: spendable_def pending_payout_total_def)

lemma funding_cost_update [simp]:
  "funding_cost (i\<lparr> amount_funded := x \<rparr>) = funding_cost i" "funding_cost (i\<lparr> status := st \<rparr>) = funding_cost i"
  "funding_cost (i\<lparr> amount_paid := x \<rparr>) = funding_cost i"
  by (simp_all add: funding_cost_def fun_eq_iff)

lemma spendable_env: "ext e' = ext e \<Longrightarrow> self e' = self e \<Longrightarrow> spendable e' t s = spendable e t s"
  by (simp add: spendable_def)

lemma credit_funder_ok:
  assumes "list_all (\<lambda>(b, amt). b \<noteq> z \<and> 0 \<le> amt) fs" "f \<noteq> z" "0 \<le> a" "sum_list (map snd fs) + a \<le> i128_max"
  shows "list_all (\<lambda>(b, amt). b \<noteq> z \<and> 0 \<le> amt) (credit_funder f a fs) \<and>
    sum_list (map snd (credit_funder f a fs)) = sum_list (map snd fs) + a"
  using assms
proof (induction fs)
  case (Cons p fs)
  obtain b y where p: "p = (b, y)" by fastforce
  have "list_all (\<lambda>x. 0 \<le> snd x) fs" using Cons.prems(1) by (auto simp: list_all_iff)
  then have nn: "0 \<le> sum_list (map snd fs)" by (induction fs) auto
  then have "in_i128 (y + a)" using Cons.prems by (simp add: p in_i128_def width_defs)
  then show ?case using Cons nn by (auto simp: p saturating_add_def)
qed simp

lemma effective_fee_rate_frame:
  "fee_tiers (inst s') = fee_tiers (inst s) \<Longrightarrow> fee_rate (inst s') = fee_rate (inst s) \<Longrightarrow>
   effective_fee_rate a s' = effective_fee_rate a s"
  by (simp add: effective_fee_rate_def get_fee_tiers_def Let_def)

text \<open>The invoice and its funders after a successful funding call.\<close>

lemma fund_invoice_record:
  assumes "fund_invoice e fdr n a b s = Inr s'" "no_split s" "invoice_at (invs s) n = Some i" "inv_id i = n"
  shows "no_split s'" "get_invoice_funders n s' = credit_funder fdr a (get_invoice_funders n s)"
    "status i = Pending \<or> status i = PartiallyFunded" "amount_funded i + a \<le> amount i"
    "\<exists>i'. invoice_at (invs s') n = Some i' \<and> i' = i\<lparr> amount_funded := amount_funded i + a,
       status := if amount_funded i + a = amount i then Funded else PartiallyFunded,
       funded_at := funded_at i', funder := funder i' \<rparr>"
    "\<forall>m. m \<noteq> n \<longrightarrow> invoice_at (invs s') m = invoice_at (invs s) m \<and>
       invoice_funders (invs s') m = invoice_funders (invs s) m"
    "appeal (invs s') = appeal (invs s)" "dispute (invs s') = dispute (invs s)" "next_id (invs s') = next_id (invs s)"
    "pre_default_payer_score (invs s') = pre_default_payer_score (invs s)"
proof -
  from assms(1) obtain j j' s1 s2 s3 s4 where j: "try_load_invoice n s = Some j"
    and st: "status j = PartiallyFunded \<or> status j = Pending \<and> timestamp e \<le> due_date j"
    and le: "amount_funded j + a \<le> amount j"
    and c: "fund_checks e fdr n b (set_lock True s) = Inr (j, s1)"
    and s2: "collect_cost e fdr j a (amount_funded j + a) s1 = Inr s2"
    and s3: "complete_funding e fdr (j\<lparr> amount_funded := amount_funded j + a \<rparr>)
       (save_invoice_funders n (credit_funder fdr a (get_invoice_funders n s)) s2) = Inr (j', s3)"
    and s4: "finish_funding e fdr n a j' s3 = Inr s4" and s': "s' = unlock_reentrancy s4"
    by (rule fund_invoice_eq_Inr)
  have [simp]: "j = i" using j try_load_no_split [OF assms(2)] assms(3) by simp
  have s2i: "invs s2 = invs s" using s2 fund_checks_eq_Inr(8) [OF c] by (auto elim!: collect_cost_eq_Inr)
  have j': "j' = i\<lparr> amount_funded := amount_funded i + a,
       status := if amount_funded i + a = amount i then Funded else PartiallyFunded,
       funded_at := funded_at j', funder := funder j' \<rparr>"
    using complete_funding_eq_Inr [OF s3] by (auto split: if_splits)
  then have id: "inv_id j' = n" using assms(4) by (metis invoice.select_convs(1) invoice.surjective
        invoice.update_convs(8,9,10,11))
  have inv: "invs s' = (invs (save_invoice_funders n (credit_funder fdr a (get_invoice_funders n s)) s))
      \<lparr> invoice_at := (invoice_at (invs s))(n \<mapsto> j') \<rparr>"
    using finish_funding_frame(1) [OF s4] complete_funding_frame(2) [OF s3] s2i id
    by (simp add: s' unlock_reentrancy_def save_invoice_def save_invoice_funders_def)
  show "no_split s'" using assms(2) inv by (simp add: no_split_def save_invoice_funders_def)
  show "get_invoice_funders n s' = credit_funder fdr a (get_invoice_funders n s)"
    by (simp add: get_invoice_funders_def inv save_invoice_funders_def)
  show "status i = Pending \<or> status i = PartiallyFunded" "amount_funded i + a \<le> amount i" using st le by auto
  show "\<exists>i'. invoice_at (invs s') n = Some i' \<and> i' = i\<lparr> amount_funded := amount_funded i + a,
       status := if amount_funded i + a = amount i then Funded else PartiallyFunded,
       funded_at := funded_at i', funder := funder i' \<rparr>"
    using j' by (intro exI [of _ j']) (simp add: inv)
  show "\<forall>m. m \<noteq> n \<longrightarrow> invoice_at (invs s') m = invoice_at (invs s) m \<and>
       invoice_funders (invs s') m = invoice_funders (invs s) m"
    "appeal (invs s') = appeal (invs s)" "dispute (invs s') = dispute (invs s)" "next_id (invs s') = next_id (invs s)"
    "pre_default_payer_score (invs s') = pre_default_payer_score (invs s)"
    by (simp_all add: inv save_invoice_funders_def)
qed

lemma fund_invoice_inst:
  assumes "fund_invoice e fdr n a b s = Inr s'"
  shows "inst s' = (inst s)\<lparr> reentrancy_lock := Some False \<rparr>"
proof -
  from assms obtain i i' s1 s2 s3 s4 where c: "fund_checks e fdr n b (set_lock True s) = Inr (i, s1)"
    and s2: "collect_cost e fdr i a (amount_funded i + a) s1 = Inr s2"
    and s3: "complete_funding e fdr (i\<lparr> amount_funded := amount_funded i + a \<rparr>)
       (save_invoice_funders n (credit_funder fdr a (get_invoice_funders n s)) s2) = Inr (i', s3)"
    and s4: "finish_funding e fdr n a i' s3 = Inr s4" and s': "s' = unlock_reentrancy s4"
    by (rule fund_invoice_eq_Inr)
  have "inst s2 = inst (set_lock True s)" using s2 fund_checks_eq_Inr(7) [OF c] by (auto elim!: collect_cost_eq_Inr)
  then show ?thesis using complete_funding_frame(1) [OF s3] finish_funding_frame(2) [OF s4]
    by (simp add: s' unlock_reentrancy_def set_lock_def save_invoice_funders_def)
qed

lemma fund_run_inst:
  "fund_run n cs s = Inr s' \<Longrightarrow> insurance_pool (inst s') = insurance_pool (inst s) \<and> admin (inst s') = admin (inst s) \<and>
    fee_rate (inst s') = fee_rate (inst s) \<and> fee_tiers (inst s') = fee_tiers (inst s)"
proof (induction n cs s rule: fund_run.induct)
  case (2 n e fdr a b cs s)
  then obtain s1 where s1: "fund_invoice e fdr n a b s = Inr s1" "fund_run n cs s1 = Inr s'"
    by (auto simp: and_then_eq_Inr)
  from 2(1) [OF s1] fund_invoice_inst [OF s1(1)] show ?case by simp
qed simp

text \<open>
  What the contract relies on of the other contracts it calls: accruing rewards moves none of its
  tokens, and an insurance claim is paid by the pool.
\<close>

locale payment_ledger = sep41 +
  assumes accrue_lp_balance: "x_accrue_lp X w d a x = Some w' \<Longrightarrow> x_balance X w' t b = x_balance X w t b"
    and accrue_settlement_balance:
      "x_accrue_settlement X w d f p on_time = Some w' \<Longrightarrow> x_balance X w' t b = x_balance X w t b"
    and claim_balance: "x_claim X w pool n a = Some (x, w') \<Longrightarrow> b \<noteq> pool \<Longrightarrow> b \<noteq> a \<Longrightarrow>
      x_balance X w' t b = x_balance X w t b"
begin

lemma pay_or_escrow_spend:
  assumes "ext e = X" "pay_or_escrow e t to a n s = Inr (b, s')" "escrow_ok (toks s)" "to \<noteq> self e"
    "spendable e t s = Some v" "0 \<le> a"
  shows "escrow_ok (toks s') \<and> spendable e t s' = Some (v - a) \<and> (0 < a \<longrightarrow> a \<le> v)"
proof (cases "a = 0")
  case True
  then show ?thesis using pay_or_escrow_cases [OF assms(2)] assms(3,5) by auto
next
  case False
  then have a: "0 < a" using assms(6) by simp
  obtain u where u: "x_balance X (wld s) t (self e) = Some u" "v = u - pending_payout_total t s"
    using assms(1,5) by (auto simp: spendable_def)
  have "a \<le> v" using pay_or_escrow_spendable [OF assms(2) a] u assms(1) by auto
  with pay_or_escrow_correct [OF assms(1-4) a u(1)] u assms(1) show ?thesis
    by (auto simp: spendable_def pending_payout_total_def split: if_splits)
qed

lemma pay_all_spend:
  assumes "ext e = X"
  shows "pay_all e t n ps s = Inr s' \<Longrightarrow> escrow_ok (toks s) \<Longrightarrow> spendable e t s = Some v \<Longrightarrow>
    list_all (\<lambda>(a, x). a \<noteq> self e \<and> 0 \<le> x) ps \<Longrightarrow>
    escrow_ok (toks s') \<and> spendable e t s' = Some (v - sum_list (map snd ps)) \<and>
    (0 < sum_list (map snd ps) \<longrightarrow> sum_list (map snd ps) \<le> v)"
proof (induction ps arbitrary: s v)
  case (Cons p ps)
  obtain a x where p: "p = (a, x)" by fastforce
  obtain b s1 where s1: "pay_or_escrow e t a x n s = Inr (b, s1)" "pay_all e t n ps s1 = Inr s'"
    using Cons.prems(1) by (auto simp: p and_then_eq_Inr)
  have *: "escrow_ok (toks s1) \<and> spendable e t s1 = Some (v - x) \<and> (0 < x \<longrightarrow> x \<le> v)"
    using pay_or_escrow_spend [OF assms s1(1) Cons.prems(2) _ Cons.prems(3)] Cons.prems(4) by (simp add: p)
  from Cons.IH [OF s1(2), of "v - x"] * Cons.prems(4) show ?case
    by (auto simp: p)
qed simp

lemma transfer_out_strict_spend:
  assumes "ext e = X" "transfer_out_strict e t to a s = Inr s'" "escrow_ok (toks s)" "to \<noteq> self e"
    "spendable e t s = Some v" "0 \<le> a"
  shows "toks s' = toks s \<and> spendable e t s' = Some (v - a)"
proof (cases "a = 0")
  case True
  then show ?thesis using transfer_out_strict_eq_Inr [OF assms(2)] assms(5) by auto
next
  case False
  obtain u where u: "x_balance X (wld s) t (self e) = Some u" "v = u - pending_payout_total t s"
    using assms(1,5) by (auto simp: spendable_def)
  with transfer_out_strict_correct [OF assms(1-4) _ u(1)] False assms(1,6) show ?thesis
    by (simp add: spendable_def pending_payout_total_def)
qed

lemma collect_cost_spend:
  assumes "ext e = X" "collect_cost e fdr i a p s = Inr s'" "fdr \<noteq> self e" "spendable e (token i) s = Some v"
  shows "toks s' = toks s \<and> spendable e (token i) s' = Some (v + funding_cost i a)"
proof -
  obtain w where w: "x_transfer X (wld s) (token i) (insert (self e) (auths e)) fdr (self e) (funding_cost i a) = Some w"
    "s' = s\<lparr> wld := w \<rparr>"
    using assms(1,2) by (auto elim: collect_cost_eq_Inr)
  obtain u where u: "x_balance X (wld s) (token i) (self e) = Some u" "v = u - pending_payout_total (token i) s"
    using assms(1,4) by (auto simp: spendable_def)
  show ?thesis using transfer_balance [OF w(1) u(1)] u(2) w(2) assms(1,3)
    by (simp add: spendable_def pending_payout_total_def)
qed

lemma notify_funding_spend:
  assumes "ext e = X" "notify_distribution_funding e f a s = Inr s'"
  shows "toks s' = toks s \<and> spendable e t s' = spendable e t s"
  using assms accrue_lp_balance
  by (auto simp: notify_distribution_funding_def and_then_eq_Inr expect_eq_Inr spendable_def pending_payout_total_def
      split: option.splits)

lemma notify_settlement_spend:
  assumes "ext e = X" "notify_distribution_settlement e f p b s = Inr s'"
  shows "toks s' = toks s \<and> spendable e t s' = spendable e t s"
  using assms accrue_settlement_balance
  by (auto simp: notify_distribution_settlement_def and_then_eq_Inr expect_eq_Inr spendable_def pending_payout_total_def
      split: option.splits)

lemma finish_funding_spend:
  assumes "ext e = X" "finish_funding e fdr n a i s = Inr s'"
  shows "escrow_ok (toks s') = escrow_ok (toks s) \<and> spendable e t s' = spendable e t s"
proof -
  obtain s1 s3 s4 where s1: "sync_nft_state e n (save_invoice i s) = Inr s1"
    and s3: "s3 = (if status i = Funded then increment_total_funded (add_invoice_to_lp fdr n s1) else add_invoice_to_lp fdr n s1)"
    and s4: "notify_distribution_funding e fdr a (add_volume (token i) a s3) = Inr s4"
    and s': "s' = publish (funded_event e fdr a i) s4"
    using assms(2) unfolding finish_funding_def and_then_eq_Inr Let_def by blast
  let ?m = "token_volume (toks (add_volume (token i) a s3))"
  have "wld s3 = wld s1" by (simp add: s3 increment_total_funded_def add_invoice_to_lp_def)
  then have "wld (add_volume (token i) a s3) = wld s" using sync_nft_state_fields(11) [OF s1]
    by (simp add: add_volume_def Let_def)
  moreover have tk: "toks (add_volume (token i) a s3) = (toks s)\<lparr> token_volume := ?m \<rparr>"
    using sync_nft_state_fields(6) [OF s1] by (simp add: s3)
  ultimately have "spendable e t (add_volume (token i) a s3) = spendable e t s" by (rule spendable_volume)
  with notify_funding_spend [OF assms(1) s4, of t]
  have sp: "spendable e t s' = spendable e t s" and "toks s' = (toks s)\<lparr> token_volume := ?m \<rparr>"
    using tk spendable_frame [of s' s4 e t] by (simp_all add: s' publish_def)
  then show ?thesis by (metis escrow_ok_volume)
qed

lemma fund_invoice_spend:
  assumes "ext e = X" "fund_invoice e fdr n a b s = Inr s'" "try_load_invoice n s = Some i"
    "escrow_ok (toks s)" "fdr \<noteq> self e" "freelancer i \<noteq> self e" "spendable e (token i) s = Some v"
    "terms_exact i"
  shows "escrow_ok (toks s') \<and> spendable e (token i) s' =
    Some (v + funding_cost i a - (if amount_funded i + a = amount i then funding_cost i (amount i) else 0))"
  using assms(2)
proof (rule fund_invoice_eq_Inr)
  fix j j' s1 s2 s3 s4
  assume j: "try_load_invoice n s = Some j"
    and c: "fund_checks e fdr n b (set_lock True s) = Inr (j, s1)"
    and s2: "collect_cost e fdr j a (amount_funded j + a) s1 = Inr s2"
    and s3: "complete_funding e fdr (j\<lparr> amount_funded := amount_funded j + a \<rparr>)
       (save_invoice_funders n (credit_funder fdr a (get_invoice_funders n s)) s2) = Inr (j', s3)"
    and s4: "finish_funding e fdr n a j' s3 = Inr s4" and s': "s' = unlock_reentrancy s4"
  let ?s2 = "save_invoice_funders n (credit_funder fdr a (get_invoice_funders n s)) s2" and ?j = "j\<lparr> amount_funded := amount_funded j + a \<rparr>"
  have [simp]: "j = i" using j assms(3) by simp
  have v1: "spendable e (token j) s1 = Some v" "toks s1 = toks s"
    using fund_checks_eq_Inr(11,15) [OF c] assms(7) by (simp_all add: spendable_def pending_payout_total_def set_lock_def)
  then have v2: "spendable e (token i) ?s2 = Some (v + funding_cost i a)" "toks ?s2 = toks s"
    using collect_cost_spend [OF assms(1) s2 assms(5) v1(1)] spendable_frame [of ?s2 s2 e "token i"]
    by (simp_all add: save_invoice_funders_def)
  have v3: "toks s3 = toks s \<and> spendable e (token i) s3 =
    Some (v + funding_cost i a - (if amount_funded i + a = amount i then funding_cost i (amount i) else 0))"
  proof (cases "amount_funded i + a = amount i")
    case True
    then obtain s5 where s5: "transfer_out_strict e (token i) (freelancer i) (funding_cost i (amount i)) ?s2 = Inr s5"
      "s3 = set_lp_score fdr (sat_add_u32 (get_lp_score fdr s5) 1) s5"
      using complete_funding_eq_Inr [OF s3] by auto
    have "0 \<le> funding_cost i (amount i)"
      using funding_cost_exact(2) [OF assms(8)] assms(8) by (simp add: terms_exact_def)
    from transfer_out_strict_spend [OF assms(1) s5(1) _ _ v2(1) this] assms(4,6) v2(2) True s5(2)
    show ?thesis using spendable_frame [of s3 s5 e "token i"] by simp
  next
    case False
    then show ?thesis using complete_funding_eq_Inr [OF s3] v2 by auto
  qed
  from finish_funding_spend [OF assms(1) s4, of "token i"] v3 assms(4) show ?thesis
    using spendable_frame [of s' s4 e "token i"] by (simp add: s' unlock_reentrancy_def set_lock_def)
qed

lemma fund_invoice_account:
  assumes "ext e0 = X" "call_ok e0 (e, fdr, a, b)" "fund_invoice e fdr n a b s = Inr s'" "account e0 n i s v"
  shows "status i \<noteq> Funded \<and> (\<exists>i'. same_terms i i' \<and> amount_funded i' = amount_funded i + a \<and>
    account e0 n i' s' (v + funding_cost i a - (if status i' = Funded then funding_cost i (amount i) else 0)))"
proof -
  have acc: "no_split s" "invoice_at (invs s) n = Some i" "inv_id i = n" "freelancer i \<noteq> self e0" "terms_exact i"
    "escrow_ok (toks s)" "funders_ok e0 i (get_invoice_funders n s)" "spendable e0 (token i) s = Some v"
    using assms(4) by (simp_all add: account_def)
  have e: "ext e = ext e0" "self e = self e0" "fdr \<noteq> self e0" "0 \<le> a" using assms(2) by (simp_all add: call_ok_def)
  note r = fund_invoice_record [OF assms(3) acc(1-3)]
  have ld: "try_load_invoice n s = Some i" using try_load_no_split [OF acc(1)] acc(2) by simp
  have sp: "spendable e (token i) s = Some v" using acc(8) spendable_env [OF e(1,2)] by simp
  have sp': "escrow_ok (toks s') \<and> spendable e0 (token i) s' =
    Some (v + funding_cost i a - (if amount_funded i + a = amount i then funding_cost i (amount i) else 0))"
    using fund_invoice_spend [OF _ assms(3) ld acc(6) _ _ sp acc(5)] e acc(4) assms(1) spendable_env [OF e(1,2)] by simp
  obtain i' where i': "invoice_at (invs s') n = Some i'" "i' = i\<lparr> amount_funded := amount_funded i + a,
       status := if amount_funded i + a = amount i then Funded else PartiallyFunded,
       funded_at := funded_at i', funder := funder i' \<rparr>" using r(5) by blast
  have f: "inv_id i' = n" "freelancer i' = freelancer i" "token i' = token i" "amount i' = amount i"
    "amount_funded i' = amount_funded i + a" "terms_exact i' = terms_exact i" "same_terms i i'"
    "status i' = (if amount_funded i + a = amount i then Funded else PartiallyFunded)"
    by (subst i'(2), simp add: acc(3) terms_exact_def same_terms_def)+
  have "sum_list (map snd (get_invoice_funders n s)) + a \<le> i128_max"
    using acc(5,7) r(4) by (simp add: funders_ok_def terms_exact_def)
  then have "funders_ok e0 i' (get_invoice_funders n s')"
    using credit_funder_ok [of "self e0" "get_invoice_funders n s" fdr a] acc(7) e(3,4)
    by (simp add: r(2) funders_ok_def f)
  then show ?thesis using r(1,3) i'(1) acc(4,5) sp' f
    by (intro conjI exI [of _ i']) (auto simp: account_def)
qed

lemma fund_run_account:
  assumes "ext e0 = X"
  shows "fund_run n cs s = Inr s' \<Longrightarrow> list_all (call_ok e0) cs \<Longrightarrow> account e0 n i s v \<Longrightarrow>
    (status i = Funded \<longrightarrow> cs = []) \<and>
    (\<exists>i'. same_terms i i' \<and> amount_funded i' = amount_funded i + sum_list (map (\<lambda>(_, _, a, _). a) cs) \<and>
      account e0 n i' s' (v + total_cost i cs -
        (if status i \<noteq> Funded \<and> status i' = Funded then funding_cost i (amount i) else 0)))"
proof (induction cs arbitrary: s i v)
  case Nil
  then show ?case by (auto simp: total_cost_def same_terms_def)
next
  case (Cons c cs)
  obtain e fdr a b where c: "c = (e, fdr, a, b)" by (metis prod.exhaust)
  obtain s1 where s1: "fund_invoice e fdr n a b s = Inr s1" "fund_run n cs s1 = Inr s'"
    using Cons.prems(1) by (auto simp: c and_then_eq_Inr)
  obtain i1 where i1: "status i \<noteq> Funded" "same_terms i i1" "amount_funded i1 = amount_funded i + a"
    "account e0 n i1 s1 (v + funding_cost i a - (if status i1 = Funded then funding_cost i (amount i) else 0))"
    using fund_invoice_account [OF assms _ s1(1) Cons.prems(3)] Cons.prems(2) by (auto simp: c)
  obtain i' where i': "status i1 = Funded \<longrightarrow> cs = []" "same_terms i1 i'"
    "amount_funded i' = amount_funded i1 + sum_list (map (\<lambda>(_, _, a, _). a) cs)"
    "account e0 n i' s' (v + funding_cost i a - (if status i1 = Funded then funding_cost i (amount i) else 0) +
       total_cost i1 cs - (if status i1 \<noteq> Funded \<and> status i' = Funded then funding_cost i1 (amount i1) else 0))"
    using Cons.IH [OF s1(2) _ i1(4)] Cons.prems(2) by auto
  have tc: "total_cost i1 cs = total_cost i cs" "funding_cost i1 (amount i1) = funding_cost i (amount i)"
    using funding_cost_same_terms [OF i1(2)] i1(2) by (simp_all add: total_cost_def same_terms_def)
  have fin: "status i1 = Funded \<Longrightarrow> status i' = Funded"
    using i' i1(4) by (auto simp: account_def same_terms_def)
  have v': "v + funding_cost i a - (if status i1 = Funded then funding_cost i (amount i) else 0) +
       total_cost i1 cs - (if status i1 \<noteq> Funded \<and> status i' = Funded then funding_cost i1 (amount i1) else 0) =
     v + total_cost i (c # cs) - (if status i \<noteq> Funded \<and> status i' = Funded then funding_cost i (amount i) else 0)"
    using i1(1) tc fin by (cases "status i1 = Funded") (simp_all add: c total_cost_def)
  have "same_terms i i'" using i1(2) i'(2) by (simp add: same_terms_def)
  then show ?case using i1(1,3) i'(3,4) v' by (intro conjI exI [of _ i']) (simp_all add: c)
qed

text \<open>A run that completes the funding leaves only rounding dust behind.\<close>

lemma fund_run_dust:
  assumes "ext e0 = X" "fund_run n cs s = Inr s'" "list_all (call_ok e0) cs" "account e0 n i s v"
    "amount_funded i = 0" "sum_list (map (\<lambda>(_, _, a, _). a) cs) = amount i"
  obtains i' d where "same_terms i i'" "status i' = Funded" "amount_funded i' = amount i" "0 \<le> d" "d < int (length cs)"
    "account e0 n i' s' (v + d)"
proof -
  let ?as = "map (\<lambda>(_, _, a, _). a) cs"
  have t: "terms_exact i" "status i \<noteq> Funded" using assms(4,5) by (auto simp: account_def terms_exact_def)
  obtain i' where i': "same_terms i i'" "amount_funded i' = amount i"
    "account e0 n i' s' (v + total_cost i cs - (if status i' = Funded then funding_cost i (amount i) else 0))"
    using fund_run_account [OF assms(1-4)] assms(5,6) t(2) by auto
  then have st: "status i' = Funded" by (simp add: account_def same_terms_def)
  have "list_all (\<lambda>a. 0 \<le> a) ?as" "?as \<noteq> []"
    using assms(3,6) t(1) by (auto simp: list_all_iff call_ok_def terms_exact_def)
  moreover have "total_cost i cs = sum_list (map (funding_cost i) ?as)"
    by (simp add: total_cost_def o_def case_prod_unfold)
  ultimately have "funding_cost i (amount i) \<le> total_cost i cs \<and> total_cost i cs < funding_cost i (amount i) + int (length cs)"
    using funding_cost_sum [OF t(1), of ?as] assms(6) by simp
  then show ?thesis using that [OF i'(1) st i'(2), of "total_cost i cs - funding_cost i (amount i)"] i'(3) st
    by (simp add: algebra_simps)
qed

lemma claim_insurance_spend:
  assumes "ext e = X" "get_insurance_pool s \<noteq> Some (self e)" "f \<noteq> self e"
  shows "spendable e t (claim_insurance e f n i s) = spendable e t s"
  using assms claim_balance
  by (auto simp: claim_insurance_def spendable_def pending_payout_total_def publish_def split: option.split)

text \<open>A default takes the refunds of all funders out of the contract.\<close>

lemma claim_default_account:
  assumes "ext e = X" "claim_default e f n s = Inr s'" "account e n i s v" "get_insurance_pool s \<noteq> Some (self e)"
  shows "spendable e (token i) s' = Some (v - refund_total i (get_invoice_funders n s)) \<and>
    funding_cost i (amount i) \<le> refund_total i (get_invoice_funders n s) \<and>
    (0 < refund_total i (get_invoice_funders n s) \<longrightarrow> refund_total i (get_invoice_funders n s) \<le> v)"
proof -
  let ?fs = "get_invoice_funders n s" and ?i = "i\<lparr> status := Defaulted \<rparr>"
  have acc: "invoice_at (invs s) n = Some i" "terms_exact i" "escrow_ok (toks s)" "funders_ok e i ?fs"
    "spendable e (token i) s = Some v" "amount_funded i = amount i \<longleftrightarrow> status i = Funded"
    using assms(3) by (simp_all add: account_def)
  from assms(2) obtain s1 s2 s3 ev where f: "f \<in> fst ` set ?fs" "status i = Funded"
    and s1: "sync_nft_state e n (save_invoice ?i (set_lock True s)) = Inr s1"
    and s2: "refund_funders e n ?i ?fs s1 = Inr s2"
    and s3: "penalize_payer e n ?i (claim_insurance e f n ?i s2) = Inr s3"
    and s': "s' = unlock_reentrancy (publish ev s3)"
    by (rule claim_default_eq_Inr) (use acc(1) in auto)
  let ?ps = "map (\<lambda>(a, amt). (a, funding_cost i amt)) ?fs"
  have nn: "list_all (\<lambda>a. 0 \<le> a) (map snd ?fs)" and am: "sum_list (map snd ?fs) = amount i"
    using acc(4,6) f(2) by (auto simp: funders_ok_def list_all_iff)
  have le: "amt \<le> amount i" if "(a, amt) \<in> set ?fs" for a amt
    using member_le_sum_list [of amt "map snd ?fs"] nn am that by (force simp: list_all_iff)
  have ps: "list_all (\<lambda>(a, x). a \<noteq> self e \<and> 0 \<le> x) ?ps"
    using acc(4) le funding_cost_exact(2) [OF acc(2)] by (auto simp: funders_ok_def list_all_iff)
  have sum: "sum_list (map snd ?ps) = refund_total i ?fs"
    by (simp add: refund_total_def o_def case_prod_unfold)
  have v1: "spendable e (token i) s1 = Some v" "toks s1 = toks s"
    using sync_nft_state_fields(6,11) [OF s1] acc(5) spendable_frame [of s1 s e "token i"] by (simp_all add: set_lock_def)
  have "pay_all e (token i) n ?ps s1 = Inr s2" using s2 by (simp add: refund_funders_pay_all)
  from pay_all_spend [OF assms(1) this _ v1(1) ps] v1(2) acc(3) sum
  have v2: "spendable e (token i) s2 = Some (v - refund_total i ?fs) \<and>
    (0 < refund_total i ?fs \<longrightarrow> refund_total i ?fs \<le> v)" by simp
  have pool: "get_insurance_pool s2 = get_insurance_pool s"
    using refund_funders_frame [OF s2] sync_nft_state_fields [OF s1] by (simp add: get_insurance_pool_def set_lock_def)
  have "f \<noteq> self e" using f(1) acc(4) by (auto simp: funders_ok_def list_all_iff)
  from claim_insurance_spend [OF assms(1) _ this, of s2 "token i" n ?i] pool assms(4)
  have "spendable e (token i) s3 = spendable e (token i) s2"
    using penalize_payer_frame(5,6) [OF s3] spendable_frame [of s3 _ e "token i"] by metis
  then have "spendable e (token i) s' = spendable e (token i) s2"
    using spendable_frame [of s' s3 e "token i"] by (simp add: s' unlock_reentrancy_def publish_def set_lock_def)
  moreover have "funding_cost i (amount i) \<le> refund_total i ?fs"
    using funding_cost_sum [OF acc(2) nn] am by (simp add: refund_total_def o_def case_prod_unfold)
  ultimately show ?thesis using v2 by simp
qed

lemma pay_fee_spend:
  assumes "ext e = X" "pay_fee e n i fee s = Inr s'" "0 \<le> fee" "get_admin s \<noteq> Some (self e)" "escrow_ok (toks s)"
    "spendable e (token i) s = Some v"
  shows "escrow_ok (toks s') \<and> spendable e (token i) s' = Some (v - fee)"
proof (cases "fee > 0")
  case True
  then obtain a b where "get_admin s = Some a" "pay_or_escrow e (token i) a fee n s = Inr (b, s')"
    using assms(2) by (auto simp: pay_fee_def and_then_eq_Inr expect_eq_Inr)
  then show ?thesis using pay_or_escrow_spend [OF assms(1) _ assms(5) _ assms(6,3)] assms(4) by auto
next
  case False
  then show ?thesis using assms by (simp add: pay_fee_def)
qed

lemma reward_payment_spend:
  assumes "ext e = X" "reward_payment e i s = Inr s'"
  shows "toks s' = toks s \<and> spendable e t s' = spendable e t s"
proof -
  obtain s1 sc s2 s3 where s1: "notify_distribution_settlement e (freelancer i) (payer i) (timestamp e \<le> due_date i)
      (increment_total_paid s) = Inr s1" and s2: "get_payer_score e (payer i) s1 = (sc, s2)"
    and s3: "set_payer_score e (payer i) (sat_add_u32 sc 1) s2 = Inr s3"
    and s': "s' = increment_invoices_paid (freelancer i) (increment_invoices_paid (payer i) s3)"
    using assms(2) unfolding reward_payment_def and_then_eq_Inr Let_def case_prod_beta
    by (metis prod.collapse sum.inject(2))
  have "wld s' = wld s1" "toks s' = toks s1"
    using get_payer_score_pair [OF s2] set_payer_score_frame [OF s3] by (simp_all add: s')
  then show ?thesis
    using notify_settlement_spend [OF assms(1) s1, of t] spendable_frame [of s' s1 e t]
      spendable_frame [of "increment_total_paid s" s e t] by (simp add: increment_total_paid_def)
qed

lemma settle_spend:
  assumes "ext e = X" "settle e n i fs q x s = Inr s'" "terms_exact i" "effective_fee_rate (amount i) s \<le> 10000"
    "amount i * amount i \<le> i128_max" "get_admin s \<noteq> Some (self e)" "escrow_ok (toks s)"
    "list_all (\<lambda>(a, amt). a \<noteq> self e \<and> 0 \<le> amt) fs" "sum_list (map snd fs) = amount i"
    "spendable e (token i) s = Some v"
  shows "escrow_ok (toks s') \<and>
    (\<exists>d. 0 \<le> d \<and> d < int (length fs) \<and> spendable e (token i) s' = Some (v - amount i + d))"
proof -
  let ?i = "i\<lparr> status := Paid \<rparr>" and ?fee = "protocol_fee_of i s"
  let ?d = "amount i - ?fee" and ?ps = "map (\<lambda>(a, amt). (a, funder_share i (amount i - protocol_fee_of i s) amt)) fs"
  note fee = protocol_fee_bounds [OF assms(3,4)]
  have m: "0 < amount i" "amount i \<le> i128_max" using assms(3) by (simp_all add: terms_exact_def)
  then have "saturating_sub (amount i) ?fee = ?d" using fee(1,2)
    by (simp add: saturating_sub_def in_i128_def width_defs)
  then obtain s1 s2 s3 s4 ev where s1: "pay_fee e n i ?fee s = Inr s1"
    and s2: "sync_nft_state e n (save_invoice ?i s1) = Inr s2"
    and s3: "distribute e n ?i ?d fs s2 = Inr s3"
    and s4: "reward_payment e ?i s3 = Inr s4" and s': "s' = publish ev s4"
    using assms(2) by (elim settle_eq_Inr) auto
  have "list_all (\<lambda>(_, x). 0 \<le> x) fs" using assms(8) by (auto simp: list_all_iff)
  from share_total_bounds [OF m(1) _ _ assms(5) this assms(9), of ?d] fee
  have sh: "list_all (\<lambda>(_, x). 0 \<le> funder_share i ?d x) fs" "share_total i ?d fs \<le> ?d"
    "?d < share_total i ?d fs + int (length fs)" by simp_all
  have v1: "escrow_ok (toks s1)" "spendable e (token i) s1 = Some (v - ?fee)"
    using pay_fee_spend [OF assms(1) s1 fee(1) assms(6,7,10)] by simp_all
  have v2: "toks s2 = toks s1" "spendable e (token i) s2 = Some (v - ?fee)"
    using sync_nft_state_fields(6,11) [OF s2] v1 spendable_frame [of s2 s1 e "token i"] by simp_all
  have "funder_share ?i = funder_share i" by (simp add: funder_share_def fun_eq_iff)
  then have pa: "pay_all e (token i) n ?ps s2 = Inr s3" using s3 by (simp add: distribute_pay_all)
  have "list_all (\<lambda>(a, x). a \<noteq> self e \<and> 0 \<le> x) ?ps" using assms(8) sh(1) by (auto simp: list_all_iff)
  moreover have "sum_list (map snd ?ps) = share_total i ?d fs"
    by (simp add: share_total_def o_def case_prod_unfold)
  ultimately have v3: "escrow_ok (toks s3)" "spendable e (token i) s3 = Some (v - ?fee - share_total i ?d fs)"
    using pay_all_spend [OF assms(1) pa _ v2(2)] v1(1) v2(1) by simp_all
  have v4: "escrow_ok (toks s')" "spendable e (token i) s' = Some (v - ?fee - share_total i ?d fs)"
    using reward_payment_spend [OF assms(1) s4, of "token i"] v3 spendable_frame [of s' s4 e "token i"]
    by (simp_all add: s' publish_def)
  then show ?thesis using sh by (intro conjI exI [of _ "?d - share_total i ?d fs"]) simp_all
qed

text \<open>
  A partial payment stays in the contract; the payment that completes the invoice pays out the
  whole amount but for the dust of the funders' shares.
\<close>

lemma mark_paid_account:
  assumes "ext e0 = X" "ext e = ext e0" "self e = self e0" "mark_paid e n a s = Inr s'" "account e0 n i s v"
    "payer i \<noteq> self e0" "amount i * amount i \<le> i128_max" "effective_fee_rate (amount i) s \<le> 10000"
    "get_admin s \<noteq> Some (self e0)" "0 \<le> amount_paid i"
  shows "inst s' = (inst s)\<lparr> reentrancy_lock := Some False \<rparr> \<and> no_split s' \<and> 0 < a \<and> amount_paid i + a \<le> amount i \<and> status i = Funded \<and>
    (if amount_paid i + a < amount i then account e0 n (i\<lparr> amount_paid := amount_paid i + a \<rparr>) s' (v + a) \<and>
        get_invoice_funders n s' = get_invoice_funders n s
     else invoice_at (invs s') n = Some (i\<lparr> amount_paid := amount i, status := Paid \<rparr>) \<and>
       (\<exists>d. 0 \<le> d \<and> d < int (length (get_invoice_funders n s)) \<and>
          spendable e0 (token i) s' = Some (v + a - amount i + d)))"
proof -
  let ?fs = "get_invoice_funders n s" and ?i = "i\<lparr> amount_paid := amount_paid i + a \<rparr>"
  have acc: "no_split s" "invoice_at (invs s) n = Some i" "terms_exact i" "escrow_ok (toks s)" "funders_ok e0 i ?fs"
    "spendable e0 (token i) s = Some v" "amount_funded i = amount i \<longleftrightarrow> status i = Funded" "inv_id i = n"
    "freelancer i \<noteq> self e0"
    using assms(5) by (simp_all add: account_def)
  from assms(4) obtain s1 where a: "0 < a" "status i = Funded" "a \<le> saturating_sub (amount i) (amount_paid i)"
    and s1: "take_payment e n a i ?fs (set_lock True s) = Inr s1" and s': "s' = unlock_reentrancy s1"
    by (rule mark_paid_eq_Inr) (use acc(2) try_load_no_split [OF acc(1)] in auto)
  have le: "amount_paid i + a \<le> amount i"
    using a(1,3) acc(3) assms(10) by (auto simp: saturating_sub_def clamp_i128_def terms_exact_def width_defs split: if_splits)
  note fr = take_payment_frame [OF s1]
  from s1 obtain q x w where
    w: "x_transfer X (wld s) (token i) (insert (self e) (auths e)) (payer i) (self e) a = Some w"
    and k: "if amount_paid i + a < amount i then record_partial_payment e n a ?i (set_lock True s\<lparr> wld := w \<rparr>) = Inr s1
      else settle e n ?i ?fs q x (set_lock True s\<lparr> wld := w \<rparr>) = Inr s1"
    by (rule take_payment_eq_Inr) (use assms(1,2) in \<open>auto simp: set_lock_def\<close>)
  let ?w = "set_lock True s\<lparr> wld := w \<rparr>"
  obtain u where u: "x_balance X (wld s) (token i) (self e) = Some u" "v = u - pending_payout_total (token i) s"
    using assms(1,3) acc(6) by (auto simp: spendable_def)
  have vw: "spendable e (token i) ?w = Some (v + a)" "toks ?w = toks s" "inst ?w = inst (set_lock True s)"
    using transfer_balance [OF w u(1)] u(2) assms(1,2,3,6)
    by (simp_all add: spendable_def pending_payout_total_def set_lock_def)
  have sp: "spendable e0 t s' = spendable e t s1" for t
    using spendable_env [OF assms(2,3)] spendable_frame [of s' s1 e t] by (simp add: s' unlock_reentrancy_def set_lock_def)
  have ii: "inst s' = (inst s)\<lparr> reentrancy_lock := Some False \<rparr>" "no_split s'"
    using fr(1,4) acc(1) by (simp_all add: s' no_split_def store_defs)
  show ?thesis
  proof (cases "amount_paid i + a < amount i")
    case True
    then have rp: "record_partial_payment e n a ?i ?w = Inr s1" using k by simp
    note f = record_partial_payment_frame [OF rp]
    have "spendable e (token i) s1 = Some (v + a)" "toks s1 = toks s"
      using f(5,6) vw spendable_frame [of s1 ?w e "token i"] by simp_all
    moreover have gf: "get_invoice_funders n s' = ?fs" and "invoice_at (invs s') n = Some ?i"
      using f(1) acc(8) by (simp_all add: s' get_invoice_funders_def save_invoice_def
          unlock_reentrancy_def set_lock_def)
    moreover have "toks s' = toks s1" by (simp add: s' unlock_reentrancy_def set_lock_def)
    ultimately show ?thesis using True a(1,2) acc(3,4,5,7,8,9) sp [of "token i"] le ii
      by (simp add: account_def terms_exact_def funders_ok_def)
  next
    case False
    then have eq: "amount_paid i + a = amount i" and st: "settle e n ?i ?fs q x ?w = Inr s1" using k le by simp_all
    have "effective_fee_rate (amount ?i) ?w \<le> 10000" "get_admin ?w \<noteq> Some (self e)"
      using assms(3,8,9) effective_fee_rate_frame [of ?w s] by (simp_all add: set_lock_def)
    moreover have "list_all (\<lambda>(a, amt). a \<noteq> self e \<and> 0 \<le> amt) ?fs" "sum_list (map snd ?fs) = amount ?i"
      using acc(5,7) a(2) assms(3) by (simp_all add: funders_ok_def)
    ultimately obtain d where "0 \<le> d" "d < int (length ?fs)" "spendable e (token i) s1 = Some (v + a - amount i + d)"
      using settle_spend [OF _ st, of "v + a"] assms(1,2,7) acc(3,4) vw by (auto simp: terms_exact_def)
    moreover have "invoice_at (invs s') n = Some (i\<lparr> amount_paid := amount i, status := Paid \<rparr>)"
      using fr(4) eq acc(8) by (simp add: s' save_invoice_def unlock_reentrancy_def set_lock_def)
    ultimately show ?thesis using False a(1,2) sp le ii by auto
  qed
qed

lemma pay_run_account:
  assumes "ext e0 = X"
  shows "pay_run n cs s = Inr s' \<Longrightarrow> list_all (\<lambda>(e, _). ext e = ext e0 \<and> self e = self e0) cs \<Longrightarrow>
    account e0 n i s v \<Longrightarrow> payer i \<noteq> self e0 \<Longrightarrow> amount i * amount i \<le> i128_max \<Longrightarrow>
    effective_fee_rate (amount i) s \<le> 10000 \<Longrightarrow> get_admin s \<noteq> Some (self e0) \<Longrightarrow> 0 \<le> amount_paid i \<Longrightarrow>
    amount_paid i + sum_list (map snd cs) = amount i \<Longrightarrow> cs \<noteq> [] \<Longrightarrow>
    invoice_at (invs s') n = Some (i\<lparr> amount_paid := amount i, status := Paid \<rparr>) \<and>
    (\<exists>d. 0 \<le> d \<and> d < int (length (get_invoice_funders n s)) \<and>
      spendable e0 (token i) s' = Some (v - amount_paid i + d))"
proof (induction cs arbitrary: s i v)
  case (Cons c cs)
  obtain e a where c: "c = (e, a)" by fastforce
  obtain s1 where s1: "mark_paid e n a s = Inr s1" "pay_run n cs s1 = Inr s'"
    using Cons.prems(1) by (auto simp: c and_then_eq_Inr)
  have e: "ext e = ext e0" "self e = self e0" using Cons.prems(2) by (simp_all add: c)
  note m = mark_paid_account [OF assms e s1(1) Cons.prems(3-8)]
  let ?i = "i\<lparr> amount_paid := amount_paid i + a \<rparr>"
  show ?case
  proof (cases "amount_paid i + a < amount i")
    case True
    have ef: "effective_fee_rate (amount i) s1 = effective_fee_rate (amount i) s"
      using m by (intro effective_fee_rate_frame) simp_all
    have "cs \<noteq> []" using True Cons.prems(9) by (auto simp: c)
    then show ?thesis
      using Cons.IH [OF s1(2), of ?i "v + a"] m True Cons.prems ef by (simp add: c)
  next
    case False
    have "cs = []"
    proof (rule ccontr)
      assume "cs \<noteq> []"
      then obtain e' a' cs' where "cs = (e', a') # cs'" by (metis neq_Nil_conv prod.exhaust)
      then obtain s2 where "mark_paid e' n a' s1 = Inr s2" using s1(2) by (auto simp: and_then_eq_Inr)
      then show False
      proof (rule mark_paid_eq_Inr)
        fix j assume j: "try_load_invoice n s1 = Some j" "status j = Funded"
        then show False using m False try_load_no_split [of s1 n] by auto
      qed
    qed
    then show ?thesis using m False s1(2) Cons.prems(9) by (auto simp: c)
  qed
qed simp

end

interpretation mock_payment: payment_ledger mock_ext
  by unfold_locales (simp_all add: mock_ext_def no_contracts_def)

section \<open>The sample deployment\<close>

lemma sample_account: "account (sample_env ts a) 7 sample_invoice sample_state 5000"
  by (simp add: account_def no_split_def terms_exact_def funders_ok_def escrow_ok_def spendable_def run_exec)

abbreviation sample_calls :: "(mock_ledger env \<times> address \<times> int \<times> bool) list" where
  "sample_calls \<equiv> [(sample_env 10 (Address 4), Address 4, 500, False), (sample_env 20 (Address 5), Address 5, 501, False)]"

lemma sample_calls_ok: "list_all (call_ok (sample_env ts a)) sample_calls"
  "sum_list (map (\<lambda>(_, _, a, _). a) sample_calls) = amount sample_invoice"
  "amount_funded sample_invoice = 0" "token sample_invoice = Address 9"
  by (simp_all add: call_ok_def sample_invoice_def)

lemma sample_fund_run: "\<exists>s. fund_run 7 sample_calls sample_state = Inr s"
  by (simp add: run_exec cong: run_cong)

lemma sample_default:
  "\<exists>s. and_then (fund_run 7 sample_calls sample_state) (claim_default (sample_env 200 (Address 4)) (Address 4) 7) = Inr s"
  by (simp add: run_exec default_exec score_exec cong: run_cong)

lemma sample_payment:
  "\<exists>s. and_then (fund_run 7 sample_calls sample_state)
     (pay_run 7 [(sample_env 30 (Address 2), 400), (sample_env 40 (Address 2), 601)]) = Inr s"
  by (simp add: run_exec payment_exec score_exec cong: run_cong)

section \<open>Properties\<close>

text \<open>
  C25: over a SEP-41 token, a sequence of funding calls that funds an invoice completely leaves the
  contract with what it could spend of the token before, plus the rounding of the discounts, which
  is less than one unit per call: the freelancer has been paid everything else.
\<close>

theorem funding_leaves_dust:
  assumes "payment_ledger (ext e)" and "fund_run n cs s = Inr s'" and "list_all (call_ok e) cs"
    and "account e n i s v" and "amount_funded i = 0" and "sum_list (map (\<lambda>(_, _, a, _). a) cs) = amount i"
  shows "\<exists>i' d. invoice_at (invs s') n = Some i' \<and> status i' = Funded \<and> amount_funded i' = amount i \<and>
    spendable e (token i) s' = Some (v + d) \<and> 0 \<le> d \<and> d < int (length cs)"
  by (rule payment_ledger.fund_run_dust [OF assms(1) refl assms(2-6)]) (auto simp: account_def same_terms_def)

theorem funding_leaves_dust_witness:
  "let e = sample_env 10 (Address 4)
   in payment_ledger (ext e) \<and> account e 7 sample_invoice sample_state 5000 \<and>
     (\<exists>s' d. fund_run 7 sample_calls sample_state = Inr s' \<and>
       spendable e (Address 9) s' = Some (5000 + d) \<and> 0 \<le> d \<and> d < 2)"
proof -
  let ?e = "sample_env 10 (Address 4)"
  have l: "payment_ledger (ext ?e)" using mock_payment.payment_ledger_axioms by simp
  obtain s' where s': "fund_run 7 sample_calls sample_state = Inr s'" using sample_fund_run by blast
  from funding_leaves_dust [OF l s' sample_calls_ok(1) sample_account sample_calls_ok(3,2)] l s' sample_account
  show ?thesis by (fastforce simp: Let_def sample_calls_ok(4))
qed

text \<open>
  C26: a default right after the funding takes at least the whole cost of the invoice out of what
  the contract could spend before the invoice was funded: of the invoice's own money only the
  rounding dust is left, so the refunds are paid from what other invoices hold.
\<close>

theorem default_paid_by_others:
  assumes "payment_ledger (ext e)" and "fund_run n cs s = Inr s1" and "list_all (call_ok e) cs"
    and "account e n i s v" and "amount_funded i = 0" and "sum_list (map (\<lambda>(_, _, a, _). a) cs) = amount i"
    and "claim_default e f n s1 = Inr s2" and "get_insurance_pool s1 \<noteq> Some (self e)"
  shows "\<exists>u. spendable e (token i) s2 = Some u \<and> u < v - funding_cost i (amount i) + int (length cs)"
proof (rule payment_ledger.fund_run_dust [OF assms(1) refl assms(2-6)])
  fix i' d
  assume i': "same_terms i i'" "d < int (length cs)" "account e n i' s1 (v + d)"
  have "funding_cost i' (amount i') = funding_cost i (amount i)" "token i' = token i"
    using funding_cost_same_terms [OF i'(1)] i'(1) by (simp_all add: same_terms_def)
  then show ?thesis
    using payment_ledger.claim_default_account [OF assms(1) refl assms(7) i'(3) assms(8)] i'(2) by auto
qed

theorem default_paid_by_others_witness:
  "let e = sample_env 200 (Address 4)
   in payment_ledger (ext e) \<and> account e 7 sample_invoice sample_state 5000 \<and>
     (\<exists>s1 s2 u. fund_run 7 sample_calls sample_state = Inr s1 \<and> claim_default e (Address 4) 7 s1 = Inr s2 \<and>
       spendable e (Address 9) s2 = Some u \<and> u < 5000 - 968 + 2)"
proof -
  let ?e = "sample_env 200 (Address 4)"
  have l: "payment_ledger (ext ?e)" using mock_payment.payment_ledger_axioms by simp
  obtain s1 s2 where s: "fund_run 7 sample_calls sample_state = Inr s1" "claim_default ?e (Address 4) 7 s1 = Inr s2"
    using sample_default unfolding and_then_eq_Inr by blast
  have pool: "get_insurance_pool s1 \<noteq> Some (self ?e)"
    using fund_run_inst [OF s(1)] by (simp add: get_insurance_pool_def fresh_state_simps)
  have "funding_cost sample_invoice (amount sample_invoice) = 968" by (simp add: sample_defs funding_cost_def
    discount_on_def discount_rate_as_i128_def)
  with default_paid_by_others [OF l s(1) sample_calls_ok(1) sample_account sample_calls_ok(3,2) s(2) pool]
    l s sample_account show ?thesis by (fastforce simp: Let_def sample_calls_ok(4))
qed

text \<open>
  C27: an invoice that is funded and then paid in full, in any number of instalments, leaves the
  contract with what it could spend before, plus less than one unit per funding call and per funder:
  everything else went to the freelancer, the administrator's fee and the funders. The square of the
  amount must be an \<open>i128\<close>: beyond that the product in a funder's share overflows and the share is
  taken as zero. The fee must be at most 100%, and neither payer nor administrator the contract.
\<close>

theorem payment_leaves_dust:
  assumes "payment_ledger (ext e)" and "fund_run n cs s = Inr s1" and "list_all (call_ok e) cs"
    and "account e n i s v" and "amount_funded i = 0" and "sum_list (map (\<lambda>(_, _, a, _). a) cs) = amount i"
    and "pay_run n ps s1 = Inr s2" and "list_all (\<lambda>(e', _). ext e' = ext e \<and> self e' = self e) ps"
    and "amount_paid i = 0" and "sum_list (map snd ps) = amount i"
    and "payer i \<noteq> self e" and "amount i * amount i \<le> i128_max"
    and "effective_fee_rate (amount i) s1 \<le> 10000" and "get_admin s1 \<noteq> Some (self e)"
  shows "\<exists>i' d. invoice_at (invs s2) n = Some i' \<and> status i' = Paid \<and> spendable e (token i) s2 = Some (v + d) \<and>
    0 \<le> d \<and> d < int (length cs + length (get_invoice_funders n s1))"
proof (rule payment_ledger.fund_run_dust [OF assms(1) refl assms(2-6)])
  fix i' d
  assume i': "same_terms i i'" "0 \<le> d" "d < int (length cs)" "account e n i' s1 (v + d)"
  have t: "token i' = token i" "amount i' = amount i" "payer i' = payer i" "amount_paid i' = 0"
    using i'(1) assms(9) by (simp_all add: same_terms_def)
  have "ps \<noteq> []" using assms(4,10) by (auto simp: account_def terms_exact_def)
  then obtain d' where "0 \<le> d'" "d' < int (length (get_invoice_funders n s1))"
    "spendable e (token i) s2 = Some (v + d + d')" "invoice_at (invs s2) n = Some (i'\<lparr> amount_paid := amount i, status := Paid \<rparr>)"
    using payment_ledger.pay_run_account [OF assms(1) refl assms(7,8) i'(4)] assms(10-14) t by auto
  then show ?thesis using i'(2,3) by (intro exI [of _ "i'\<lparr> amount_paid := amount i, status := Paid \<rparr>"] exI [of _ "d + d'"]) simp
qed

theorem payment_leaves_dust_witness:
  "let e = sample_env 30 (Address 2); ps = [(e, 400), (sample_env 40 (Address 2), 601)]
   in payment_ledger (ext e) \<and> account e 7 sample_invoice sample_state 5000 \<and>
     (\<exists>s1 s2 d. fund_run 7 sample_calls sample_state = Inr s1 \<and> pay_run 7 ps s1 = Inr s2 \<and>
       spendable e (Address 9) s2 = Some (5000 + d) \<and> 0 \<le> d \<and> d < int (2 + length (get_invoice_funders 7 s1)))"
proof -
  let ?e = "sample_env 30 (Address 2)" and ?ps = "[(sample_env 30 (Address 2), 400), (sample_env 40 (Address 2), 601)]"
  have l: "payment_ledger (ext ?e)" using mock_payment.payment_ledger_axioms by simp
  obtain s1 s2 where s: "fund_run 7 sample_calls sample_state = Inr s1" "pay_run 7 ?ps s1 = Inr s2"
    using sample_payment unfolding and_then_eq_Inr by blast
  have inst: "effective_fee_rate (amount sample_invoice) s1 \<le> 10000" "get_admin s1 \<noteq> Some (self ?e)"
    using fund_run_inst [OF s(1)] by (simp_all add: effective_fee_rate_def get_fee_tiers_def fresh_state_simps)
  have "list_all (\<lambda>(e', _). ext e' = ext ?e \<and> self e' = self ?e) ?ps" "amount_paid sample_invoice = 0"
    "sum_list (map snd ?ps) = amount sample_invoice" "payer sample_invoice \<noteq> self ?e"
    "amount sample_invoice * amount sample_invoice \<le> i128_max"
    by (simp_all add: sample_invoice_def width_defs)
  from payment_leaves_dust [OF l s(1) sample_calls_ok(1) sample_account sample_calls_ok(3,2) s(2) this inst]
    l s sample_account show ?thesis by (fastforce simp: Let_def sample_calls_ok(4))
qed

end
