(* ===== verification/Twap.thy ===== *)
theory Twap
  imports Types
begin

text \<open>
  Time-weighted average prices. First the windowed average over samples
  (src/contracts/invoice_liquidity/src/twap.rs), then the accumulator module
  (twap_accumulator.rs) with its own storage.

  Shown here: the sample buffer keeps the most recent samples up to its capacity; over
  chronological samples the average lies between the smallest and largest sampled price; the
  accumulator, which starts its clock at the first observation, rejects every first observation
  and therefore never stores anything.
\<close>

section \<open>Windowed average\<close>

definition MAX_TWAP_SAMPLES :: nat where "MAX_TWAP_SAMPLES = 100"

text \<open>
  The loop over consecutive pairs. The midpoint \<open>(p1 + p2) / 2\<close> is plain arithmetic and traps on
  overflow; the accumulation saturates.
\<close>

fun twap_loop :: "nat \<Rightarrow> nat \<Rightarrow> twap_sample list \<Rightarrow> int \<Rightarrow> nat \<Rightarrow> failure + int \<times> nat" where
  "twap_loop ws ct (s1 # s2 # rest) tw w =
     (if sample_timestamp s2 < ws \<or> sample_timestamp s1 > ct then twap_loop ws ct (s2 # rest) tw w
      else let seg_start = max (sample_timestamp s1) ws; seg_end = min (sample_timestamp s2) ct in
        if seg_end > seg_start then
          let duration = seg_end - seg_start in
          and_then (ok_or (checked_add (sample_price s1) (sample_price s2)) Trap) (\<lambda>p.
          let avg_price = quot p 2 in
          twap_loop ws ct (s2 # rest)
            (saturating_add tw (saturating_mul avg_price (int duration))) (sat_add_u64 w duration))
        else twap_loop ws ct (s2 # rest) tw w)"
| "twap_loop ws ct ss tw w = Inr (tw, w)"

definition twap_average :: "twap_sample list \<Rightarrow> nat \<Rightarrow> nat \<Rightarrow> failure + int option" where
  "twap_average samples window_start current_time =
     (if length samples < 2 \<or> current_time \<le> window_start then Inr None
      else and_then (twap_loop window_start current_time samples 0 0) (\<lambda>(tw, w).
           Inr (if w > 0 then Some (quot tw (int w)) else None)))"

function drop_to_cap :: "nat \<Rightarrow> 'a list \<Rightarrow> 'a list" where
  "drop_to_cap cap xs = (if length xs > cap then drop_to_cap cap (drop 1 xs) else xs)"
  by pat_completeness auto
termination
  by (relation "measure (\<lambda>(cap, xs). length xs)") auto

definition push_sample :: "twap_sample list \<Rightarrow> twap_sample \<Rightarrow> nat \<Rightarrow> twap_sample list" where
  "push_sample samples x max_samples =
     (let cap = (if max_samples = 0 then MAX_TWAP_SAMPLES else max_samples)
      in drop_to_cap cap (samples @ [x]))"

section \<open>Accumulator\<close>

definition MAX_OBSERVATIONS :: nat where "MAX_OBSERVATIONS = 50"
definition MIN_OBSERVATION_INTERVAL_SECS :: nat where "MIN_OBSERVATION_INTERVAL_SECS = 60"

datatype twap_error =
  NegativePrice | MonotonicOrderViolation | InsufficientObservationInterval | MaxObservationsExceeded

datatype twap_failure = TwapErr twap_error | TwapTrap

record twap_state =
  accumulated_price :: int
  observation_count :: nat
  window_start_timestamp :: nat
  last_update_timestamp :: nat
  last_ledger_sequence :: nat

type_synonym twap_store = "address \<rightharpoonup> twap_state"

definition record_observation ::
    "address \<Rightarrow> int \<Rightarrow> nat \<Rightarrow> nat \<Rightarrow> twap_store \<Rightarrow> twap_failure + twap_state \<times> twap_store" where
  "record_observation t price ts sq m =
     (if price < 0 then Inl (TwapErr NegativePrice)
      else
        let st = unwrap_or (m t) \<lparr> accumulated_price = 0, observation_count = 0,
                   window_start_timestamp = ts, last_update_timestamp = ts, last_ledger_sequence = 0 \<rparr>
        in if sq \<le> last_ledger_sequence st then Inl (TwapErr MonotonicOrderViolation)
           else and_then (ok_or (checked_add_u64 (last_update_timestamp st) MIN_OBSERVATION_INTERVAL_SECS) TwapTrap)
             (\<lambda>earliest.
             if ts < earliest then Inl (TwapErr InsufficientObservationInterval)
             else
               let time_delta = ts - last_update_timestamp st;
                   price_delta = saturating_mul price (int time_delta);
                   n = sat_add_u32 (observation_count st) 1;
                   st' = st\<lparr> accumulated_price := saturating_add (accumulated_price st) price_delta,
                            observation_count := (if n > MAX_OBSERVATIONS then MAX_OBSERVATIONS else n),
                            last_update_timestamp := ts, last_ledger_sequence := sq \<rparr>
               in Inr (st', m(t \<mapsto> st'))))"

definition get_twap :: "address \<Rightarrow> nat \<Rightarrow> nat \<Rightarrow> twap_store \<Rightarrow> int" where
  "get_twap t lookback_seconds now m =
     (case m t of
        None \<Rightarrow> 0
      | Some st \<Rightarrow>
          let window_start = now - lookback_seconds in
          if last_update_timestamp st < window_start then 0
          else if lookback_seconds = 0 then 0
          else quot (accumulated_price st) (int lookback_seconds))"

text \<open>Running a sequence of observations; a rejected one leaves the store as it was.\<close>

fun observe_all :: "(address \<times> int \<times> nat \<times> nat) list \<Rightarrow> twap_store \<Rightarrow> twap_store" where
  "observe_all [] m = m"
| "observe_all ((t, price, ts, sq) # os) m =
     observe_all os (case record_observation t price ts sq m of Inl _ \<Rightarrow> m | Inr (_, m') \<Rightarrow> m')"

text \<open>Samples in the order they were taken, with prices in a range.\<close>

definition chronological :: "twap_sample list \<Rightarrow> bool" where
  "chronological ss \<longleftrightarrow> sorted (map sample_timestamp ss)"

definition prices_within :: "int \<Rightarrow> int \<Rightarrow> twap_sample list \<Rightarrow> bool" where
  "prices_within lo hi ss \<longleftrightarrow> (\<forall>x \<in> set ss. lo \<le> sample_price x \<and> sample_price x \<le> hi)"

declare drop_to_cap.simps [simp del]

section \<open>Lemmas\<close>

lemma drop_to_cap_eq: "drop_to_cap cap xs = drop (length xs - cap) xs"
proof (induction cap xs rule: drop_to_cap.induct)
  case (1 cap xs)
  show ?case
  proof (cases "cap < length xs")
    case True
    then show ?thesis using 1 by (simp add: drop_to_cap.simps [of cap xs] Suc_diff_Suc)
  next
    case False
    then show ?thesis by (simp add: drop_to_cap.simps [of cap xs])
  qed
qed

lemma quot_2_between:
  assumes "lo \<le> p" "p \<le> hi" "lo \<le> q" "q \<le> hi" "0 \<le> lo"
  shows "lo \<le> quot (p + q) 2" and "quot (p + q) 2 \<le> hi"
  using assms by (simp_all add: quot_nonneg)

lemma saturating_accumulate:
  assumes "0 \<le> lo" and "lo \<le> x" and "x \<le> hi" and "lo * int w \<le> tw" and "tw \<le> hi * int w"
    and "hi * int (w + d) \<le> i128_max"
  shows "lo * int (w + d) \<le> saturating_add tw (saturating_mul x (int d))"
    and "saturating_add tw (saturating_mul x (int d)) \<le> hi * int (w + d)"
proof -
  have x: "lo * int d \<le> x * int d" "x * int d \<le> hi * int d" "0 \<le> lo * int d" "0 \<le> lo * int w"
    using assms(1-3) by (simp_all add: mult_right_mono)
  have hi: "hi * int w + hi * int d \<le> i128_max" "lo * int (w + d) = lo * int w + lo * int d"
    "hi * int (w + d) = hi * int w + hi * int d"
    using assms(6) by (simp_all add: algebra_simps)
  have "0 \<le> tw" "0 \<le> x * int d" using x assms(4) by linarith+
  then have in_range: "in_i128 (x * int d)" "in_i128 (tw + x * int d)"
    using x hi assms(5) by (simp_all add: in_i128_def width_defs)
  then have "saturating_add tw (saturating_mul x (int d)) = tw + x * int d"
    by (simp add: saturating_add_def saturating_mul_def)
  then show "lo * int (w + d) \<le> saturating_add tw (saturating_mul x (int d))"
    and "saturating_add tw (saturating_mul x (int d)) \<le> hi * int (w + d)"
    using x hi assms(4,5) by simp_all
qed

lemma quot_between:
  assumes "0 \<le> lo" and "0 < w" and "lo * int w \<le> tw" and "tw \<le> hi * int w"
  shows "lo \<le> quot tw (int w) \<and> quot tw (int w) \<le> hi"
proof -
  have "0 \<le> lo * int w" using assms(1) by simp
  then have "quot tw (int w) = tw div int w" using assms(2,3) by (intro quot_nonneg) linarith+
  then show ?thesis
    using assms(2) zdiv_mono1 [OF assms(3), of "int w"] zdiv_mono1 [OF assms(4), of "int w"] by simp
qed

text \<open>One pair either contributes nothing or its overlap with the window.\<close>

lemma twap_loop_step:
  assumes "twap_loop ws ct (s1 # s2 # rest) tw w = Inr r"
  defines "a \<equiv> max (sample_timestamp s1) ws" and "b \<equiv> min (sample_timestamp s2) ct"
    and "p \<equiv> quot (sample_price s1 + sample_price s2) 2"
  obtains (skip) "twap_loop ws ct (s2 # rest) tw w = Inr r"
    | (take) "sample_timestamp s1 \<le> ct" "a < b"
        "twap_loop ws ct (s2 # rest) (saturating_add tw (saturating_mul p (int (b - a)))) (sat_add_u64 w (b - a)) = Inr r"
  using assms by (auto simp: Let_def res_simps split: if_splits)

lemma twap_loop_bounds:
  assumes lo: "0 \<le> lo" and ct: "ct \<le> u64_max" "ws \<le> ct" and hi: "hi * int u64_max \<le> i128_max"
  shows "chronological (s1 # ss) \<Longrightarrow> prices_within lo hi (s1 # ss) \<Longrightarrow>
    w \<le> min (sample_timestamp s1) ct - ws \<Longrightarrow> lo * int w \<le> tw \<Longrightarrow> tw \<le> hi * int w \<Longrightarrow>
    twap_loop ws ct (s1 # ss) tw w = Inr (tw', w') \<Longrightarrow> lo * int w' \<le> tw' \<and> tw' \<le> hi * int w'"
proof (induction ss arbitrary: s1 tw w)
  case Nil
  then show ?case by auto
next
  case (Cons s2 rest)
  let ?a = "max (sample_timestamp s1) ws" and ?b = "min (sample_timestamp s2) ct"
  let ?p = "quot (sample_price s1 + sample_price s2) 2"
  have s: "chronological (s2 # rest)" "prices_within lo hi (s2 # rest)" "sample_timestamp s1 \<le> sample_timestamp s2"
    using Cons.prems(1,2) by (auto simp: chronological_def prices_within_def)
  have h: "0 \<le> hi" "lo \<le> sample_price s1" "sample_price s1 \<le> hi" "lo \<le> sample_price s2" "sample_price s2 \<le> hi"
    using Cons.prems(2) lo by (auto simp: prices_within_def)
  from Cons.prems(6) show ?case
  proof (cases rule: twap_loop_step)
    case skip
    then show ?thesis using Cons.IH [OF s(1,2) _ Cons.prems(4,5)] Cons.prems(3) s(3) by simp
  next
    case take
    have wd: "w + (?b - ?a) \<le> ?b - ws"
    proof (cases "sample_timestamp s1 \<le> ws")
      case True
      then show ?thesis using Cons.prems(3) by simp
    next
      case False
      then have "?a = sample_timestamp s1" "w \<le> sample_timestamp s1 - ws" using Cons.prems(3) by simp_all
      then show ?thesis using take(2) False by linarith
    qed
    then have small: "w + (?b - ?a) \<le> u64_max" using ct(1) by linarith
    have "hi * int (w + (?b - ?a)) \<le> hi * int u64_max"
      using small h(1) by (intro mult_left_mono) simp_all
    then have le: "hi * int (w + (?b - ?a)) \<le> i128_max" using hi by (rule order_trans)
    note q = quot_2_between [OF h(2-5) lo]
    note acc = saturating_accumulate [OF lo q Cons.prems(4,5) le]
    have "sat_add_u64 w (?b - ?a) = w + (?b - ?a)" using small by (simp add: sat_add_u64_def)
    then have step: "twap_loop ws ct (s2 # rest) (saturating_add tw (saturating_mul ?p (int (?b - ?a))))
        (w + (?b - ?a)) = Inr (tw', w')"
      using take(3) by simp
    show ?thesis by (rule Cons.IH [OF s(1,2) wd acc step])
  qed
qed

text \<open>
  Over chronological samples the segments telescope: the total weight is the overlap of the
  sampled interval with the window. With bounded prices no step traps.
\<close>

lemma twap_loop_total:
  assumes ct: "ct \<le> u64_max" and hi: "2 * hi \<le> i128_max"
  shows "chronological (s1 # ss) \<Longrightarrow> prices_within 0 hi (s1 # ss) \<Longrightarrow>
    w \<le> min (sample_timestamp s1) ct - ws \<Longrightarrow>
    \<exists>tw'. twap_loop ws ct (s1 # ss) tw w =
      Inr (tw', w + (min (sample_timestamp (last (s1 # ss))) ct - max (sample_timestamp s1) ws))"
proof (induction ss arbitrary: s1 tw w)
  case Nil
  have "min t ct - max t ws = (0::nat)" for t by simp
  then show ?case by simp
next
  case (Cons s2 rest)
  let ?t1 = "sample_timestamp s1" and ?t2 = "sample_timestamp s2"
  let ?tn = "sample_timestamp (last (s2 # rest))"
  have s: "chronological (s2 # rest)" "prices_within 0 hi (s2 # rest)" "?t1 \<le> ?t2" "?t2 \<le> ?tn"
    using Cons.prems(1,2) by (auto simp: chronological_def prices_within_def)
  have sum: "in_i128 (sample_price s1 + sample_price s2)"
    using Cons.prems(2) hi by (auto simp: prices_within_def in_i128_def i128_min_def)
  have tele: "(min ?t2 ct - max ?t1 ws) + (min ?tn ct - max ?t2 ws) = min ?tn ct - max ?t1 ws"
    using s(3,4) by linarith
  show ?case
  proof (cases "min ?t2 ct > max ?t1 ws")
    case True
    let ?d = "min ?t2 ct - max ?t1 ws"
    let ?tw = "saturating_add tw (saturating_mul (quot (sample_price s1 + sample_price s2) 2) (int ?d))"
    have wd: "w + ?d \<le> min ?t2 ct - ws" using Cons.prems(3) True by linarith
    then have small: "sat_add_u64 w ?d = w + ?d" using ct by (simp add: sat_add_u64_def)
    have "twap_loop ws ct (s1 # s2 # rest) tw w = twap_loop ws ct (s2 # rest) ?tw (w + ?d)"
      using True sum small by (simp add: Let_def checked_add_def not_less)
    then show ?thesis using Cons.IH [OF s(1,2) wd, of ?tw] tele by (simp add: add.assoc)
  next
    case False
    then have "twap_loop ws ct (s1 # s2 # rest) tw w = twap_loop ws ct (s2 # rest) tw w"
      by (simp only: twap_loop.simps Let_def if_False if_cancel)
    moreover have "w \<le> min ?t2 ct - ws" using Cons.prems(3) s(3) by linarith
    ultimately show ?thesis using Cons.IH [OF s(1,2), of w tw] tele False by simp
  qed
qed

text \<open>C9. The time-weighted average of twap.rs. Let the samples be chronological with non-negative
  prices between \<open>lo\<close> and \<open>hi\<close> (\<open>hi\<close> small enough that a price weighted by any 64-bit duration
  fits an i128). Then \<open>twap_average\<close> never traps. It returns a price exactly when there are two
  samples, the window is not empty and the sampled interval overlaps the window in more than a
  point, and the price it returns lies between \<open>lo\<close> and \<open>hi\<close>.\<close>

theorem twap_average_within:
  assumes "chronological (s1 # ss)" and "prices_within lo hi (s1 # ss)" and "0 \<le> lo"
    and "hi * int u64_max \<le> i128_max" and "current_time \<le> u64_max"
  shows "\<exists>r. twap_average (s1 # ss) window_start current_time = Inr r \<and>
    (r \<noteq> None \<longleftrightarrow> ss \<noteq> [] \<and>
       max (sample_timestamp s1) window_start < min (sample_timestamp (last ss)) current_time) \<and>
    (\<forall>p. r = Some p \<longrightarrow> lo \<le> p \<and> p \<le> hi)"
proof (cases "ss = [] \<or> current_time \<le> window_start")
  case True
  then show ?thesis by (auto simp: twap_average_def Suc_le_eq)
next
  case False
  let ?w = "min (sample_timestamp (last ss)) current_time - max (sample_timestamp s1) window_start"
  have hi: "0 \<le> hi" using assms(2,3) by (auto simp: prices_within_def)
  have "2 * hi \<le> hi * int u64_max"
    using hi mult_left_mono [of 2 "int u64_max" hi] by (simp add: u64_max_def)
  then have "2 * hi \<le> i128_max" using assms(4) by (rule order_trans)
  moreover have "prices_within 0 hi (s1 # ss)" using assms(2,3) by (auto simp: prices_within_def)
  ultimately obtain tw where tw: "twap_loop window_start current_time (s1 # ss) 0 0 = Inr (tw, ?w)"
    using twap_loop_total [OF assms(5), of hi s1 ss 0 window_start 0] assms(1) False by auto
  have b: "lo * int ?w \<le> tw \<and> tw \<le> hi * int ?w"
    by (rule twap_loop_bounds [OF assms(3,5) _ assms(4,1,2) _ _ _ tw]) (use False in simp_all)
  have avg: "twap_average (s1 # ss) window_start current_time =
      Inr (if ?w > 0 then Some (quot tw (int ?w)) else None)"
    using False tw by (cases ss) (auto simp: twap_average_def)
  have "lo \<le> quot tw (int ?w) \<and> quot tw (int ?w) \<le> hi" if "?w > 0"
    using quot_between [OF assms(3) that] b by blast
  then show ?thesis using avg False by (intro exI [of _ "if ?w > 0 then Some (quot tw (int ?w)) else None"]) auto
qed

theorem twap_average_within_witness:
  "\<exists>p. twap_average [\<lparr>sample_timestamp = 0, sample_price = 10\<rparr>, \<lparr>sample_timestamp = 60, sample_price = 20\<rparr>]
       20 100 = Inr (Some p) \<and> 10 \<le> p \<and> p \<le> 20"
  using twap_average_within [of "\<lparr>sample_timestamp = 0, sample_price = 10\<rparr>"
    "[\<lparr>sample_timestamp = 60, sample_price = 20\<rparr>]" 10 20 100 20]
  by (auto simp: chronological_def prices_within_def width_defs)

text \<open>C10. The sample buffer. \<open>push_sample\<close> keeps the newest sample and, of the older ones, the most
  recent that fit the capacity (100 when 0 is given): the result is the end of the extended
  buffer, never longer than the capacity, and stays chronological when samples arrive in order.\<close>

theorem push_sample_keeps_newest:
  "push_sample ss x n = drop (length ss + 1 - (if n = 0 then 100 else n)) (ss @ [x]) \<and>
   length (push_sample ss x n) = min (length ss + 1) (if n = 0 then 100 else n) \<and>
   last (push_sample ss x n) = x \<and>
   (chronological (ss @ [x]) \<longrightarrow> chronological (push_sample ss x n))"
proof -
  define cap where "cap = (if n = 0 then 100 else n)"
  have e: "push_sample ss x n = drop (length ss + 1 - cap) (ss @ [x])"
    by (simp add: push_sample_def drop_to_cap_eq cap_def MAX_TWAP_SAMPLES_def)
  have "0 < cap" by (simp add: cap_def)
  then have "last (drop (length ss + 1 - cap) (ss @ [x])) = x" by (simp add: last_drop)
  then show ?thesis
    unfolding cap_def [symmetric]
    by (simp add: e chronological_def drop_map [symmetric] sorted_wrt_drop min_def del: drop_append)
qed

theorem push_sample_keeps_newest_witness:
  "push_sample [\<lparr>sample_timestamp = 0, sample_price = 10\<rparr>, \<lparr>sample_timestamp = 5, sample_price = 11\<rparr>]
     \<lparr>sample_timestamp = 9, sample_price = 12\<rparr> 2 =
   [\<lparr>sample_timestamp = 5, sample_price = 11\<rparr>, \<lparr>sample_timestamp = 9, sample_price = 12\<rparr>]"
  using push_sample_keeps_newest [of "[\<lparr>sample_timestamp = 0, sample_price = 10\<rparr>, \<lparr>sample_timestamp = 5, sample_price = 11\<rparr>]"
    "\<lparr>sample_timestamp = 9, sample_price = 12\<rparr>" 2] by simp

text \<open>C11. The accumulator of twap_accumulator.rs starts the clock of a token at its first
  observation and then demands 60 seconds since that same instant. Starting from empty storage,
  no sequence of observations is ever stored, so every average it reports is 0.\<close>

theorem accumulator_never_stores:
  "observe_all os Map.empty = Map.empty \<and> get_twap t lookback now (observe_all os Map.empty) = 0"
proof -
  have "record_observation t price ts sq Map.empty \<noteq> Inr r" for t price ts sq r
    by (auto simp: record_observation_def Let_def res_simps MIN_OBSERVATION_INTERVAL_SECS_def)
  then have reject: "\<exists>f. record_observation t price ts sq Map.empty = Inl f" for t price ts sq
    by (cases "record_observation t price ts sq Map.empty") blast+
  have "observe_all os Map.empty = Map.empty"
  proof (induction os)
    case (Cons ob os)
    obtain t price ts sq where "ob = (t, price, ts, sq)" by (cases ob) auto
    then show ?case using reject [of t price ts sq] Cons by auto
  qed simp
  then show ?thesis by (simp add: get_twap_def)
qed

end
