(* ===== verification/Prices.thy ===== *)
theory Prices
  imports Oracle Twap
begin

text \<open>
  Price aggregation of the oracle registry (src/contracts/invoice_liquidity/src/oracle_registry.rs):
  the list of price sources per feed, the median with outlier rejection, and the opt-in windowed
  average over samples pushed by the admin. A source's \<open>get_price\<close> is the parameter \<open>x_price\<close>;
  \<open>None\<close> is a call that fails.

  Shown here: the in-place insertion sort sorts, the median is the middle of the sorted values, and a
  majority of honest sources bounds the price that is returned.
\<close>

definition DEFAULT_MAX_PRICE_DEVIATION_BPS :: nat where "DEFAULT_MAX_PRICE_DEVIATION_BPS = 500"
definition LEDGER_SECONDS :: nat where "LEDGER_SECONDS = 5"
definition MIN_TWAP_WINDOW_LEDGERS :: nat where "MIN_TWAP_WINDOW_LEDGERS = 360"
definition MAX_TWAP_WINDOW_LEDGERS :: nat where "MAX_TWAP_WINDOW_LEDGERS = 17280"
definition DEFAULT_TWAP_WINDOW_LEDGERS :: nat where "DEFAULT_TWAP_WINDOW_LEDGERS = 720"

section \<open>Sources and parameters\<close>

definition add_price_source :: "'w env \<Rightarrow> oracle_feed_type \<Rightarrow> address \<Rightarrow> 'w state \<Rightarrow> 'w state result" where
  "add_price_source e f orc s =
     and_then (registry_gate e ''add_price_source'' s) (\<lambda>s1.
     let os = get_price_sources f s1 in
     if orc \<in> set os then Inr (publish (EvPriceSourceAdded f orc) s1)
     else if length os \<ge> MAX_PRICE_SOURCES_PER_FEED e then err TooManyPriceSources
     else Inr (publish (EvPriceSourceAdded f orc)
            (put_orcs (\<lambda>st. st\<lparr> price_sources := (price_sources st)(f \<mapsto> os @ [orc]) \<rparr>) s1)))"

definition remove_price_source :: "'w env \<Rightarrow> oracle_feed_type \<Rightarrow> address \<Rightarrow> 'w state \<Rightarrow> 'w state result" where
  "remove_price_source e f orc s =
     and_then (registry_gate e ''remove_price_source'' s) (\<lambda>s1.
     let remaining = filter (\<lambda>a. a \<noteq> orc) (get_price_sources f s1) in
     Inr (publish (EvPriceSourceRemoved f orc)
       (put_orcs (\<lambda>st. st\<lparr> price_sources := (price_sources st)(f \<mapsto> remaining) \<rparr>) s1)))"

definition set_max_price_deviation_bps :: "'w env \<Rightarrow> nat \<Rightarrow> 'w state \<Rightarrow> 'w state result" where
  "set_max_price_deviation_bps e bps s =
     and_then (registry_gate e ''set_max_price_deviation_bps'' s) (\<lambda>s1.
     if bps = 0 \<or> bps > 10000 then err InvalidAmount
     else Inr (put_orcs (\<lambda>st. st\<lparr> max_price_deviation_bps := Some bps \<rparr>) s1))"

definition get_max_price_deviation_bps :: "'w state \<Rightarrow> nat" where
  "get_max_price_deviation_bps s =
     unwrap_or (max_price_deviation_bps (orcs s)) DEFAULT_MAX_PRICE_DEVIATION_BPS"

definition require_healthy_price_feed :: "oracle_feed_type \<Rightarrow> address \<Rightarrow> 'w state \<Rightarrow> unit result" where
  "require_healthy_price_feed f t s =
     (if is_oracle_circuit_tripped f t s then err OracleCircuitOpen
      else case get_oracle_health f t s of
        Some h \<Rightarrow> if is_stale h then err OracleDataStale else Inr ()
      | None \<Rightarrow> Inr ())"

section \<open>Median and deviation\<close>

text \<open>The inner loop of the insertion sort: entries above the key move up by one.\<close>

fun sink_key :: "int \<Rightarrow> nat \<Rightarrow> int list \<Rightarrow> int list" where
  "sink_key key 0 xs = xs[0 := key]"
| "sink_key key (Suc j) xs =
     (if xs ! j > key then sink_key key j (xs[Suc j := xs ! j]) else xs[Suc j := key])"

definition insertion_sort :: "int list \<Rightarrow> int list" where
  "insertion_sort xs = fold (\<lambda>i ys. sink_key (ys ! i) i ys) [1..<length xs] xs"

text \<open>The sum of the two middle values is a plain \<open>i128\<close> addition, which traps on overflow.\<close>

definition median :: "int list \<Rightarrow> int result" where
  "median values =
     (let n = length values; sorted_values = insertion_sort values in
      if n mod 2 = 1 then Inr (sorted_values ! (n div 2))
      else if n = 0 then Inl Trap
      else let a = sorted_values ! (n div 2 - 1); b = sorted_values ! (n div 2) in
           and_then (ok_or (checked_add a b) Trap) (\<lambda>sum. Inr (quot sum 2)))"

definition checked_abs :: "int \<Rightarrow> int result" where
  "checked_abs x = (if in_i128 \<bar>x\<bar> then Inr \<bar>x\<bar> else Inl Trap)"

definition deviation_bps :: "int \<Rightarrow> int \<Rightarrow> nat result" where
  "deviation_bps price reference =
     (if reference = 0 then Inr (if price = 0 then 0 else u32_max)
      else
        and_then (ok_or (checked_sub price reference) Trap) (\<lambda>d.
        and_then (checked_abs d) (\<lambda>diff.
        and_then (checked_abs reference) (\<lambda>r.
        let bps = quot (saturating_mul diff 10000) r
        in Inr (nat (min (max bps 0) (int u32_max)))))))"

section \<open>Windowed average\<close>

definition is_twap_enabled :: "oracle_feed_type \<Rightarrow> 'w state \<Rightarrow> bool" where
  "is_twap_enabled f s = unwrap_or (twap_enabled (orcs s) f) False"

definition get_min_twap_observations :: "'w state \<Rightarrow> nat" where
  "get_min_twap_observations s = unwrap_or (min_twap_observations (orcs s)) 2"

definition set_min_twap_observations :: "'w env \<Rightarrow> nat \<Rightarrow> 'w state \<Rightarrow> 'w state result" where
  "set_min_twap_observations e n s =
     and_then (require_admin e s) (\<lambda>_.
     Inr (put_orcs (\<lambda>st. st\<lparr> min_twap_observations := Some n \<rparr>) s))"

definition set_twap_enabled :: "'w env \<Rightarrow> oracle_feed_type \<Rightarrow> bool \<Rightarrow> 'w state \<Rightarrow> 'w state result" where
  "set_twap_enabled e f on s =
     and_then (registry_gate e ''set_twap_enabled'' s) (\<lambda>s1.
     Inr (publish (EvTwapEnabledForFeed f on)
       (put_orcs (\<lambda>st. st\<lparr> twap_enabled := (twap_enabled st)(f \<mapsto> on) \<rparr>) s1)))"

definition get_twap_window_ledgers :: "'w state \<Rightarrow> nat" where
  "get_twap_window_ledgers s = unwrap_or (twap_window_ledgers (orcs s)) DEFAULT_TWAP_WINDOW_LEDGERS"

definition set_twap_window_ledgers :: "'w env \<Rightarrow> nat \<Rightarrow> 'w state \<Rightarrow> 'w state result" where
  "set_twap_window_ledgers e n s =
     and_then (registry_gate e ''set_twap_window'' s) (\<lambda>s1.
     if n < MIN_TWAP_WINDOW_LEDGERS \<or> n > MAX_TWAP_WINDOW_LEDGERS then err InvalidTwapWindow
     else Inr (publish (EvTwapWindowUpdated (get_twap_window_ledgers s1) n)
            (put_orcs (\<lambda>st. st\<lparr> twap_window_ledgers := Some n \<rparr>) s1)))"

definition get_twap_samples :: "oracle_feed_type \<Rightarrow> address \<Rightarrow> 'w state \<Rightarrow> twap_sample list" where
  "get_twap_samples f t s = unwrap_or (twap_samples (orcs s) (f, t)) []"

definition record_twap_sample ::
    "'w env \<Rightarrow> oracle_feed_type \<Rightarrow> address \<Rightarrow> int \<Rightarrow> 'w state \<Rightarrow> 'w state result" where
  "record_twap_sample e f t price s =
     and_then (require_admin e s) (\<lambda>_.
     if price \<le> 0 then err InvalidAmount
     else
       let samples = push_sample (get_twap_samples f t s)
             \<lparr> sample_timestamp = timestamp e, sample_price = price \<rparr> MAX_TWAP_SAMPLES
       in Inr (put_orcs (\<lambda>st. st\<lparr> twap_samples := (twap_samples st)((f, t) \<mapsto> samples) \<rparr>) s))"

definition get_twap_price ::
    "'w env \<Rightarrow> oracle_feed_type \<Rightarrow> address \<Rightarrow> 'w state \<Rightarrow> ('w, int option) outcome" where
  "get_twap_price e f t s =
     (case require_healthy_price_feed f t s of
        Inl _ \<Rightarrow> Inr (None, s)
      | Inr _ \<Rightarrow>
          let samples = get_twap_samples f t s; min_obs = get_min_twap_observations s in
          if length samples < min_obs then
            Inr (None, publish (EvTwapInsufficientData f t (length samples) min_obs) s)
          else
            let window_seconds = sat_mul_u64 (get_twap_window_ledgers s) LEDGER_SECONDS;
                window_start = timestamp e - window_seconds
            in and_then (twap_average samples window_start (timestamp e)) (\<lambda>r. Inr (r, s)))"

section \<open>Verified price\<close>

definition query_price :: "'w env \<Rightarrow> address \<Rightarrow> address \<Rightarrow> 'w state \<Rightarrow> int option" where
  "query_price e orc t s = x_price (ext e) (wld s) orc t"

fun query_sources :: "'w env \<Rightarrow> address \<Rightarrow> 'w state \<Rightarrow> address list \<Rightarrow> (address \<times> int) list" where
  "query_sources e t s [] = []"
| "query_sources e t s (orc # os) =
     (case query_price e orc t s of
        Some price \<Rightarrow> (orc, price) # query_sources e t s os
      | None \<Rightarrow> query_sources e t s os)"

fun reject_outliers ::
    "oracle_feed_type \<Rightarrow> address \<Rightarrow> int \<Rightarrow> nat \<Rightarrow> (address \<times> int) list \<Rightarrow> 'w state \<Rightarrow>
     ('w, int list) outcome" where
  "reject_outliers f t med max_dev [] s = Inr ([], s)"
| "reject_outliers f t med max_dev ((orc, price) # ps) s =
     and_then (deviation_bps price med) (\<lambda>dev.
     if dev > max_dev then
       reject_outliers f t med max_dev ps (publish (EvPriceOutlierRejected f t orc price med dev) s)
     else and_then (reject_outliers f t med max_dev ps s) (\<lambda>(ys, s'). Inr (price # ys, s')))"

definition aggregate_prices ::
    "oracle_feed_type \<Rightarrow> address \<Rightarrow> (address \<times> int) list \<Rightarrow> 'w state \<Rightarrow> ('w, int) outcome" where
  "aggregate_prices f t priced s =
     (let prices = map snd priced in
      if prices = [] then err NoPriceSource
      else if length prices = 1 then Inr (hd prices, s)
      else
        and_then (median prices) (\<lambda>overall_median.
        and_then (reject_outliers f t overall_median (get_max_price_deviation_bps s) priced s) (\<lambda>(survivors, s1).
        if survivors = [] then err AllPriceSourcesRejected
        else and_then (median survivors) (\<lambda>m. Inr (m, s1)))))"

definition get_spot_price ::
    "'w env \<Rightarrow> oracle_feed_type \<Rightarrow> address \<Rightarrow> 'w state \<Rightarrow> ('w, int) outcome" where
  "get_spot_price e f t s = aggregate_prices f t (query_sources e t s (get_price_sources f s)) s"

definition get_verified_price ::
    "'w env \<Rightarrow> oracle_feed_type \<Rightarrow> address \<Rightarrow> 'w state \<Rightarrow> ('w, int) outcome" where
  "get_verified_price e f t s =
     and_then (require_healthy_price_feed f t s) (\<lambda>_.
     if is_twap_enabled f s then
       and_then (get_twap_price e f t s) (\<lambda>(avg, s1).
       case avg of Some a \<Rightarrow> Inr (a, s1) | None \<Rightarrow> get_spot_price e f t s1)
     else get_spot_price e f t s)"

definition get_twap_aware_price ::
    "'w env \<Rightarrow> oracle_feed_type \<Rightarrow> address \<Rightarrow> 'w state \<Rightarrow> ('w, int) outcome" where
  "get_twap_aware_price e f t s =
     (if is_twap_enabled f s then
        and_then (require_healthy_price_feed f t s) (\<lambda>_.
        and_then (get_twap_price e f t s) (\<lambda>(avg, s1).
        case avg of Some a \<Rightarrow> Inr (a, s1) | None \<Rightarrow> err InsufficientTwapObservations))
      else get_verified_price e f t s)"

text \<open>Three sources, the third one dishonest, for the examples.\<close>

definition three_sources :: "int \<Rightarrow> unit env" where
  "three_sources bad = call_env (no_contracts\<lparr> x_price := (\<lambda>_ a _.
     if a = Address 1 then Some 100 else if a = Address 2 then Some 101
     else if a = Address 3 then Some bad else None) \<rparr>) 0 0 {}"

definition three_sources_state :: "unit state" where
  "three_sources_state = put_orcs (\<lambda>os. os\<lparr> price_sources := [Price \<mapsto> [Address 1, Address 2, Address 3]] \<rparr>)
     (fresh_state ())"

section \<open>Library lemmas\<close>

lemma insort_snoc_greater: "key < y \<Longrightarrow> insort key (ys @ [y]) = insort key ys @ [(y::int)]"
  by (induction ys) auto

lemma insort_snoc_max:
  assumes "sorted ys" "\<forall>y\<in>set ys. y \<le> key"
  shows "insort key ys = ys @ [key::int]"
proof -
  have "sort (key # ys) = ys @ [key]"
    by (rule properties_for_sort) (use assms in \<open>auto simp: sorted_append\<close>)
  then show ?thesis using assms(1) by (simp add: sorted_sort_id)
qed

lemma sink_key_eq:
  assumes "j < length xs" "sorted (take j xs)"
  shows "sink_key key j xs = insort key (take j xs) @ drop (Suc j) xs"
  using assms
proof (induction j arbitrary: xs)
  case 0
  then show ?case by (cases xs) auto
next
  case (Suc j)
  have snoc: "take (Suc j) xs = take j xs @ [xs ! j]"
    using Suc.prems(1) by (simp add: take_Suc_conv_app_nth)
  have srt: "sorted (take j xs)" "\<forall>y\<in>set (take j xs). y \<le> xs ! j"
    using Suc.prems(2) unfolding snoc by (auto simp: sorted_append)
  show ?case
  proof (cases "xs ! j > key")
    case True
    have "sink_key key (Suc j) xs = insort key (take j xs) @ drop (Suc j) (xs[Suc j := xs ! j])"
      using True Suc.prems(1) srt(1) Suc.IH [of "xs[Suc j := xs ! j]"] by simp
    also have "drop (Suc j) (xs[Suc j := xs ! j]) = xs ! j # drop (Suc (Suc j)) xs"
      using Suc.prems(1) by (simp add: drop_update_swap Cons_nth_drop_Suc [symmetric])
    finally show ?thesis using insort_snoc_greater [OF True] by (simp add: snoc)
  next
    case False
    then have "insort key (take (Suc j) xs) = take (Suc j) xs @ [key]"
      using srt Suc.prems(2) by (intro insort_snoc_max) (auto simp: snoc)
    then show ?thesis
      using False Suc.prems(1) by (simp add: upd_conv_take_nth_drop)
  qed
qed

lemma insertion_sort_prefix:
  "1 \<le> k \<Longrightarrow> k \<le> length xs \<Longrightarrow>
   fold (\<lambda>i ys. sink_key (ys ! i) i ys) [1..<k] xs = sort (take k xs) @ drop k xs"
proof (induction k rule: dec_induct)
  case base
  then show ?case by (cases xs) auto
next
  case (step k)
  let ?ys = "sort (take k xs) @ drop k xs"
  have k: "k < length xs" using step by simp
  then have nth: "?ys ! k = xs ! k" by (simp add: nth_append)
  have "fold (\<lambda>i ys. sink_key (ys ! i) i ys) [1..<Suc k] xs = sink_key (xs ! k) k ?ys"
    using step k nth by (simp del: sort_key_simps)
  also have "\<dots> = insort (xs ! k) (sort (take k xs)) @ drop (Suc k) xs"
    using k by (subst sink_key_eq) (auto simp: Suc_diff_le)
  also have "insort (xs ! k) (sort (take k xs)) = sort (take (Suc k) xs)"
    using k by (intro properties_for_sort [symmetric]) (auto simp: take_Suc_conv_app_nth sorted_insort)
  finally show ?case .
qed

lemma insertion_sort_eq: "insertion_sort xs = sort xs"
  using insertion_sort_prefix [of "length xs" xs] by (cases xs) (auto simp: insertion_sort_def)

lemma sorted_rank_le:
  assumes "sorted ys" "i < length ys" "i < length (filter P ys)" "\<forall>y. P y \<longrightarrow> y \<le> hi"
  shows "ys ! i \<le> (hi::int)"
proof (rule ccontr)
  assume "\<not> ys ! i \<le> hi"
  have "\<forall>y\<in>set (drop i ys). \<not> P y"
  proof
    fix y assume "y \<in> set (drop i ys)"
    then obtain j where "j < length ys - i" "y = ys ! (i + j)" by (auto simp: in_set_conv_nth)
    then have "ys ! i \<le> y" using sorted_nth_mono [OF assms(1), of i "i + j"] by simp
    then show "\<not> P y" using \<open>\<not> ys ! i \<le> hi\<close> assms(4) by force
  qed
  then have "filter P (drop i ys) = []" by (simp add: filter_empty_conv)
  then have "length (filter P ys) = length (filter P (take i ys))"
    by (metis append_Nil2 append_take_drop_id filter_append)
  also have "\<dots> \<le> i" using length_filter_le [of P "take i ys"] assms(2) by simp
  finally show False using assms(3) by simp
qed

lemma sorted_rank_ge:
  assumes "sorted ys" "i < length ys" "length ys - Suc i < length (filter P ys)" "\<forall>y. P y \<longrightarrow> lo \<le> y"
  shows "(lo::int) \<le> ys ! i"
proof (rule ccontr)
  assume "\<not> lo \<le> ys ! i"
  have "\<forall>y\<in>set (take (Suc i) ys). \<not> P y"
  proof
    fix y assume "y \<in> set (take (Suc i) ys)"
    then obtain j where "j \<le> i" "y = ys ! j" using assms(2) by (auto simp: in_set_conv_nth less_Suc_eq_le)
    then have "y \<le> ys ! i" using sorted_nth_mono [OF assms(1), of j i] assms(2) by simp
    then show "\<not> P y" using \<open>\<not> lo \<le> ys ! i\<close> assms(4) by force
  qed
  then have "filter P (take (Suc i) ys) = []" by (simp add: filter_empty_conv)
  then have "length (filter P ys) = length (filter P (drop (Suc i) ys))"
    by (metis append_Nil append_take_drop_id filter_append)
  also have "\<dots> \<le> length ys - Suc i" using length_filter_le [of P "drop (Suc i) ys"] by simp
  finally show False using assms(3) by simp
qed

lemma filter_sort_length: "length (filter P (sort xs)) = length (filter P (xs :: int list))"
  by (metis mset_filter mset_sort size_mset)

lemma median_odd: "length xs mod 2 = 1 \<Longrightarrow> median xs = Inr (sort xs ! (length xs div 2))"
  by (simp add: median_def Let_def insertion_sort_eq)

lemma median_even:
  assumes "length xs mod 2 \<noteq> 1" "median xs = Inr m"
  shows "xs \<noteq> []" "m = quot (sort xs ! (length xs div 2 - 1) + sort xs ! (length xs div 2)) 2"
  using assms by (auto simp: median_def Let_def insertion_sort_eq res_simps ok_or_def checked_add_def
      split: if_splits option.splits)

text \<open>The median lies in every range that holds more than half of the values.\<close>

lemma median_majority:
  assumes "median xs = Inr m" "length xs < 2 * length (filter (\<lambda>x. lo \<le> x \<and> x \<le> hi) xs)" "0 \<le> lo"
  shows "lo \<le> m" "m \<le> hi"
proof -
  let ?P = "\<lambda>x. lo \<le> x \<and> x \<le> hi" and ?ys = "sort xs" and ?k = "length xs div 2"
  have maj: "length xs < 2 * length (filter ?P ?ys)" using assms(2) by (simp add: filter_sort_length)
  have in_range: "lo \<le> ?ys ! i \<and> ?ys ! i \<le> hi"
    if "i < length xs" "i < length (filter ?P ?ys)" "length xs - Suc i < length (filter ?P ?ys)" for i
    using that sorted_rank_le [of ?ys i ?P hi] sorted_rank_ge [of ?ys i ?P lo] by simp
  have "lo \<le> m \<and> m \<le> hi"
  proof (cases "length xs mod 2 = 1")
    case True
    then have "m = ?ys ! ?k" using assms(1) by (simp add: median_odd)
    moreover have "length xs = Suc (2 * ?k)" using True by presburger
    then have "lo \<le> ?ys ! ?k \<and> ?ys ! ?k \<le> hi" using maj by (intro in_range; linarith)
    ultimately show ?thesis by simp
  next
    case False
    note n = median_even [OF False assms(1)]
    have "length xs = 2 * ?k" using False by presburger
    moreover have "0 < length xs" using n(1) by simp
    ultimately have "0 < ?k" "length xs = 2 * ?k" by linarith+
    then have "lo \<le> ?ys ! (?k - 1) \<and> ?ys ! (?k - 1) \<le> hi" "lo \<le> ?ys ! ?k \<and> ?ys ! ?k \<le> hi"
      using maj by (intro in_range; linarith)+
    then show ?thesis using n(2) quot_2_between [of lo _ hi, OF _ _ _ _ assms(3)] by blast
  qed
  then show "lo \<le> m" "m \<le> hi" by simp_all
qed

lemma median_between:
  assumes "median xs = Inr m" "\<forall>x\<in>set xs. lo \<le> x \<and> x \<le> hi" "0 \<le> lo"
  shows "lo \<le> m" "m \<le> hi"
proof -
  have "xs \<noteq> []" using assms(1) by (auto simp: median_def)
  moreover have "filter (\<lambda>x. lo \<le> x \<and> x \<le> hi) xs = xs" using assms(2) by (simp add: filter_id_conv)
  ultimately have "length xs < 2 * length (filter (\<lambda>x. lo \<le> x \<and> x \<le> hi) xs)" by simp
  from median_majority [OF assms(1) this assms(3)] show "lo \<le> m" "m \<le> hi" .
qed

lemma deviation_bps_bound:
  assumes "deviation_bps p m = Inr d" "d \<le> D" "D < 10000" "0 < m" "10001 * m \<le> i128_max"
  shows "\<bar>p - m\<bar> * 10000 < (int D + 1) * m"
proof -
  let ?z = "\<bar>p - m\<bar> * 10000" and ?x = "clamp_i128 (\<bar>p - m\<bar> * 10000)"
  have z: "0 \<le> ?z" by simp
  then have x: "0 \<le> ?x" using clamp_i128_mono [OF z] by simp
  have "d = nat (min (max (quot ?x m) 0) (int u32_max))"
    using assms(1,4) by (auto simp: deviation_bps_def Let_def res_simps ok_or_def checked_sub_def
        checked_abs_def saturating_mul_def split: if_splits option.splits)
  then have "?x div m \<le> int D" using assms(2-4) x by (simp add: quot_nonneg u32_max_def)
  then have "?x div m < int D + 1" by simp
  then have "?x < (int D + 1) * m" using assms(4) zdiv_mono1 [of "(int D + 1) * m" ?x m]
    by (force simp: not_less [symmetric])
  moreover have "(int D + 1) * m \<le> 10000 * m" using assms(3,4) by (intro mult_right_mono) auto
  ultimately have "?x < i128_max" using assms(5) assms(4) by linarith
  moreover have "in_i128 i128_max" by (simp add: in_i128_def width_defs)
  ultimately have "in_i128 ?z"
    using clamp_i128_mono [of i128_max ?z] z in_i128_between [of 0 i128_max ?z] by force
  then have "?z = ?x" by simp
  then show ?thesis using \<open>?x < (int D + 1) * m\<close> by simp
qed

lemma deviation_bps_eq:
  assumes "0 < m" "m \<le> i128_max" "\<bar>p - m\<bar> * 10000 \<le> i128_max"
  shows "deviation_bps p m = Inr (nat (min (\<bar>p - m\<bar> * 10000 div m) (int u32_max)))"
proof -
  let ?d = "\<bar>p - m\<bar>"
  have d: "0 \<le> ?d" "?d \<le> ?d * 10000" "- ?d \<le> p - m" "p - m \<le> ?d" by auto
  have range: "in_i128 x" if "- (?d * 10000) \<le> x" "x \<le> i128_max" for x
    using that assms(3) d(1) by (simp add: in_i128_def width_defs)
  have "in_i128 (?d * 10000)" "in_i128 ?d" "in_i128 (p - m)" "in_i128 m"
    using d assms by (intro range; linarith)+
  moreover have "0 \<le> ?d * 10000 div m" using assms(1) by (simp add: pos_imp_zdiv_nonneg_iff)
  ultimately show ?thesis using assms(1)
    by (simp add: deviation_bps_def checked_sub_def checked_abs_def ok_or_def saturating_mul_def quot_nonneg)
qed

lemma reject_outliers_survivors:
  "reject_outliers f t med D priced s = Inr (ys, s') \<Longrightarrow> p \<in> set ys \<Longrightarrow>
   p \<in> snd ` set priced \<and> (\<exists>d. deviation_bps p med = Inr d \<and> d \<le> D)"
proof (induction f t med D priced s arbitrary: ys rule: reject_outliers.induct)
  case (2 f t med D orc price ps s)
  then show ?case by (fastforce simp: res_simps split: if_splits)
qed simp

lemma survivors_median:
  assumes "median prices = Inr med" "0 < lo" "lo \<le> med" "med \<le> hi" "10001 * hi \<le> i128_max" "D < 10000"
    and "reject_outliers f t med D priced s = Inr (ys, s')" "median ys = Inr m"
  shows "(9999 - int D) * lo < 10000 * m" "10000 * m < (10001 + int D) * hi"
proof -
  have near: "(9999 - int D) * lo < 10000 * p \<and> 10000 * p < (10001 + int D) * hi \<and> 0 < p" if "p \<in> set ys" for p
  proof -
    obtain d where "deviation_bps p med = Inr d" "d \<le> D" using reject_outliers_survivors [OF assms(7) \<open>p \<in> set ys\<close>] by blast
    then have "\<bar>p - med\<bar> * 10000 < (int D + 1) * med"
      by (rule deviation_bps_bound) (use assms in auto)
    moreover have "(9999 - int D) * lo \<le> (9999 - int D) * med" "0 \<le> (9999 - int D) * lo"
      "(10001 + int D) * med \<le> (10001 + int D) * hi"
      using assms by (auto intro!: mult_left_mono)
    ultimately show ?thesis by (auto simp: algebra_simps abs_if split: if_splits)
  qed
  have ne: "ys \<noteq> []" using assms(8) by (auto simp: median_def)
  have mem: "Min (set ys) \<in> set ys" "Max (set ys) \<in> set ys" using ne by simp_all
  have "Min (set ys) \<le> m" "m \<le> Max (set ys)"
    using median_between [OF assms(8), of "Min (set ys)" "Max (set ys)"] near [OF mem(1)] by auto
  then show "(9999 - int D) * lo < 10000 * m" "10000 * m < (10001 + int D) * hi"
    using near [OF mem(1)] near [OF mem(2)] by linarith+
qed

lemma get_verified_price_spot:
  assumes "get_verified_price e f t s = Inr (m, s')" "\<not> is_twap_enabled f s"
  obtains "get_spot_price e f t s = Inr (m, s')"
  using assms by (auto simp: get_verified_price_def res_simps)

lemma median_trap: "median xs = Inl x \<Longrightarrow> x = Trap"
  by (auto simp: median_def Let_def and_then_def ok_or_def split: if_splits option.splits sum.splits)

lemma deviation_trap: "deviation_bps p m = Inl x \<Longrightarrow> x = Trap"
  by (auto simp: deviation_bps_def Let_def and_then_def ok_or_def checked_abs_def split: if_splits option.splits)

lemma reject_outliers_trap:
  "(a, p) \<in> set priced \<Longrightarrow> deviation_bps p med = Inl Trap \<Longrightarrow> reject_outliers f t med D priced s = Inl Trap"
proof (induction f t med D priced s rule: reject_outliers.induct)
  case (2 f t med D orc price ps s)
  then show ?case by (cases "deviation_bps price med") (auto dest: deviation_trap)
qed simp

lemmas three_sources_simps = three_sources_def three_sources_state_def call_env_def no_contracts_def
  fresh_state_def put_orcs_def get_price_sources_def query_price_def get_max_price_deviation_bps_def
  DEFAULT_MAX_PRICE_DEVIATION_BPS_def is_twap_enabled_def require_healthy_price_feed_def
  is_oracle_circuit_tripped_def get_oracle_health_def

section \<open>Properties\<close>

text \<open>
  C23. An honest majority bounds the spot price. With the time-weighted average switched off for the
  feed and a maximal deviation below 100%, if more than half of the sources that answer report a
  positive price in \<open>[lo, hi]\<close>, \<open>10001 * hi\<close> being an \<open>i128\<close>, then the price \<open>get_verified_price\<close>
  returns leaves that range by less than the configured deviation plus one basis point, whatever
  the other sources report.
\<close>

theorem honest_majority_bounds_price:
  assumes "get_verified_price e f t s = Inr (m, s')" "\<not> is_twap_enabled f s"
    "length (query_sources e t s (get_price_sources f s)) <
     2 * length (filter (\<lambda>q. lo \<le> snd q \<and> snd q \<le> hi) (query_sources e t s (get_price_sources f s)))"
    "0 < lo" "10001 * hi \<le> i128_max" "get_max_price_deviation_bps s < 10000"
  shows "(9999 - int (get_max_price_deviation_bps s)) * lo < 10000 * m \<and>
         10000 * m < (10001 + int (get_max_price_deviation_bps s)) * hi"
proof -
  let ?q = "query_sources e t s (get_price_sources f s)"
  have maj: "length (map snd ?q) < 2 * length (filter (\<lambda>x. lo \<le> x \<and> x \<le> hi) (map snd ?q))"
    using assms(3) by (simp add: filter_map o_def)
  have spot: "aggregate_prices f t ?q s = Inr (m, s')"
    using get_verified_price_spot [OF assms(1,2)] by (simp add: get_spot_price_def)
  then consider (single) x where "map snd ?q = [x]" "m = x"
    | (many) med ys where "median (map snd ?q) = Inr med"
        "reject_outliers f t med (get_max_price_deviation_bps s) ?q s = Inr (ys, s')" "median ys = Inr m"
    by (auto simp: aggregate_prices_def Let_def res_simps length_Suc_conv split: if_splits)
  then show ?thesis
  proof cases
    case single
    then have x: "lo \<le> m" "m \<le> hi" using maj by (auto split: if_splits)
    have "(9999 - int (get_max_price_deviation_bps s)) * lo \<le> 9999 * lo" using assms(4) by (intro mult_right_mono) auto
    moreover have "10001 * hi \<le> (10001 + int (get_max_price_deviation_bps s)) * hi"
      using x assms(4) by (intro mult_right_mono) auto
    ultimately show ?thesis using x assms(4) by linarith
  next
    case many
    have "lo \<le> med" "med \<le> hi" using median_majority [OF many(1) maj] assms(4) by auto
    from survivors_median [OF many(1) assms(4) this assms(5,6) many(2,3)] show ?thesis by simp
  qed
qed

theorem honest_majority_bounds_price_witness:
  "\<exists>s'. get_verified_price (three_sources 5000) Price (Address 9) three_sources_state = Inr (100, s') \<and>
        (9999 - 500) * 100 < 10000 * (100::int) \<and> 10000 * 100 < (10001 + 500) * (101::int)"
proof -
  let ?e = "three_sources 5000" and ?s = three_sources_state
  have q: "query_sources ?e (Address 9) ?s (get_price_sources Price ?s) =
      [(Address 1, 100), (Address 2, 101), (Address 3, 5000)]"
    by (simp add: three_sources_simps)
  have med: "median [100, 101, 5000] = Inr 101" "median [100, 101] = Inr 100"
    by (simp_all add: median_def insertion_sort_eq ok_or_def checked_add_def in_i128_def width_defs quot_nonneg)
  have dev: "deviation_bps 100 101 = Inr 99" "deviation_bps 101 101 = Inr 0" "deviation_bps 5000 101 = Inr 485049"
    by (simp_all add: deviation_bps_eq width_defs)
  have "get_max_price_deviation_bps ?s = 500" "\<not> is_twap_enabled Price ?s"
    "require_healthy_price_feed Price (Address 9) ?s = Inr ()" by (simp_all add: three_sources_simps)
  then have p: "\<exists>s'. get_verified_price ?e Price (Address 9) ?s = Inr (100, s')"
    by (simp add: get_verified_price_def get_spot_price_def q aggregate_prices_def med dev)
  then obtain s' where "get_verified_price ?e Price (Address 9) ?s = Inr (100, s')" by blast
  from honest_majority_bounds_price [OF this, of 100 101] p show ?thesis
    by (simp add: q i128_max_def)
qed

text \<open>
  C24. One source can take the price feed down (with the time-weighted average switched off). A registered source that answers with the least
  \<open>i128\<close> value makes the deviation computation overflow, so the read traps although a majority of
  honest sources answered; a failing source, by contrast, is skipped.
\<close>

theorem extreme_source_blocks_price:
  assumes "(a, i128_min) \<in> set (query_sources e t s (get_price_sources f s))" "\<not> is_twap_enabled f s"
    "require_healthy_price_feed f t s = Inr ()" "0 < lo"
    "length (query_sources e t s (get_price_sources f s)) <
     2 * length (filter (\<lambda>q. lo \<le> snd q \<and> snd q \<le> hi) (query_sources e t s (get_price_sources f s)))"
  shows "get_verified_price e f t s = Inl Trap"
proof -
  let ?q = "query_sources e t s (get_price_sources f s)"
  have maj: "length (map snd ?q) < 2 * length (filter (\<lambda>x. lo \<le> x \<and> x \<le> hi) (map snd ?q))"
    using assms(5) by (simp add: filter_map o_def)
  have "\<not> lo \<le> i128_min" using assms(4) by (simp add: i128_min_def)
  then have "?q \<noteq> [x]" for x using assms(1,5) by auto
  then have ne: "length ?q \<noteq> 1" "?q \<noteq> []" using assms(1) by (auto simp: length_Suc_conv)
  have "aggregate_prices f t ?q s = Inl Trap"
  proof (cases "median (map snd ?q)")
    case (Inl x)
    then show ?thesis using ne median_trap [OF Inl] by (simp add: aggregate_prices_def Let_def)
  next
    case (Inr med)
    then have "0 < med" using median_majority(1) [OF Inr maj] assms(4) by simp
    then have "deviation_bps i128_min med = Inl Trap"
      by (simp add: deviation_bps_def checked_sub_def in_i128_def ok_or_def)
    from reject_outliers_trap [OF assms(1) this, of f t "get_max_price_deviation_bps s" s] Inr ne show ?thesis
      by (simp add: aggregate_prices_def Let_def)
  qed
  then show ?thesis using assms(2,3) by (simp add: get_verified_price_def get_spot_price_def)
qed

theorem extreme_source_blocks_price_witness:
  "get_verified_price (three_sources i128_min) Price (Address 9) three_sources_state = Inl Trap"
  by (rule extreme_source_blocks_price [where a = "Address 3" and lo = 100 and hi = 101])
    (simp_all add: three_sources_simps i128_min_def)

end
