(* ===== verification/Views.thy ===== *)
theory Views
  imports Examples Prices
begin

text \<open>
  The read-only entry points of src/contracts/invoice_liquidity/src/lib.rs that aggregate state:
  the paginated invoice lists, the statistics with their normalised volume, the public protocol
  status, and the single-invoice reads. Their price feeds are the parameter \<open>x_price\<close> of the model.

  Shown here: the pages of a list are a partition of it, in order, for every page size.
\<close>

section \<open>Invoices\<close>

definition get_invoice :: "nat \<Rightarrow> 'w state \<Rightarrow> invoice result" where
  "get_invoice n s = (if \<not> invoice_exists n s then err InvoiceNotFound else load_invoice n s)"

definition get_invoice_count :: "'w state \<Rightarrow> nat" where
  "get_invoice_count s = read_next_invoice_id s - 1"

fun load_each :: "nat list \<Rightarrow> 'w state \<Rightarrow> invoice list result" where
  "load_each [] s = Inr []"
| "load_each (n # ns) s = and_then (load_invoice n s) (\<lambda>i. and_then (load_each ns s) (\<lambda>is. Inr (i # is)))"

text \<open>The ids of a page: \<open>start..end\<close> of the list, with the saturating \<open>u32\<close> products of the code.\<close>

definition page_ids :: "nat list \<Rightarrow> nat \<Rightarrow> nat \<Rightarrow> nat list" where
  "page_ids ids page page_size0 =
     (let page_size = min page_size0 50;
          total_invoices = length ids;
          start = sat_mul_u32 page page_size
      in if start \<ge> total_invoices then []
         else let end' = min (sat_add_u32 start page_size) total_invoices
              in map (\<lambda>i. ids ! i) [start..<end'])"

definition list_invoices_by_submitter :: "address \<Rightarrow> nat \<Rightarrow> nat \<Rightarrow> 'w state \<Rightarrow> invoice list result" where
  "list_invoices_by_submitter a page page_size s = load_each (page_ids (get_submitter_invoices a s) page page_size) s"

definition list_invoices_by_lp :: "address \<Rightarrow> nat \<Rightarrow> nat \<Rightarrow> 'w state \<Rightarrow> invoice list result" where
  "list_invoices_by_lp a page page_size s = load_each (page_ids (get_lp_invoices a s) page page_size) s"

section \<open>Statistics and status\<close>

record contract_stats =
  cs_total_invoices :: nat
  cs_total_funded :: nat
  cs_total_paid :: nat
  cs_total_volume_usdc :: int
  cs_total_volume_eurc :: int
  cs_total_volume_xlm :: int
  cs_token_volumes :: "(address \<times> int) list"
  cs_total_volume_usd_normalized :: int

definition get_price_from_oracle :: "'w env \<Rightarrow> address \<Rightarrow> 'w state \<Rightarrow> int option" where
  "get_price_from_oracle e t s =
     (case require_healthy_price_feed Price t s of
        Inl _ \<Rightarrow> None
      | Inr _ \<Rightarrow>
          (case (case resolve_oracle Price t s of
                   Some orc \<Rightarrow> Some orc
                 | None \<Rightarrow> (case get_config s of None \<Rightarrow> None | Some c \<Rightarrow> price_oracle c)) of
             None \<Rightarrow> None
           | Some orc \<Rightarrow> query_price e orc t s))"

definition normalized_volume :: "'w env \<Rightarrow> 'w state \<Rightarrow> address \<Rightarrow> int \<Rightarrow> int" where
  "normalized_volume e s t acc =
     (case get_price_from_oracle e t s of
        None \<Rightarrow> acc
      | Some price_bps \<Rightarrow>
          unwrap_or (checked_add acc
            (quot (unwrap_or (checked_mul (get_token_volume t s) price_bps) 0) 10000)) acc)"

definition get_contract_stats :: "'w env \<Rightarrow> 'w state \<Rightarrow> contract_stats" where
  "get_contract_stats e s =
     (let tokens = unwrap_or (token_list (toks s)) []
      in \<lparr> cs_total_invoices = unwrap_or (total_invoices (stats s)) 0,
           cs_total_funded = unwrap_or (total_funded (stats s)) 0,
           cs_total_paid = unwrap_or (total_paid (stats s)) 0,
           cs_total_volume_usdc = unwrap_or (total_volume_usdc (stats s)) 0,
           cs_total_volume_eurc = unwrap_or (total_volume_eurc (stats s)) 0,
           cs_total_volume_xlm = unwrap_or (total_volume_xlm (stats s)) 0,
           cs_token_volumes = map (\<lambda>t. (t, get_token_volume t s)) tokens,
           cs_total_volume_usd_normalized = fold (normalized_volume e s) tokens 0 \<rparr>)"

record protocol_status =
  ps_paused :: bool
  ps_last_pause_timestamp :: nat
  ps_admin :: address
  ps_multisig_configured :: bool
  ps_multisig_threshold :: nat
  ps_multisig_signer_count :: nat
  ps_oracle_circuit_tripped :: bool
  ps_oracle_circuits_tripped :: nat

definition tripped_circuits :: "'w state \<Rightarrow> nat" where
  "tripped_circuits s =
     length (filter (\<lambda>(f, t). is_oracle_circuit_tripped f t s)
       (List.product [Price, Identity, Credit] (unwrap_or (token_list (toks s)) [])))"

text \<open>The counter is a \<open>u32\<close> incremented with overflow checks.\<close>

definition get_protocol_status :: "'w env \<Rightarrow> 'w state \<Rightarrow> protocol_status result" where
  "get_protocol_status e s =
     and_then (to_u32 (tripped_circuits s)) (\<lambda>tripped.
     Inr \<lparr> ps_paused = is_paused s,
           ps_last_pause_timestamp = get_last_pause_timestamp s,
           ps_admin = unwrap_or (get_admin s) (self e),
           ps_multisig_configured = (multisig (mss s) \<noteq> None),
           ps_multisig_threshold = (case multisig (mss s) of Some m \<Rightarrow> threshold m | None \<Rightarrow> 0),
           ps_multisig_signer_count = (case multisig (mss s) of Some m \<Rightarrow> length (signers m) | None \<Rightarrow> 0),
           ps_oracle_circuit_tripped = (tripped > 0),
           ps_oracle_circuits_tripped = tripped \<rparr>)"

section \<open>Pages\<close>

lemma map_nth_slice: "b \<le> length xs \<Longrightarrow> map (\<lambda>i. xs ! i) [a..<b] = take (b - a) (drop a xs)"
  by (rule nth_equalityI) auto

lemma page_ids_slice:
  assumes "length ids \<le> u32_max"
  shows "page_ids ids p sz = take (min sz 50) (drop (p * min sz 50) ids)"
proof -
  define z where "z = min sz 50"
  have st: "length ids \<le> sat_mul_u32 p z \<longleftrightarrow> length ids \<le> p * z"
    using assms by (auto simp: sat_mul_u32_def)
  have "page_ids ids p sz = take z (drop (p * z) ids)"
  proof (cases "length ids \<le> p * z")
    case False
    then have m: "sat_mul_u32 p z = p * z" using assms by (simp add: sat_mul_u32_def)
    have e: "min (sat_add_u32 (p * z) z) (length ids) = min (p * z + z) (length ids)"
      using assms by (auto simp: sat_add_u32_def min_def)
    show ?thesis using False by (simp add: page_ids_def Let_def m e map_nth_slice flip: z_def) (simp add: min_def)
  qed (use st in \<open>simp add: page_ids_def Let_def flip: z_def\<close>)
  then show ?thesis by (simp add: z_def)
qed

lemma load_each_all:
  "list_all (\<lambda>n. invoice_at (invs s) n \<noteq> None) ns \<Longrightarrow>
   load_each ns s = Inr (map (\<lambda>n. the (invoice_at (invs s) n)) ns)"
  by (induction ns) (auto simp: load_invoice_def)

lemma pages_concat: "concat (map (\<lambda>p. take z (drop (p * z) xs)) [0..<k]) = take (k * z) xs"
proof (induction k)
  case (Suc k)
  have "take (Suc k * z) xs = take (k * z) xs @ take z (drop (k * z) xs)"
    using take_add [of "k * z" z xs] by (simp only: mult_Suc add.commute)
  then show ?case using Suc by simp
qed simp

section \<open>Properties\<close>

text \<open>
  C28: the pages of a submitter's invoices, for any page size above 0 (the contract caps it at 50), are
  returned without a trap and put together they are exactly the first invoices of the list, in order.
\<close>

theorem pages_partition_list:
  assumes "length (get_submitter_invoices a s) \<le> u32_max"
    and "list_all (\<lambda>n. invoice_at (invs s) n \<noteq> None) (get_submitter_invoices a s)"
  shows "\<exists>pss. map (\<lambda>p. list_invoices_by_submitter a p sz s) [0..<k] = map Inr pss \<and>
    concat pss = take (k * min sz 50) (map (\<lambda>n. the (invoice_at (invs s) n)) (get_submitter_invoices a s))"
proof -
  let ?ids = "get_submitter_invoices a s" and ?z = "min sz 50" and ?inv = "\<lambda>n. the (invoice_at (invs s) n)"
  let ?page = "\<lambda>p. take ?z (drop (p * ?z) ?ids)"
  have "list_invoices_by_submitter a p sz s = Inr (map ?inv (?page p))" for p
    unfolding list_invoices_by_submitter_def page_ids_slice [OF assms(1)]
    by (rule load_each_all) (use assms(2) in \<open>auto simp: list_all_iff dest: in_set_takeD in_set_dropD\<close>)
  moreover have "concat (map (\<lambda>p. map ?inv (?page p)) [0..<k]) = take (k * ?z) (map ?inv ?ids)"
    using pages_concat [of ?z "map ?inv ?ids" k] by (simp add: take_map drop_map)
  ultimately show ?thesis by (intro exI [of _ "map (\<lambda>p. map ?inv (?page p)) [0..<k]"]) simp
qed

theorem pages_partition_list_witness:
  "let s = sample_state\<lparr> invs := (invs sample_state)\<lparr> invoice_at := [7 \<mapsto> sample_invoice, 8 \<mapsto> sample_invoice\<lparr> inv_id := 8 \<rparr>] \<rparr>,
         idxs := (idxs sample_state)\<lparr> submitter_invoices := [Address 3 \<mapsto> [7, 8]] \<rparr> \<rparr>
   in \<exists>pss. map (\<lambda>p. list_invoices_by_submitter (Address 3) p 1 s) [0..<2] = map Inr pss \<and>
     concat pss = [sample_invoice, sample_invoice\<lparr> inv_id := 8 \<rparr>]"
proof -
  let ?s = "sample_state\<lparr> invs := (invs sample_state)\<lparr> invoice_at := [7 \<mapsto> sample_invoice, 8 \<mapsto> sample_invoice\<lparr> inv_id := 8 \<rparr>] \<rparr>,
         idxs := (idxs sample_state)\<lparr> submitter_invoices := [Address 3 \<mapsto> [7, 8]] \<rparr> \<rparr>"
  have ids: "get_submitter_invoices (Address 3) ?s = [7, 8]" by (simp add: get_submitter_invoices_def)
  have inv: "the (invoice_at (invs ?s) 7) = sample_invoice" "the (invoice_at (invs ?s) 8) = sample_invoice\<lparr> inv_id := 8 \<rparr>"
    "invoice_at (invs ?s) 7 \<noteq> None" "invoice_at (invs ?s) 8 \<noteq> None"
    by simp_all
  have "\<exists>pss. map (\<lambda>p. list_invoices_by_submitter (Address 3) p 1 ?s) [0..<2] = map Inr pss \<and>
     concat pss = take (2 * min 1 50) (map (\<lambda>n. the (invoice_at (invs ?s) n)) (get_submitter_invoices (Address 3) ?s))"
    by (rule pages_partition_list) (use inv in \<open>simp_all add: get_submitter_invoices_def width_defs\<close>)
  then show ?thesis unfolding Let_def ids using inv by simp
qed

end
