(* ===== verification/Calls.thy ===== *)
theory Calls
  imports Solvency Views Admin
begin

text \<open>
  The interface of the contract: every entry point of \<open>impl InvoiceLiquidityContract\<close>
  (src/contracts/invoice_liquidity/src/lib.rs) that can write, as a value of a call type, and the
  dispatch of a call to its operation. A call either succeeds with a new state or is rolled back,
  which is \<open>None\<close>. The read-only entry points that write as a side effect (\<open>payer_score\<close>, the
  oracle checks, the price reads) are calls too.

  Shown here: which stores each group of calls leaves alone.
\<close>

section \<open>Calls\<close>

datatype (plugins del: code size transfer lifting) invoice_call =
    SubmitInvoice invoice_params
  | SubmitInvoicesBatch "invoice_params list"
  | UpdateInvoice address nat int nat nat
  | ConvertInvoiceToken address nat address
  | TransferInvoice nat address
  | TransferLpPosition nat address
  | CancelInvoice nat
  | ExpireInvoice nat
  | FundInvoice address nat int bool
  | MarkPaid nat int
  | ClaimDefault address nat
  | AppealDefault nat bytes32
  | ResolveAppeal nat bool
  | DisputeInvoice nat bytes32
  | ResolveDispute nat bytes32 nat
  | AutoResolveDispute nat

datatype (plugins del: code size transfer lifting) queue_call =
    JoinFundQueue address nat
  | ResolveFundQueue nat
  | RecoverFundQueue nat

datatype (plugins del: code size transfer lifting) admin_call =
    Initialize address address address address
  | SetAdmin address
  | UpdateFeeRate nat
  | UpdateMaxDiscount nat
  | UpdateDecayParams nat nat
  | SetDistributionContract address
  | SetPriceOracle address
  | SetMaxOracleAge nat
  | SetInsurancePool address
  | SetMinPayerReputation nat
  | SetMaxInvoiceAmount int
  | SetTokenVolumeCap address int
  | UpdateFeeTiers "(int \<times> nat) list"
  | UpdateConfig address nat nat nat nat nat nat address address address
  | AddToken address nat
  | RemoveTokenCall address
  | CorrectTokenDecimals address nat
  | ClaimPendingPayout address address
  | PauseCall
  | UnpauseCall
  | Upgrade bytes32
  | Migrate
  | RehearseRollback
  | PayerScore address
  | SuggestedDiscountRate address

datatype (plugins del: code size transfer lifting) oracle_call =
    RegisterOracle oracle_feed_type address
  | RemoveOracle oracle_feed_type
  | RegisterTokenOracle oracle_feed_type address address
  | RemoveTokenOracle oracle_feed_type address
  | CheckOracleHealth oracle_feed_type address address
  | CheckOracleVerification oracle_feed_type address address
  | ResetOracleCircuit oracle_feed_type address
  | AddPriceSource oracle_feed_type address
  | RemovePriceSource oracle_feed_type address
  | SetMaxPriceDeviation nat
  | AddIdentityOracle oracle_feed_type address
  | RemoveIdentityOracle oracle_feed_type address
  | SetIdentityQuorum nat
  | GetVerifiedPrice oracle_feed_type address
  | SetTwapEnabled oracle_feed_type bool
  | SetTwapWindow nat
  | RecordTwapSample oracle_feed_type address int
  | GetTwapPrice oracle_feed_type address

datatype (plugins del: code size transfer lifting) call =
    InvoiceCall invoice_call
  | QueueCall queue_call
  | AdminCall admin_call
  | OracleCall oracle_call
  | MultisigCall multisig_call

section \<open>Dispatch\<close>

definition committed :: "'f + 'a \<Rightarrow> 'a option" where
  "committed r = (case r of Inl _ \<Rightarrow> None | Inr s \<Rightarrow> Some s)"

definition state_of :: "'f + 'a \<times> 'b \<Rightarrow> 'b option" where
  "state_of r = map_option snd (committed r)"

fun invoice_exec :: "'w env \<Rightarrow> invoice_call \<Rightarrow> 'w state \<Rightarrow> 'w state option" where
  "invoice_exec e (SubmitInvoice p) s = state_of (submit_invoice e p s)"
| "invoice_exec e (SubmitInvoicesBatch ps) s = state_of (submit_invoices_batch e ps s)"
| "invoice_exec e (UpdateInvoice c n a due rate) s = committed (update_invoice e c n a due rate s)"
| "invoice_exec e (ConvertInvoiceToken c n t) s = committed (convert_invoice_token e c n t s)"
| "invoice_exec e (TransferInvoice n a) s = committed (transfer_invoice e n a s)"
| "invoice_exec e (TransferLpPosition n a) s = committed (transfer_lp_position e n a s)"
| "invoice_exec e (CancelInvoice n) s = committed (cancel_invoice e n s)"
| "invoice_exec e (ExpireInvoice n) s = committed (expire_invoice e n s)"
| "invoice_exec e (FundInvoice f n a b) s = committed (fund_invoice e f n a b s)"
| "invoice_exec e (MarkPaid n a) s = committed (mark_paid e n a s)"
| "invoice_exec e (ClaimDefault f n) s = committed (claim_default e f n s)"
| "invoice_exec e (AppealDefault n h) s = committed (appeal_default e n h s)"
| "invoice_exec e (ResolveAppeal n b) s = committed (resolve_appeal e n b s)"
| "invoice_exec e (DisputeInvoice n h) s = committed (dispute_invoice e n h s)"
| "invoice_exec e (ResolveDispute n h r) s = committed (resolve_dispute e n h r s)"
| "invoice_exec e (AutoResolveDispute n) s = committed (auto_resolve_dispute e n s)"

fun queue_exec :: "'w env \<Rightarrow> queue_call \<Rightarrow> 'w state \<Rightarrow> 'w state option" where
  "queue_exec e (JoinFundQueue a n) s = committed (join_fund_queue e a n s)"
| "queue_exec e (ResolveFundQueue n) s = state_of (resolve_fund_queue e n s)"
| "queue_exec e (RecoverFundQueue n) s = state_of (recover_fund_queue e n s)"

fun admin_exec :: "'w env \<Rightarrow> admin_call \<Rightarrow> 'w state \<Rightarrow> 'w state option" where
  "admin_exec e (Initialize adm usdc eurc xlm) s = committed (initialize e adm usdc eurc xlm s)"
| "admin_exec e (SetAdmin a) s = committed (set_admin e a s)"
| "admin_exec e (UpdateFeeRate r) s = committed (update_fee_rate e r s)"
| "admin_exec e (UpdateMaxDiscount r) s = committed (update_max_discount e r s)"
| "admin_exec e (UpdateDecayParams r p) s = committed (update_decay_params e r p s)"
| "admin_exec e (SetDistributionContract a) s = committed (set_distribution_contract e a s)"
| "admin_exec e (SetPriceOracle a) s = committed (set_price_oracle e a s)"
| "admin_exec e (SetMaxOracleAge n) s = committed (set_max_oracle_age e n s)"
| "admin_exec e (SetInsurancePool a) s = committed (set_insurance_pool e a s)"
| "admin_exec e (SetMinPayerReputation n) s = committed (set_min_payer_reputation e n s)"
| "admin_exec e (SetMaxInvoiceAmount x) s = committed (set_max_invoice_amount e x s)"
| "admin_exec e (SetTokenVolumeCap t x) s = committed (set_token_volume_cap e t x s)"
| "admin_exec e (UpdateFeeTiers ts) s = committed (update_fee_tiers e ts s)"
| "admin_exec e (UpdateConfig c hr bo mr dr dp dt xlm usdc eurc) s =
     committed (update_config e c hr bo mr dr dp dt xlm usdc eurc s)"
| "admin_exec e (AddToken t d) s = committed (add_token e t d s)"
| "admin_exec e (RemoveTokenCall t) s = committed (remove_token e t s)"
| "admin_exec e (CorrectTokenDecimals t d) s = committed (correct_token_decimals e t d s)"
| "admin_exec e (ClaimPendingPayout a t) s = state_of (claim_pending_payout e a t s)"
| "admin_exec e PauseCall s = committed (pause e s)"
| "admin_exec e UnpauseCall s = committed (unpause e s)"
| "admin_exec e (Upgrade h) s = committed (upgrade e h s)"
| "admin_exec e Migrate s = state_of (migrate e s)"
| "admin_exec e RehearseRollback s = state_of (rehearse_rollback e s)"
| "admin_exec e (PayerScore a) s = Some (snd (get_payer_score e a s))"
| "admin_exec e (SuggestedDiscountRate a) s = Some (snd (suggested_discount_rate e a s))"

fun oracle_exec :: "'w env \<Rightarrow> oracle_call \<Rightarrow> 'w state \<Rightarrow> 'w state option" where
  "oracle_exec e (RegisterOracle f a) s = committed (register_oracle e f a s)"
| "oracle_exec e (RemoveOracle f) s = committed (remove_oracle e f s)"
| "oracle_exec e (RegisterTokenOracle f t a) s = committed (register_token_oracle e f t a s)"
| "oracle_exec e (RemoveTokenOracle f t) s = committed (remove_token_oracle e f t s)"
| "oracle_exec e (CheckOracleHealth f t p) s = state_of (check_oracle_health e f t p s)"
| "oracle_exec e (CheckOracleVerification f t p) s = state_of (check_oracle_verification e f t p s)"
| "oracle_exec e (ResetOracleCircuit f t) s = committed (reset_oracle_circuit e f t s)"
| "oracle_exec e (AddPriceSource f a) s = committed (add_price_source e f a s)"
| "oracle_exec e (RemovePriceSource f a) s = committed (remove_price_source e f a s)"
| "oracle_exec e (SetMaxPriceDeviation n) s = committed (set_max_price_deviation_bps e n s)"
| "oracle_exec e (AddIdentityOracle f a) s = committed (add_identity_oracle e f a s)"
| "oracle_exec e (RemoveIdentityOracle f a) s = committed (remove_identity_oracle e f a s)"
| "oracle_exec e (SetIdentityQuorum n) s = committed (set_identity_quorum e n s)"
| "oracle_exec e (GetVerifiedPrice f t) s = state_of (get_verified_price e f t s)"
| "oracle_exec e (SetTwapEnabled f b) s = committed (set_twap_enabled e f b s)"
| "oracle_exec e (SetTwapWindow n) s = committed (set_twap_window_ledgers e n s)"
| "oracle_exec e (RecordTwapSample f t x) s = committed (record_twap_sample e f t x s)"
| "oracle_exec e (GetTwapPrice f t) s = state_of (get_twap_price e f t s)"

fun exec :: "'w env \<Rightarrow> call \<Rightarrow> 'w state \<Rightarrow> 'w state option" where
  "exec e (InvoiceCall c) s = invoice_exec e c s"
| "exec e (QueueCall c) s = queue_exec e c s"
| "exec e (AdminCall c) s = admin_exec e c s"
| "exec e (OracleCall c) s = oracle_exec e c s"
| "exec e (MultisigCall c) s = committed (multisig_exec e c s)"

section \<open>Frames of the other groups\<close>

text \<open>The stores the life of an invoice is recorded in.\<close>

definition books :: "'w state \<Rightarrow> invoice_store \<times> index_store \<times> reputation_store \<times> nft_store" where
  "books s = (invs s, idxs s, reps s, nfts s)"

lemma books_simps [simp]:
  "books (s\<lparr> inst := a \<rparr>) = books s" "books (s\<lparr> toks := b \<rparr>) = books s" "books (s\<lparr> stats := c \<rparr>) = books s"
  "books (s\<lparr> orcs := d \<rparr>) = books s" "books (s\<lparr> mss := f \<rparr>) = books s" "books (s\<lparr> alog := g \<rparr>) = books s"
  "books (s\<lparr> evs := h \<rparr>) = books s" "books (s\<lparr> wld := w \<rparr>) = books s" "books (s\<lparr> ques := q \<rparr>) = books s"
  "books (publish ev s) = books s" "books (put_orcs k s) = books s" "books (set_lock l s) = books s"
  "books (unlock_reentrancy s) = books s" "books (set_config cf s) = books s" "books (store_admin adm s) = books s"
  "books (set_paused e on s) = books s" "books (store_fee_rate r s) = books s"
  "books (store_max_discount_rate r s) = books s" "books (store_insurance_pool ip s) = books s"
  "books (store_min_payer_reputation r s) = books s" "books (store_max_invoice_amount x s) = books s"
  "books (store_token_volume_cap t x s) = books s" "books (delist_token t s) = books s"
  "books (put_proposal i p s) = books s" "books (save_fund_queue n fq s) = books s"
  "books (save_queue_resolution e n adm s) = books s" "books (clear_fund_queue_state n s) = books s"
  "books (reopen_fund_queue e n fq s) = books s" "books (try_set_fund_queue_opened_at e n s) = books s"
  by (simp_all add: save_fund_queue_def save_queue_resolution_def clear_fund_queue_state_def reopen_fund_queue_def
      try_set_fund_queue_opened_at_def store_max_invoice_amount_def store_token_volume_cap_def delist_token_def put_proposal_def store_fee_rate_def store_max_discount_rate_def store_insurance_pool_def
      store_min_payer_reputation_def books_def publish_def put_orcs_def store_defs set_paused_def Let_def set_config_def store_admin_def)

lemma books_iff: "books s' = books s \<longleftrightarrow> invs s' = invs s \<and> idxs s' = idxs s \<and> reps s' = reps s \<and> nfts s' = nfts s"
  by (auto simp: books_def)

lemma check_rate_limit_books: "check_rate_limit e fn c s = Inr s' \<Longrightarrow> books s' = books s"
  by (auto simp: check_rate_limit_def Let_def split: option.splits if_splits)

lemma record_admin_action_books: "record_admin_action e act s = Inr s' \<Longrightarrow> books s' = books s"
  by (auto simp: record_admin_action_def Let_def res_simps split: option.splits)

lemma admin_gate_books: "admin_gate e fn c s = Inr s' \<Longrightarrow> books s' = books s"
  by (auto simp: admin_gate_def res_simps dest!: check_rate_limit_books record_admin_action_books)

lemma registry_gate_books: "registry_gate e fn s = Inr s' \<Longrightarrow> books s' = books s"
  by (auto simp: registry_gate_def res_simps dest!: check_rate_limit_books record_admin_action_books)

lemmas gate_books = check_rate_limit_books record_admin_action_books admin_gate_books registry_gate_books

lemma committed_eq_Some: "committed r = Some s' \<longleftrightarrow> r = Inr s'"
  by (auto simp: committed_def split: sum.split)

lemma state_of_eq_Some: "state_of r = Some s' \<longleftrightarrow> (\<exists>a. r = Inr (a, s'))"
  by (auto simp: state_of_def committed_def split: sum.split)

lemma check_oracle_health_books: "check_oracle_health e f t p s = Inr (h, s') \<Longrightarrow> books s' = books s"
  using orcs_only_record [of s e f t _ _ "max_oracle_age s"]
  by (auto simp: check_oracle_health_def res_simps Let_def orcs_only_def books_iff split: option.splits)

lemma check_oracle_verification_books: "check_oracle_verification e f t p s = Inr (v, s') \<Longrightarrow> books s' = books s"
  using orcs_only_evaluate [of e f t p _ s] by (auto simp: check_oracle_verification_def orcs_only_def books_iff)

lemma reject_outliers_books: "reject_outliers f t m d ps s = Inr (xs, s') \<Longrightarrow> books s' = books s"
  by (induction f t m d ps s arbitrary: xs rule: reject_outliers.induct) (auto simp: res_simps split: if_splits)

lemma get_twap_price_books: "get_twap_price e f t s = Inr (r, s') \<Longrightarrow> books s' = books s"
  by (auto simp: get_twap_price_def res_simps Let_def split: sum.splits if_splits)

lemma get_spot_price_books: "get_spot_price e f t s = Inr (x, s') \<Longrightarrow> books s' = books s"
  by (auto simp: get_spot_price_def aggregate_prices_def res_simps Let_def dest: reject_outliers_books split: if_splits)

lemma get_verified_price_books: "get_verified_price e f t s = Inr (x, s') \<Longrightarrow> books s' = books s"
  by (auto simp: get_verified_price_def res_simps dest!: get_spot_price_books get_twap_price_books
      split: if_splits option.splits)

lemmas oracle_books = check_oracle_health_books check_oracle_verification_books get_verified_price_books
  get_twap_price_books

lemma oracle_exec_books: "oracle_exec e c s = Some s' \<Longrightarrow> books s' = books s"
  by (cases c)
    (auto simp: committed_eq_Some state_of_eq_Some register_oracle_def remove_oracle_def register_token_oracle_def
      remove_token_oracle_def reset_oracle_circuit_def add_price_source_def remove_price_source_def
      set_max_price_deviation_bps_def add_identity_oracle_def remove_identity_oracle_def set_identity_quorum_def
      set_twap_enabled_def set_twap_window_ledgers_def record_twap_sample_def res_simps Let_def
      dest!: gate_books oracle_books split: if_splits)

lemma token_transfer_books: "token_transfer e t from to a s = Inr s' \<Longrightarrow> books s' = books s"
  by (auto simp: token_transfer_eq_Inr)

lemma probe_token_books: "probe_token e t adm s = Inr s' \<Longrightarrow> books s' = books s"
  by (auto simp: probe_token_def res_simps Let_def dest!: token_transfer_books split: if_splits)

lemma claim_pending_books: "claim_pending e a t s = Inr (x, s') \<Longrightarrow> books s' = books s"
  by (auto simp: claim_pending_def res_simps Let_def set_pending_def dest!: token_transfer_books split: if_splits)

lemmas admin_books = gate_books token_transfer_books probe_token_books claim_pending_books

lemma update_config_books: "update_config e cl hr bo mr dr dp dt xlm usdc eurc s = Inr s' \<Longrightarrow> books s' = books s"
  by (auto simp: update_config_def res_simps Let_def ok_or_def split: if_splits option.splits)

lemma admin_exec_books:
  assumes "admin_exec e c s = Some s'" and "\<nexists>adm usdc eurc xlm. c = Initialize adm usdc eurc xlm" and "\<nexists>a. c = PayerScore a"
    and "\<nexists>a. c = SuggestedDiscountRate a"
  shows "books s' = books s"
  using assms
  by (cases c)
    (auto simp: committed_eq_Some state_of_eq_Some set_admin_def update_fee_rate_def update_max_discount_def
      update_decay_params_def set_distribution_contract_def set_price_oracle_def set_max_oracle_age_def
      set_insurance_pool_def set_min_payer_reputation_def set_max_invoice_amount_def set_token_volume_cap_def
      update_fee_tiers_def add_token_def remove_token_def list_token_def correct_token_decimals_def
      claim_pending_payout_def pause_def unpause_def upgrade_def migrate_def rehearse_rollback_def
      update_config_of_def lock_reentrancy_eq_Inr res_simps Let_def
      dest!: admin_books update_config_books split: if_splits option.splits)

lemma join_fund_queue_books: "join_fund_queue e a n s = Inr s' \<Longrightarrow> books s' = books s"
  by (auto simp: join_fund_queue_def make_room_def res_simps Let_def split: if_splits)

lemma resolve_fund_queue_books: "resolve_fund_queue e n s = Inr (a, s') \<Longrightarrow> books s' = books s"
  by (auto simp: resolve_fund_queue_def lock_winner_def res_simps Let_def split: if_splits option.splits)

lemma recover_fund_queue_books: "recover_fund_queue e n s = Inr (a, s') \<Longrightarrow> books s' = books s"
  by (auto simp: recover_fund_queue_def res_simps Let_def split: if_splits)

lemma queue_exec_books: "queue_exec e c s = Some s' \<Longrightarrow> books s' = books s"
  by (cases c) (auto simp: committed_eq_Some state_of_eq_Some
      dest: join_fund_queue_books resolve_fund_queue_books recover_fund_queue_books)

lemma multisig_exec_books: "multisig_exec e c s = Inr s' \<Longrightarrow> books s' = books s"
proof (cases c)
  fix a i
  assume c: "c = ExecuteProposal a i" and "multisig_exec e c s = Inr s'"
  then obtain act s1 where s1: "execute e a i s = Inr (act, s1)" "apply_admin_action e a act s1 = Inr s'"
    by (auto simp: execute_proposal_def res_simps)
  have "books s1 = books s" using s1(1) by (auto simp: execute_def res_simps Let_def split: if_splits)
  moreover have "books s' = books s1" using s1(2)
    by (cases act) (auto simp: schedule_rotation_def res_simps Let_def split: if_splits)
  ultimately show ?thesis by simp
qed (auto simp: multisig_initialize_def propose_def sign_def finalize_signer_rotation_def cancel_signer_rotation_def
      finalize_rotation_def cancel_rotation_def res_simps Let_def split: if_splits)

end
