(* ===== verification/Lifecycle.thy ===== *)
theory Lifecycle
  imports Calls
begin

text \<open>
  The life of an invoice as a state machine of its own, and the proof that every entry point of the
  contract refines it: a successful call leaves the life of an invoice as it is or makes one step of
  the machine. What the machine keeps (no over-funding, no over-payment, terminal states, at most
  one dispute and one appeal, a bound on the number of status changes, values within the machine
  types of the code) therefore holds in every state the contract can reach.
\<close>

section \<open>The abstract machine\<close>

record life =
  l_status :: invoice_status
  l_amount :: int
  l_rate :: nat
  l_due :: nat
  l_funded :: int
  l_paid :: int
  l_disputed :: bool
  l_appealed :: bool

definition status_by_funding :: "life \<Rightarrow> invoice_status" where
  "status_by_funding l =
     (if l_funded l = l_amount l then Funded else if l_funded l > 0 then PartiallyFunded else Pending)"

inductive life_step :: "life option \<Rightarrow> life option \<Rightarrow> bool" where
  submitted: "0 < a \<Longrightarrow> a \<le> i128_max \<Longrightarrow> r \<le> u32_max \<Longrightarrow> d \<le> u32_max \<Longrightarrow>
    life_step None (Some \<lparr> l_status = Pending, l_amount = a, l_rate = r, l_due = d, l_funded = 0, l_paid = 0,
      l_disputed = False, l_appealed = False \<rparr>)"
| amended: "l_status l = Pending \<Longrightarrow> 0 < a \<Longrightarrow> a \<le> i128_max \<Longrightarrow> r \<le> u32_max \<Longrightarrow> d \<le> u32_max \<Longrightarrow>
    life_step (Some l) (Some (l\<lparr> l_amount := a, l_rate := r, l_due := d \<rparr>))"
| funded: "l_status l = Pending \<or> l_status l = PartiallyFunded \<Longrightarrow> i128_min \<le> l_funded l + x \<Longrightarrow>
    l_funded l + x \<le> l_amount l \<Longrightarrow>
    life_step (Some l) (Some (l\<lparr> l_funded := l_funded l + x,
      l_status := if l_funded l + x = l_amount l then Funded else PartiallyFunded \<rparr>))"
| paid: "l_status l = Funded \<Longrightarrow> 0 < x \<Longrightarrow> l_paid l + x \<le> l_amount l \<Longrightarrow>
    life_step (Some l) (Some (l\<lparr> l_paid := l_paid l + x,
      l_status := if l_paid l + x < l_amount l then Funded else Paid \<rparr>))"
| defaulted: "l_status l = Funded \<Longrightarrow> life_step (Some l) (Some (l\<lparr> l_status := Defaulted \<rparr>))"
| appealed: "l_status l = Defaulted \<Longrightarrow> \<not> l_appealed l \<Longrightarrow>
    life_step (Some l) (Some (l\<lparr> l_status := Appealed, l_appealed := True \<rparr>))"
| ruled: "l_status l = Appealed \<Longrightarrow> life_step (Some l) (Some (l\<lparr> l_status := Defaulted \<rparr>))"
| disputed: "l_status l = Pending \<or> l_status l = PartiallyFunded \<or> l_status l = Funded \<Longrightarrow> \<not> l_disputed l \<Longrightarrow>
    life_step (Some l) (Some (l\<lparr> l_status := Disputed, l_disputed := True \<rparr>))"
| upheld: "l_status l = Disputed \<Longrightarrow> life_step (Some l) (Some (l\<lparr> l_status := Cancelled \<rparr>))"
| dismissed: "l_status l = Disputed \<Longrightarrow> life_step (Some l) (Some (l\<lparr> l_status := status_by_funding l \<rparr>))"
| cancelled: "l_status l = Pending \<or> l_status l = PartiallyFunded \<Longrightarrow>
    life_step (Some l) (Some (l\<lparr> l_status := Cancelled \<rparr>))"
| expired: "l_status l = Pending \<Longrightarrow> life_step (Some l) (Some (l\<lparr> l_status := Expired \<rparr>))"

inductive_cases life_step_SomeE: "life_step (Some l) m"
inductive_cases life_step_NoneE: "life_step None m"

definition life_ok :: "life \<Rightarrow> bool" where
  "life_ok l \<longleftrightarrow>
     0 < l_amount l \<and> l_amount l \<le> i128_max \<and> l_rate l \<le> u32_max \<and> l_due l \<le> u32_max \<and>
     0 \<le> l_paid l \<and> l_paid l \<le> l_amount l \<and> (l_paid l = l_amount l \<longleftrightarrow> l_status l = Paid) \<and>
     i128_min \<le> l_funded l \<and> l_funded l \<le> l_amount l \<and> (0 < l_paid l \<longrightarrow> l_funded l = l_amount l) \<and>
     (l_status l \<in> {Funded, Paid, Defaulted, Appealed} \<longrightarrow> l_funded l = l_amount l) \<and>
     (l_status l = PartiallyFunded \<longrightarrow> l_funded l < l_amount l) \<and> (l_status l = Pending \<longrightarrow> l_funded l \<le> 0) \<and>
     (l_status l = Disputed \<longrightarrow> l_disputed l) \<and> (l_status l = Appealed \<longrightarrow> l_appealed l)"

text \<open>An upper bound on the status changes a life has left.\<close>

definition status_rank :: "life \<Rightarrow> nat" where
  "status_rank l =
     (case l_status l of
        Pending \<Rightarrow> if l_disputed l then 5 else 9
      | PartiallyFunded \<Rightarrow> if l_disputed l then 4 else 8
      | Funded \<Rightarrow> if l_disputed l then 3 else 7
      | Disputed \<Rightarrow> 6
      | Defaulted \<Rightarrow> if l_appealed l then 0 else 2
      | Appealed \<Rightarrow> 1
      | _ \<Rightarrow> 0)"

section \<open>Abstraction\<close>

definition life_of :: "'w state \<Rightarrow> nat \<Rightarrow> invoice \<Rightarrow> life" where
  "life_of s n i =
     \<lparr> l_status = status i, l_amount = amount i, l_rate = discount_rate i, l_due = due_date i,
       l_funded = amount_funded i, l_paid = amount_paid i,
       l_disputed = (dispute (invs s) n \<noteq> None), l_appealed = (appeal (invs s) n \<noteq> None) \<rparr>"

definition lives :: "'w state \<Rightarrow> nat \<Rightarrow> life option" where
  "lives s n = map_option (life_of s n) (invoice_at (invs s) n)"

text \<open>Every record sits under its own id, below the next id, and its life is a possible one.\<close>

definition invoices_ok :: "'w state \<Rightarrow> bool" where
  "invoices_ok s \<longleftrightarrow> no_split s \<and>
     (\<forall>n i. invoice_at (invs s) n = Some i \<longrightarrow>
        inv_id i = n \<and> n < read_next_invoice_id s \<and> life_ok (life_of s n i)) \<and>
     (\<forall>n. read_next_invoice_id s \<le> n \<longrightarrow> dispute (invs s) n = None \<and> appeal (invs s) n = None)"

text \<open>No record in a final status is written.\<close>

abbreviation final_status :: "invoice_status \<Rightarrow> bool" where
  "final_status st \<equiv> st \<in> {Paid, Cancelled, Expired}"

definition keeps_final :: "'w state \<Rightarrow> 'w state \<Rightarrow> bool" where
  "keeps_final s s' \<longleftrightarrow> (\<forall>n i. invoice_at (invs s) n = Some i \<longrightarrow> final_status (status i) \<longrightarrow>
     invoice_at (invs s') n = Some i)"

definition refines :: "'w state \<Rightarrow> 'w state \<Rightarrow> bool" where
  "refines s s' \<longleftrightarrow> invoices_ok s' \<and> (\<forall>n. lives s' n = lives s n \<or> life_step (lives s n) (lives s' n)) \<and>
     keeps_final s s'"

text \<open>The values the machine types of the arguments allow.\<close>

definition typed_params :: "invoice_params \<Rightarrow> bool" where
  "typed_params p \<longleftrightarrow> p_amount p \<le> i128_max \<and> p_discount_rate p \<le> u32_max"

fun typed_call :: "call \<Rightarrow> bool" where
  "typed_call (InvoiceCall (SubmitInvoice p)) = typed_params p"
| "typed_call (InvoiceCall (SubmitInvoicesBatch ps)) = list_all typed_params ps"
| "typed_call (InvoiceCall (UpdateInvoice c n a due rate)) = (a \<le> i128_max \<and> rate \<le> u32_max)"
| "typed_call c = True"

section \<open>Runs\<close>

text \<open>
  A step of the ledger: a successful call of the contract, by anybody and at any time, or anything
  that happens in the other contracts. Failed calls are rolled back and leave the state as it is.
\<close>

inductive contract_step :: "'w state \<Rightarrow> 'w state \<Rightarrow> bool" where
  transact: "typed_call c \<Longrightarrow> exec e c s = Some s' \<Longrightarrow> contract_step s s'"
| elsewhere: "contract_step s (s\<lparr> wld := w \<rparr>)"

inductive_cases contract_stepE: "contract_step s s'"

text \<open>The number of times the status of an invoice changes along a sequence of states.\<close>

fun status_changes :: "nat \<Rightarrow> 'w state list \<Rightarrow> nat" where
  "status_changes n (s # s' # ss) =
     (if lives s n \<noteq> None \<and> map_option l_status (lives s' n) \<noteq> map_option l_status (lives s n) then 1 else 0) +
     status_changes n (s' # ss)"
| "status_changes n ss = 0"

fun is_run :: "'w state list \<Rightarrow> bool" where
  "is_run (s # s' # ss) \<longleftrightarrow> contract_step s s' \<and> is_run (s' # ss)"
| "is_run ss \<longleftrightarrow> True"

section \<open>Facts about the machine\<close>

lemma life_step_Some: "life_step m m' \<Longrightarrow> \<exists>l'. m' = Some l'"
  by (induction rule: life_step.induct) simp_all

lemma terminal_step:
  "life_step (Some l) m' \<Longrightarrow> \<not> final_status (l_status l)"
  by (elim life_step_SomeE) auto

lemma life_ok_unpaid:
  assumes "life_ok l" "l_status l = Pending \<or> l_status l = PartiallyFunded"
  shows "l_paid l = 0"
  using assms(2)
proof
  show "l_status l = Pending \<Longrightarrow> l_paid l = 0" using assms(1) unfolding life_ok_def by linarith
  show "l_status l = PartiallyFunded \<Longrightarrow> l_paid l = 0" using assms(1) unfolding life_ok_def by linarith
qed

lemma life_step_ok:
  assumes "life_step m (Some l')" "\<And>l. m = Some l \<Longrightarrow> life_ok l"
  shows "life_ok l'"
proof (cases m)
  case None
  then show ?thesis using assms(1) by (auto elim!: life_step_NoneE simp: life_ok_def width_defs)
next
  case (Some l)
  have ok: "life_ok l" and st: "life_step (Some l) (Some l')" using assms Some by auto
  from st show ?thesis
  proof (cases rule: life_step.cases)
    case (amended a r d)
    moreover from this have "l_paid l = 0" "l_funded l \<le> 0"
      using life_ok_unpaid [OF ok] ok by (simp, simp add: life_ok_def)
    ultimately show ?thesis using ok by (simp add: life_ok_def)
  next
    case (funded x)
    moreover from this have "l_paid l = 0" using life_ok_unpaid [OF ok] by simp
    ultimately show ?thesis using ok by (elim disjE) (simp_all add: life_ok_def)
  next
    case (paid x)
    then show ?thesis using ok by (simp add: life_ok_def)
  next
    case dismissed
    then show ?thesis using ok by (simp add: life_ok_def status_by_funding_def)
  next
    case disputed
    then show ?thesis using ok by (elim disjE) (simp_all add: life_ok_def)
  next
    case cancelled
    then show ?thesis using ok by (elim disjE) (simp_all add: life_ok_def)
  qed (use ok in \<open>simp_all add: life_ok_def\<close>)
qed

lemma life_step_rank:
  assumes "life_step (Some l) (Some l')" "l_status l' \<noteq> l_status l" "life_ok l"
  shows "status_rank l' < status_rank l"
proof -
  have "l_status l = Disputed \<Longrightarrow> l_disputed l" "l_status l = Appealed \<Longrightarrow> l_appealed l"
    using assms(3) by (simp_all add: life_ok_def)
  with assms(1,2) show ?thesis
    by (elim life_step_SomeE; (elim disjE)?; simp add: status_rank_def status_by_funding_def split: if_splits)
qed

lemma life_step_rank_le:
  assumes "life_step (Some l) (Some l')" "l_status l' = l_status l"
  shows "status_rank l' \<le> status_rank l"
  using assms by (elim life_step_SomeE; (elim disjE)?; simp add: status_rank_def split: if_splits)

section \<open>Every entry point refines the machine\<close>

lemma invoices_okD:
  assumes "invoices_ok s" "invoice_at (invs s) n = Some i"
  shows "inv_id i = n" "n < read_next_invoice_id s" "life_ok (life_of s n i)" "lives s n = Some (life_of s n i)"
  using assms by (auto simp: invoices_ok_def lives_def)

lemma try_load_ok: "invoices_ok s \<Longrightarrow> try_load_invoice n s = invoice_at (invs s) n"
  by (simp add: invoices_ok_def try_load_no_split)

lemma life_of_sel [simp]:
  "l_status (life_of s n i) = status i" "l_amount (life_of s n i) = amount i" "l_funded (life_of s n i) = amount_funded i"
  "l_paid (life_of s n i) = amount_paid i" "l_rate (life_of s n i) = discount_rate i" "l_due (life_of s n i) = due_date i"
  "l_disputed (life_of s n i) \<longleftrightarrow> dispute (invs s) n \<noteq> None" "l_appealed (life_of s n i) \<longleftrightarrow> appeal (invs s) n \<noteq> None"
  by (simp_all add: life_of_def)

lemma life_of_cong: "invs s' = invs s \<Longrightarrow> life_of s' = life_of s"
  by (simp add: life_of_def fun_eq_iff)

lemma refines_books:
  assumes "books s' = books s" "invoices_ok s"
  shows "refines s s'"
proof -
  have "invs s' = invs s" using assms(1) by (simp add: books_iff)
  then show ?thesis using assms(2)
    using life_of_cong [of s' s]
    by (simp add: refines_def invoices_ok_def lives_def no_split_def read_next_invoice_id_def keeps_final_def)
qed

lemma refines_one:
  assumes "invoices_ok s" "invoice_at (invs s) n = Some i" "inv_id i' = n"
    and "invoice_at (invs s') = (invoice_at (invs s))(n \<mapsto> i')" "invoice_core_at (invs s') = invoice_core_at (invs s)"
    and "next_id (invs s') = next_id (invs s)"
    and "\<And>m. m \<noteq> n \<Longrightarrow> dispute (invs s') m = dispute (invs s) m \<and> appeal (invs s') m = appeal (invs s) m"
    and "life_of s' n i' = life_of s n i \<and> \<not> final_status (status i) \<or> life_step (Some (life_of s n i)) (Some (life_of s' n i'))"
  shows "refines s s'"
proof -
  note i = invoices_okD [OF assms(1,2)]
  have same: "life_of s' m = life_of s m" if "m \<noteq> n" for m
    using assms(7) [OF that] by (simp add: life_of_def fun_eq_iff)
  have nx: "read_next_invoice_id s' = read_next_invoice_id s" using assms(6) by (simp add: read_next_invoice_id_def)
  have "life_ok (life_of s' n i')" using assms(8) i(3) life_step_ok by (metis option.inject)
  then have "invoices_ok s'" using assms(1,3-7) i(2) same nx
    by (auto simp: invoices_ok_def no_split_def)
  moreover have "lives s' m = lives s m \<or> life_step (lives s m) (lives s' m)" for m
    using assms(2,4,8) same by (cases "m = n") (auto simp: lives_def)
  moreover have "\<not> final_status (status i)" using assms(8) terminal_step by fastforce
  then have "keeps_final s s'" using assms(2,4) by (auto simp: keeps_final_def)
  ultimately show ?thesis by (simp add: refines_def)
qed

lemma update_invoice_refines:
  assumes "update_invoice e c n a due rate s = Inr s'" "invoices_ok s" "a \<le> i128_max" "rate \<le> u32_max"
  shows "refines s s'"
  using assms(1)
proof (rule update_invoice_eq_Inr)
  fix i :: invoice
  let ?i = "i\<lparr> amount := a, due_date := due, discount_rate := rate \<rparr>"
  assume i: "invoice_at (invs s) n = Some i" "status i = Pending" "0 < a" "due \<le> u32_max"
    and s': "s' = publish (updated_event ?i) (save_invoice ?i s)"
  have "life_step (Some (life_of s n i)) (Some ((life_of s n i)\<lparr> l_amount := a, l_rate := rate, l_due := due \<rparr>))"
    using i assms(3,4) by (intro amended) (simp_all add: life_of_def)
  then show ?thesis
    by (intro refines_one [OF assms(2) i(1), of ?i]) (use invoices_okD(1) [OF assms(2) i(1)] in
        \<open>simp_all add: s' publish_def save_invoice_def life_of_def\<close>)
qed

text \<open>Only the status changes, and the record keeps its place.\<close>

lemma refines_status:
  assumes "invoices_ok s" "invoice_at (invs s) n = Some i"
    and "invs s' = (invs s)\<lparr> invoice_at := (invoice_at (invs s))(inv_id i \<mapsto> i\<lparr> status := st \<rparr>),
      pre_default_payer_score := p, invoice_funders := f \<rparr>"
    and "life_step (Some (life_of s n i)) (Some ((life_of s n i)\<lparr> l_status := st \<rparr>))"
  shows "refines s s'"
  by (rule refines_one [OF assms(1,2), of "i\<lparr> status := st \<rparr>"])
    (use assms(3,4) invoices_okD(1) [OF assms(1,2)] in \<open>simp_all add: life_of_def\<close>)

lemma save_status_invs:
  "invs s' = invs (save_invoice (i\<lparr> status := st \<rparr>) s) \<Longrightarrow>
   invs s' = (invs s)\<lparr> invoice_at := (invoice_at (invs s))(inv_id i \<mapsto> i\<lparr> status := st \<rparr>),
     pre_default_payer_score := pre_default_payer_score (invs s), invoice_funders := invoice_funders (invs s) \<rparr>"
  by (simp add: save_invoice_def)

text \<open>The life of the invoice is untouched: its token, submitter or funder changes.\<close>

lemma refines_same_life:
  assumes "invoices_ok s" "invoice_at (invs s) n = Some i"
    and "invoice_at (invs s') = (invoice_at (invs s))(n \<mapsto> i')" "invoice_core_at (invs s') = invoice_core_at (invs s)"
    and "next_id (invs s') = next_id (invs s)" "dispute (invs s') = dispute (invs s)" "appeal (invs s') = appeal (invs s)"
    and "inv_id i' = inv_id i" "status i' = status i" "amount i' = amount i" "discount_rate i' = discount_rate i"
    and "due_date i' = due_date i" "amount_funded i' = amount_funded i" "amount_paid i' = amount_paid i"
    and "\<not> final_status (status i)"
  shows "refines s s'"
  by (rule refines_one [OF assms(1,2), of i'])
    (use assms(3-15) invoices_okD(1) [OF assms(1,2)] in \<open>simp_all add: life_of_def\<close>)

lemma index_invs [simp]:
  "invs (add_invoice_to_submitter a n s) = invs s" "invs (remove_invoice_from_submitter a n s) = invs s"
  "invs (add_invoice_to_lp a n s) = invs s" "invs (remove_invoice_from_lp a n s) = invs s"
  by (simp_all add: store_defs Let_def)

lemma convert_invoice_token_refines:
  assumes "convert_invoice_token e c n t s = Inr s'" "invoices_ok s"
  shows "refines s s'"
  using assms(1)
proof (rule convert_invoice_token_eq_Inr)
  fix i :: invoice
  assume i: "invoice_at (invs s) n = Some i" and st: "status i = Pending"
    and s': "s' = publish (EvInvoiceTokenChanged n (token i) t) (save_invoice (i\<lparr> token := t \<rparr>) s)"
  show ?thesis by (rule refines_same_life [OF assms(2) i, of _ "i\<lparr> token := t \<rparr>"])
      (use invoices_okD(1) [OF assms(2) i] st in \<open>simp_all add: s' publish_def save_invoice_def\<close>)
qed

lemma transfer_invoice_refines:
  assumes "transfer_invoice e n f s = Inr s'" "invoices_ok s"
  shows "refines s s'"
  using assms(1)
proof (rule transfer_invoice_eq_Inr)
  fix i :: invoice
  assume i: "invoice_at (invs s) n = Some i" and st: "status i = Pending"
    and s': "s' = publish (EvInvoiceTransferred n (freelancer i) f Pending) (add_invoice_to_submitter f n
            (remove_invoice_from_submitter (freelancer i) n (save_invoice (i\<lparr> freelancer := f \<rparr>) s)))"
  show ?thesis by (rule refines_same_life [OF assms(2) i, of _ "i\<lparr> freelancer := f \<rparr>"])
      (use invoices_okD(1) [OF assms(2) i] st in \<open>simp_all add: s' publish_def save_invoice_def\<close>)
qed

lemma transfer_lp_position_refines:
  assumes "transfer_lp_position e n new_lp s = Inr s'" "invoices_ok s"
  shows "refines s s'"
  using assms(1)
proof (rule transfer_lp_position_eq_Inr)
  fix i :: invoice and lp s1
  let ?s = "save_invoice (i\<lparr> funder := Some new_lp \<rparr>) (save_invoice_funders n
       (map (\<lambda>(a, amt). if a = lp then (new_lp, amt) else (a, amt)) (get_invoice_funders n s)) s)"
  assume i: "invoice_at (invs s) n = Some i" and st: "status i = Funded" and s1: "sync_nft_state e n ?s = Inr s1"
    and s': "s' = publish (EvLPPositionTransferred n lp new_lp (status i))
            (add_invoice_to_lp new_lp n (remove_invoice_from_lp lp n s1))"
  have "invs s' = invs ?s" using sync_nft_state_fields(2) [OF s1]
    by (simp add: s' publish_def)
  then show ?thesis by (intro refines_same_life [OF assms(2) i, of _ "i\<lparr> funder := Some new_lp \<rparr>"])
      (use invoices_okD(1) [OF assms(2) i] st in \<open>simp_all add: save_invoice_def save_invoice_funders_def\<close>)
qed

lemma expire_invoice_refines:
  assumes "expire_invoice e n s = Inr s'" "invoices_ok s"
  shows "refines s s'"
  using assms(1)
proof (rule expire_invoice_eq_Inr)
  fix i :: invoice
  assume i: "invoice_at (invs s) n = Some i" "status i = Pending"
    and s': "s' = publish (EvInvoiceExpired (inv_id i) (freelancer i) Expired) (save_invoice (i\<lparr> status := Expired \<rparr>) s)"
  show ?thesis
  proof (rule refines_status [OF assms(2) i(1) save_status_invs])
    show "invs s' = invs (save_invoice (i\<lparr> status := Expired \<rparr>) s)" by (simp add: s' publish_def)
    show "life_step (Some (life_of s n i)) (Some ((life_of s n i)\<lparr> l_status := Expired \<rparr>))"
      using i(2) by (intro expired) simp
  qed
qed

lemma cancel_invoice_refines:
  assumes "cancel_invoice e n s = Inr s'" "invoices_ok s"
  shows "refines s s'"
  using assms(1)
proof (rule cancel_invoice_eq_Inr)
  fix i :: invoice and s1
  assume i: "invoice_at (invs s) n = Some i"
    and s1: "status i = Pending \<and> s1 = set_lock True s \<or> status i = PartiallyFunded \<and>
       refund_funders e n i (get_invoice_funders n s) (save_invoice (Invoices.cancelled i) (set_lock True s)) = Inr s1"
    and s': "s' = unlock_reentrancy (publish (EvInvoiceCancelled n (freelancer i) Cancelled) (save_invoice (Invoices.cancelled i) s1))"
  show ?thesis
  proof (rule refines_status [OF assms(2) i save_status_invs])
    have "invs s1 = invs s \<or> invs s1 = invs (save_invoice (Invoices.cancelled i) s)"
      using s1 refund_funders_frame [of e n i "get_invoice_funders n s" "save_invoice (Invoices.cancelled i) (set_lock True s)" s1]
      by (auto simp: set_lock_def save_invoice_def)
    then show "invs s' = invs (save_invoice (i\<lparr> status := Cancelled \<rparr>) s)"
      by (auto simp: s' publish_def save_invoice_def unlock_reentrancy_def set_lock_def Invoices.cancelled_def)
    show "life_step (Some (life_of s n i)) (Some ((life_of s n i)\<lparr> l_status := Cancelled \<rparr>))"
      using s1 by (intro cancelled) auto
  qed
qed

lemma fund_invoice_refines:
  assumes "fund_invoice e fdr n a b s = Inr s'" "invoices_ok s"
  shows "refines s s'"
proof -
  obtain i where i: "invoice_at (invs s) n = Some i" and lo: "in_i128 (amount_funded i + a)"
    using assms(1) by (rule fund_invoice_eq_Inr) (use try_load_ok [OF assms(2)] in auto)
  have "no_split s" using assms(2) by (simp add: invoices_ok_def)
  note r = fund_invoice_record [OF assms(1) this i invoices_okD(1) [OF assms(2) i]]
  obtain i' where i': "invoice_at (invs s') n = Some i'" "i' = i\<lparr> amount_funded := amount_funded i + a,
       status := if amount_funded i + a = amount i then Funded else PartiallyFunded,
       funded_at := funded_at i', funder := funder i' \<rparr>" using r(5) by blast
  have f: "inv_id i' = n" by (subst i'(2)) (simp add: invoices_okD(1) [OF assms(2) i])
  have l: "life_of s' n i' = (life_of s n i)\<lparr> l_funded := l_funded (life_of s n i) + a,
      l_status := if l_funded (life_of s n i) + a = l_amount (life_of s n i) then Funded else PartiallyFunded \<rparr>"
    by (subst i'(2)) (simp add: life_of_def r(7,8))
  have at: "invoice_at (invs s') = (invoice_at (invs s))(n \<mapsto> i')" using i'(1) r(6) by auto
  have core: "invoice_core_at (invs s') = invoice_core_at (invs s)" using r(1) assms(2) by (simp add: no_split_def invoices_ok_def)
  have "life_step (Some (life_of s n i)) (Some (life_of s' n i'))"
    unfolding l by (rule funded) (use r(3,4) lo in \<open>auto simp: in_i128_def\<close>)
  then show ?thesis by (intro refines_one [OF assms(2) i f at core r(9)]) (simp_all add: r(7,8))
qed

lemma mark_paid_refines:
  assumes "mark_paid e n a s = Inr s'" "invoices_ok s"
  shows "refines s s'"
  using assms(1)
proof (rule mark_paid_eq_Inr)
  fix i i0 s1
  assume "try_load_invoice n s = Some i" and a: "0 < a" "status i = Funded" "a \<le> saturating_sub (amount i) (amount_paid i)"
    and s1: "take_payment e n a i (get_invoice_funders n s) (set_lock True s) = Inr s1" and s': "s' = unlock_reentrancy s1"
  then have i: "invoice_at (invs s) n = Some i" using try_load_ok [OF assms(2)] by simp
  note ok = invoices_okD [OF assms(2) i]
  let ?i = "i\<lparr> amount_paid := amount_paid i + a, status := if amount_paid i + a < amount i then status i else Paid \<rparr>"
  have le: "amount_paid i + a \<le> amount i"
    using a(1,3) ok(3) by (auto simp: saturating_sub_def clamp_i128_def life_ok_def width_defs split: if_splits)
  have inv: "invs s' = invs (save_invoice ?i s)"
    using take_payment_frame(4) [OF s1] by (simp add: s' unlock_reentrancy_def set_lock_def save_invoice_def)
  have "life_step (Some (life_of s n i)) (Some ((life_of s n i)\<lparr> l_paid := l_paid (life_of s n i) + a,
      l_status := if l_paid (life_of s n i) + a < l_amount (life_of s n i) then Funded else Paid \<rparr>))"
    by (rule paid) (use a le in simp_all)
  then have "life_step (Some (life_of s n i)) (Some (life_of s' n ?i))"
    using a(2) by (simp add: life_of_def inv save_invoice_def split: if_splits)
  then show ?thesis
    by (intro refines_one [OF assms(2) i, of ?i]) (use ok(1) in \<open>simp_all add: inv save_invoice_def\<close>)
qed

lemma claim_default_refines:
  assumes "claim_default e f n s = Inr s'" "invoices_ok s"
  shows "refines s s'"
  using assms(1)
proof (rule claim_default_frame)
  fix i sc
  assume i: "invoice_at (invs s) n = Some i" "status i = Funded"
    and inv: "invs s' = (invs s)\<lparr> invoice_at := (invoice_at (invs s))(inv_id i \<mapsto> i\<lparr> status := Defaulted \<rparr>),
       pre_default_payer_score := (pre_default_payer_score (invs s))(n \<mapsto> sc) \<rparr>"
  show ?thesis
  proof (rule refines_status [OF assms(2) i(1)])
    show "invs s' = (invs s)\<lparr> invoice_at := (invoice_at (invs s))(inv_id i \<mapsto> i\<lparr> status := Defaulted \<rparr>),
       pre_default_payer_score := (pre_default_payer_score (invs s))(n \<mapsto> sc), invoice_funders := invoice_funders (invs s) \<rparr>"
      by (simp add: inv)
    show "life_step (Some (life_of s n i)) (Some ((life_of s n i)\<lparr> l_status := Defaulted \<rparr>))"
      using i(2) by (intro defaulted) simp
  qed
qed

lemma appeal_default_refines:
  assumes "appeal_default e n h s = Inr s'" "invoices_ok s"
  shows "refines s s'"
  using assms(1)
proof (rule appeal_default_eq_Inr)
  fix i sc
  assume i: "invoice_at (invs s) n = Some i" "status i = Defaulted" "appeal (invs s) n = None"
    and inv: "invs s' = (invs s)\<lparr> invoice_at := (invoice_at (invs s))(inv_id i \<mapsto> i\<lparr> status := Appealed \<rparr>),
       appeal := (appeal (invs s))(n \<mapsto> \<lparr> evidence_hash = h, appealed_at = timestamp e, pre_default_score = sc \<rparr>) \<rparr>"
  have "life_step (Some (life_of s n i)) (Some ((life_of s n i)\<lparr> l_status := Appealed, l_appealed := True \<rparr>))"
    using i by (intro appealed) simp_all
  then have "life_step (Some (life_of s n i)) (Some (life_of s' n (i\<lparr> status := Appealed \<rparr>)))"
    by (simp add: life_of_def inv)
  then show ?thesis
    by (intro refines_one [OF assms(2) i(1), of "i\<lparr> status := Appealed \<rparr>"])
      (use invoices_okD(1) [OF assms(2) i(1)] in \<open>simp_all add: inv\<close>)
qed

lemma dispute_invoice_refines:
  assumes "dispute_invoice e n h s = Inr s'" "invoices_ok s"
  shows "refines s s'"
  using assms(1)
proof (rule dispute_invoice_eq_Inr)
  fix i
  assume i: "invoice_at (invs s) n = Some i" "status i = Pending \<or> status i = PartiallyFunded \<or> status i = Funded"
      "dispute (invs s) n = None"
    and inv: "invs s' = (invs s)\<lparr> invoice_at := (invoice_at (invs s))(inv_id i \<mapsto> i\<lparr> status := Disputed \<rparr>),
       dispute := (dispute (invs s))(n \<mapsto> \<lparr> reason_hash = h, disputed_at = sequence e \<rparr>) \<rparr>"
  have "life_step (Some (life_of s n i)) (Some ((life_of s n i)\<lparr> l_status := Disputed, l_disputed := True \<rparr>))"
    using i by (intro disputed) simp_all
  then have "life_step (Some (life_of s n i)) (Some (life_of s' n (i\<lparr> status := Disputed \<rparr>)))"
    by (simp add: life_of_def inv)
  then show ?thesis
    by (intro refines_one [OF assms(2) i(1), of "i\<lparr> status := Disputed \<rparr>"])
      (use invoices_okD(1) [OF assms(2) i(1)] in \<open>simp_all add: inv\<close>)
qed

lemma resolve_appeal_refines:
  assumes "resolve_appeal e n b s = Inr s'" "invoices_ok s"
  shows "refines s s'"
  using assms(1)
proof (rule resolve_appeal_eq_Inr)
  fix i :: invoice
  assume i: "invoice_at (invs s) n = Some i" "status i = Appealed"
    and inv: "invs s' = invs (save_invoice (i\<lparr> status := Defaulted \<rparr>) s)"
  show ?thesis
    by (rule refines_status [OF assms(2) i(1) save_status_invs [OF inv]]) (rule ruled, simp add: i(2))
qed

lemma status_from_funding_life: "status_from_funding i = status_by_funding (life_of s n i)"
  by (simp add: status_from_funding_def status_by_funding_def)

lemma resolve_dispute_refines:
  assumes "resolve_dispute e n h r s = Inr s'" "invoices_ok s"
  shows "refines s s'"
  using assms(1)
proof (rule resolve_dispute_eq_Inr)
  fix i :: invoice
  assume i: "invoice_at (invs s) n = Some i" "status i = Disputed"
    and inv: "invs s' = invs (save_invoice (i\<lparr> status := if r = 1 then Cancelled else status_from_funding i \<rparr>) s)"
  show ?thesis
    by (rule refines_status [OF assms(2) i(1) save_status_invs [OF inv]])
      (cases "r = 1", use i(2) in \<open>simp_all add: status_from_funding_life [of i s n] upheld dismissed\<close>)
qed

lemma auto_resolve_dispute_refines:
  assumes "auto_resolve_dispute e n s = Inr s'" "invoices_ok s"
  shows "refines s s'"
  using assms(1)
proof (rule auto_resolve_dispute_eq_Inr)
  fix i :: invoice
  assume i: "invoice_at (invs s) n = Some i" "status i = Disputed"
    and inv: "invs s' = invs (save_invoice (i\<lparr> status := status_from_funding i \<rparr>) s)"
  show ?thesis
    by (rule refines_status [OF assms(2) i(1) save_status_invs [OF inv]])
      (use i(2) in \<open>simp add: status_from_funding_life [of i s n] dismissed\<close>)
qed

text \<open>Submissions only add invoices.\<close>

definition submits :: "'w state \<Rightarrow> 'w state \<Rightarrow> bool" where
  "submits s s' \<longleftrightarrow> invoices_ok s' \<and>
     (\<forall>m. lives s' m = lives s m \<or> lives s m = None \<and> life_step None (lives s' m)) \<and>
     invoice_at (invs s) \<subseteq>\<^sub>m invoice_at (invs s')"

lemma submits_refines: "submits s s' \<Longrightarrow> refines s s'"
  unfolding submits_def refines_def keeps_final_def map_le_def by (metis domI)

lemma submits_trans: "submits s s1 \<Longrightarrow> submits s1 s' \<Longrightarrow> submits s s'"
  unfolding submits_def by (metis life_step_Some option.distinct(1) map_le_trans)

lemma store_submission_submits:
  assumes "store_submission e p s = Inr (n, s')" "invoices_ok s" "0 < p_amount p" "typed_params p"
  shows "submits s s'"
  using assms(1)
proof (rule store_submission_eq_Inr)
  fix rep
  assume n: "n = read_next_invoice_id s" "p_due_date p \<le> u32_max"
    and inv: "invs s' = (invs s)\<lparr> next_id := Some (Suc n),
       invoice_at := (invoice_at (invs s))(n \<mapsto> submitted_invoice n p (p_due_date p) rep) \<rparr>"
  let ?i = "submitted_invoice n p (p_due_date p) rep"
  have none: "invoice_at (invs s) n = None" "dispute (invs s) n = None" "appeal (invs s) n = None"
    using assms(2) n(1) invoices_okD(2) [OF assms(2), of n]
    by (cases "invoice_at (invs s) n"; simp add: invoices_ok_def)+
  have same: "life_of s' m = life_of s m" for m by (simp add: life_of_def fun_eq_iff inv)
  have l: "life_of s n ?i = \<lparr> l_status = Pending, l_amount = p_amount p, l_rate = p_discount_rate p, l_due = p_due_date p,
      l_funded = 0, l_paid = 0, l_disputed = False, l_appealed = False \<rparr>"
    using none by (simp add: life_of_def submitted_invoice_def)
  have st: "life_step None (Some (life_of s n ?i))"
    unfolding l using assms(3,4) n(2) by (intro submitted) (simp_all add: typed_params_def)
  have ok: "life_ok (life_of s n ?i)" by (rule life_step_ok [OF st]) simp
  have "inv_id ?i = n" by (simp add: submitted_invoice_def)
  with assms(2) n(1) ok same have "invoices_ok s'"
    by (auto simp: invoices_ok_def inv no_split_def read_next_invoice_id_def less_Suc_eq)
  moreover have "lives s' m = lives s m \<or> lives s m = None \<and> life_step None (lives s' m)" for m
    using none(1) st same by (simp add: lives_def inv)
  moreover have "invoice_at (invs s) \<subseteq>\<^sub>m invoice_at (invs s')" using none(1) by (auto simp: map_le_def inv)
  ultimately show ?thesis by (simp add: submits_def)
qed

lemma submit_each_submits:
  "submit_each e ps au s = Inr (ns, s') \<Longrightarrow> invoices_ok s \<Longrightarrow> list_all typed_params ps \<Longrightarrow> submits s s'"
proof (induction e ps au s arbitrary: ns rule: submit_each.induct)
  case (1 e au s)
  then show ?case by (simp add: submits_def)
next
  case (2 e p ps au s)
  let ?au = "if p_freelancer p \<in> set au then au else au @ [p_freelancer p]"
  obtain n ns' s1 where v: "validate_invoice_terms_with_token e (p_amount p) (p_due_date p) (p_discount_rate p) (p_token p) s = Inr ()"
    and s1: "store_submission e p s = Inr (n, s1)" and rest: "submit_each e ps ?au s1 = Inr (ns', s')"
    and au: "(if p_freelancer p \<in> set au then Inr () else require_auth e (p_freelancer p)) = Inr ()"
    and tk: "is_approved_token (p_token p) s"
    using 2(2) by (auto simp: and_then_eq_Inr Let_def split: if_splits)
  have st: "submits s s1"
    using store_submission_submits [OF s1 2(3) terms_positive(1) [OF v]] 2(4) by simp
  then have "invoices_ok s1" by (simp add: submits_def)
  from 2(1) [OF au refl _ v s1 refl rest this] 2(4) tk st show ?case by (auto intro: submits_trans)
qed

lemma initialize_refines:
  assumes "initialize e adm usdc eurc xlm s = Inr s'" "invoices_ok s"
  shows "refines s s'"
proof -
  have inv: "invoice_at (invs s') = invoice_at (invs s)" "invoice_core_at (invs s') = invoice_core_at (invs s)"
    "dispute (invs s') = dispute (invs s)" "appeal (invs s') = appeal (invs s)"
    "read_next_invoice_id s' = read_next_invoice_id s"
    using assms(1) by (auto simp: initialize_def Let_def publish_def set_config_def read_next_invoice_id_def split: if_splits)
  have "life_of s' m = life_of s m" for m by (simp add: life_of_def fun_eq_iff inv)
  then show ?thesis using assms(2) inv by (simp add: refines_def invoices_ok_def lives_def no_split_def keeps_final_def)
qed

lemma get_payer_score_refines: "invoices_ok s \<Longrightarrow> refines s (snd (get_payer_score e a s))"
  using get_payer_score_frame [of e a s] life_of_cong [of "snd (get_payer_score e a s)" s]
  by (simp add: refines_def invoices_ok_def lives_def no_split_def read_next_invoice_id_def keeps_final_def)

lemma invoice_exec_refines:
  assumes "invoice_exec e c s = Some s'" "typed_call (InvoiceCall c)" "invoices_ok s"
  shows "refines s s'"
proof (cases c)
  case (SubmitInvoice p)
  then obtain n where "submit_invoice e p s = Inr (n, s')" using assms(1) by (auto simp: state_of_eq_Some)
  note sub = submit_invoice_eq_Inr [OF this]
  show ?thesis
    using store_submission_submits [OF sub(8) assms(3) sub(4)] assms(2) SubmitInvoice by (simp add: submits_refines)
next
  case (SubmitInvoicesBatch ps)
  then obtain ns where "submit_each e ps [] s = Inr (ns, s')"
    using assms(1) by (auto simp: state_of_eq_Some submit_invoices_batch_def split: if_splits)
  then show ?thesis using submit_each_submits assms(2,3) SubmitInvoicesBatch by (force intro: submits_refines)
qed (use assms in \<open>auto simp: committed_eq_Some intro: update_invoice_refines convert_invoice_token_refines
    transfer_invoice_refines transfer_lp_position_refines cancel_invoice_refines expire_invoice_refines
    fund_invoice_refines mark_paid_refines claim_default_refines appeal_default_refines resolve_appeal_refines
    dispute_invoice_refines resolve_dispute_refines auto_resolve_dispute_refines\<close>)

lemma admin_exec_refines:
  assumes "admin_exec e c s = Some s'" "invoices_ok s"
  shows "refines s s'"
proof (cases "(\<exists>adm usdc eurc xlm. c = Initialize adm usdc eurc xlm) \<or> (\<exists>a. c = PayerScore a) \<or>
    (\<exists>a. c = SuggestedDiscountRate a)")
  case True
  then show ?thesis using assms
    by (auto simp: committed_eq_Some suggested_discount_rate_state intro: initialize_refines get_payer_score_refines)
next
  case False
  then show ?thesis using admin_exec_books [OF assms(1)] assms(2) by (intro refines_books) auto
qed

lemma exec_refines:
  assumes "exec e c s = Some s'" "typed_call c" "invoices_ok s"
  shows "refines s s'"
  using assms
  by (cases c) (auto simp: committed_eq_Some intro: invoice_exec_refines admin_exec_refines
      refines_books queue_exec_books oracle_exec_books multisig_exec_books)

section \<open>Simulation\<close>

text \<open>
  The contract between a system and the machines it runs, one per key: the invariant is kept and each
  machine stays or makes one of its own steps. What every step of the machines keeps then holds
  along all runs of the system.
\<close>

locale simulation =
  fixes step :: "'s \<Rightarrow> 's \<Rightarrow> bool" and abs :: "'s \<Rightarrow> 'k \<Rightarrow> 'l option"
    and astep :: "'l option \<Rightarrow> 'l option \<Rightarrow> bool" and inv :: "'s \<Rightarrow> bool"
  assumes step_inv: "step s s' \<Longrightarrow> inv s \<Longrightarrow> inv s'"
    and step_sim: "step s s' \<Longrightarrow> inv s \<Longrightarrow> abs s' n = abs s n \<or> astep (abs s n) (abs s' n)"
begin

lemma run_inv: "step\<^sup>*\<^sup>* s s' \<Longrightarrow> inv s \<Longrightarrow> inv s'"
  by (induction rule: rtranclp_induct) (auto intro: step_inv)

lemma run_sim: "step\<^sup>*\<^sup>* s s' \<Longrightarrow> inv s \<Longrightarrow> astep\<^sup>*\<^sup>* (abs s n) (abs s' n)"
proof (induction rule: rtranclp_induct)
  case (step t u)
  then show ?case
    using step_sim [OF step(2) run_inv [OF step(1)], of n] by (auto intro: rtranclp.rtrancl_into_rtrancl)
qed simp

lemma run_keeps:
  assumes "step\<^sup>*\<^sup>* s s'" "inv s" "P (abs s n)" and "\<And>m m'. P m \<Longrightarrow> astep m m' \<Longrightarrow> P m'"
  shows "P (abs s' n)"
  using run_sim [OF assms(1,2), of n] assms(3,4) by (induction rule: rtranclp_induct) auto

end

lemma contract_step_refines: "contract_step s s' \<Longrightarrow> invoices_ok s \<Longrightarrow> refines s s'"
  by (elim contract_stepE) (auto intro: exec_refines refines_books)

interpretation contract: simulation contract_step lives life_step invoices_ok
  by unfold_locales (use contract_step_refines in \<open>auto simp: refines_def\<close>)

lemma fresh_state_ok: "invoices_ok (fresh_state w)"
  by (simp add: invoices_ok_def fresh_state_def no_split_def)

lemma reachable_life_ok:
  assumes "contract_step\<^sup>*\<^sup>* (fresh_state w) s" "invoice_at (invs s) n = Some i"
  shows "inv_id i = n" "n < read_next_invoice_id s" "life_ok (life_of s n i)"
  using invoices_okD [OF contract.run_inv [OF assms(1) fresh_state_ok] assms(2)] by simp_all

lemma step_rank:
  assumes "contract_step s s'" "invoices_ok s" "lives s n = Some l"
  obtains l' where "lives s' n = Some l'" "l_status l' = l_status l \<and> status_rank l' \<le> status_rank l \<or> status_rank l' < status_rank l"
proof -
  have ok: "life_ok l" using assms(2,3) by (auto simp: lives_def dest: invoices_okD)
  from contract.step_sim [OF assms(1,2), of n] assms(3)
  consider "lives s' n = Some l" | "life_step (Some l) (lives s' n)" by auto
  then show ?thesis
  proof cases
    case 2
    then obtain l' where l': "lives s' n = Some l'" using life_step_Some by blast
    then have "life_step (Some l) (Some l')" using 2 by simp
    then show ?thesis using that [OF l'] life_step_rank [OF _ _ ok] life_step_rank_le by (cases "l_status l' = l_status l") auto
  qed (use that in auto)
qed

lemma status_changes_rank:
  "is_run (s # ss) \<Longrightarrow> invoices_ok s \<Longrightarrow>
   status_changes n (s # ss) \<le> (case lives s n of None \<Rightarrow> 9 | Some l \<Rightarrow> status_rank l)"
proof (induction ss arbitrary: s)
  case (Cons s' ss)
  have st: "contract_step s s'" "is_run (s' # ss)" using Cons.prems(1) by simp_all
  note ok' = contract.step_inv [OF st(1) Cons.prems(2)]
  note IH = Cons.IH [OF st(2) ok']
  show ?case
  proof (cases "lives s n")
    case None
    from contract.step_sim [OF st(1) Cons.prems(2), of n] None
    have "lives s' n = None \<or> (\<exists>l. lives s' n = Some l \<and> status_rank l = 9)"
      by (auto elim!: life_step_NoneE simp: status_rank_def)
    then show ?thesis using IH None by auto
  next
    case (Some l)
    show ?thesis by (rule step_rank [OF st(1) Cons.prems(2) Some]) (use IH Some in auto)
  qed
qed (auto split: option.split)

lemma dispute_kept:
  assumes "contract_step\<^sup>*\<^sup>* s s'" "invoices_ok s" "\<exists>l. lives s n = Some l \<and> l_disputed l"
  shows "dispute (invs s') n \<noteq> None"
proof -
  have "\<exists>l. lives s' n = Some l \<and> l_disputed l"
    by (rule contract.run_keeps [where P = "\<lambda>m. \<exists>l. m = Some l \<and> l_disputed l", OF assms]) (auto elim!: life_step_SomeE)
  then show ?thesis by (auto simp: lives_def)
qed

section \<open>A sample run\<close>

abbreviation sample_deploy :: call where
  "sample_deploy \<equiv> AdminCall (Initialize (Address 1) (Address 9) (Address 10) (Address 11))"

lemmas call_exec = run_exec submit_exec get_payer_score_def committed_def state_of_def DEFAULT_PAYER_SCORE_def ten_pow_eq
  checked_add_u64_def

lemma sample_cancellation:
  "\<exists>s. Option.bind (exec (sample_env 10 (Address 3)) sample_deploy (fresh_state sample_ledger)) (\<lambda>s1.
      Option.bind (exec (sample_env 20 (Address 3)) (InvoiceCall (SubmitInvoice sample_params)) s1)
        (exec (sample_env 30 (Address 3)) (InvoiceCall (CancelInvoice 1)))) = Some s \<and>
    (\<exists>i. invoice_at (invs s) 1 = Some i \<and> status i = Cancelled)"
  by (simp add: call_exec cancel_invoice_def require_submitter_by_id_def require_pending_def Invoices.cancelled_def
      increment_invoices_submitted_def get_reputation_def set_reputation_def sat_add_u32_def cong: run_cong)

lemma dispute_fresh: "dispute (invs (fresh_state w)) = Map.empty"
  by (simp add: fresh_state_def)

lemma sample_dispute:
  "\<exists>s. Option.bind (exec (sample_env 10 (Address 3)) sample_deploy (fresh_state sample_ledger)) (\<lambda>s1.
      Option.bind (exec (sample_env 20 (Address 3)) (InvoiceCall (SubmitInvoice sample_params)) s1)
        (\<lambda>s2. committed (dispute_invoice (sample_env 30 (Address 2)) 1 [] s2))) = Some s"
  by (simp add: call_exec dispute_invoice_def require_payer_by_id_def require_disputable_def
      increment_invoices_submitted_def get_reputation_def set_reputation_def sat_add_u32_def
      save_dispute_def dispute_fresh cong: run_cong)

lemma sample_params_typed: "typed_call (InvoiceCall (SubmitInvoice sample_params))"
  by (simp add: typed_params_def sample_params_def width_defs)

lemma sample_run:
  obtains s1 s2 s3 i where "is_run [fresh_state sample_ledger, s1, s2, s3]" "contract_step\<^sup>*\<^sup>* (fresh_state sample_ledger) s3"
    "invoice_at (invs s3) 1 = Some i" "status i = Cancelled"
proof -
  obtain s1 s2 s3 i where s: "exec (sample_env 10 (Address 3)) sample_deploy (fresh_state sample_ledger) = Some s1"
    "exec (sample_env 20 (Address 3)) (InvoiceCall (SubmitInvoice sample_params)) s1 = Some s2"
    "exec (sample_env 30 (Address 3)) (InvoiceCall (CancelInvoice 1)) s2 = Some s3"
    "invoice_at (invs s3) 1 = Some i" "status i = Cancelled"
    using sample_cancellation unfolding bind_eq_Some_conv by blast
  have st: "contract_step (fresh_state sample_ledger) s1" "contract_step s1 s2" "contract_step s2 s3"
    using transact [OF _ s(1)] transact [OF _ s(2)] transact [OF _ s(3)] sample_params_typed by simp_all
  then have "contract_step\<^sup>*\<^sup>* (fresh_state sample_ledger) s3"
    by (meson converse_rtranclp_into_rtranclp r_into_rtranclp)
  then show ?thesis using that [of s1 s2 s3 i] st s by simp
qed

lemma sample_state_ok: "invoices_ok sample_state"
proof -
  have "life_of sample_state 7 sample_invoice = \<lparr> l_status = Pending, l_amount = 1001, l_rate = 333, l_due = 100,
      l_funded = 0, l_paid = 0, l_disputed = False, l_appealed = False \<rparr>"
    by (simp add: life_of_def sample_invoice_def) (simp add: fresh_state_def)
  then have "life_ok (life_of sample_state 7 sample_invoice)" by (simp add: life_ok_def width_defs)
  then show ?thesis by (simp add: invoices_ok_def no_split_def read_next_invoice_id_def fresh_state_simps sample_invoice_def)
      (simp add: fresh_state_def)
qed

section \<open>Properties\<close>

text \<open>
  C29: every successful entry point of the contract refines the life cycle of an invoice: from a state
  whose invoices are well formed it reaches such a state, and the life of each invoice is unchanged
  or makes exactly one step of the abstract machine.
\<close>

theorem lifecycle_refinement:
  assumes "exec e c s = Some s'" and "typed_call c" and "invoices_ok s"
  shows "invoices_ok s' \<and> (\<forall>n. lives s' n = lives s n \<or> life_step (lives s n) (lives s' n))"
  using exec_refines [OF assms] by (simp add: refines_def)

theorem lifecycle_refinement_witness:
  "let c = InvoiceCall (FundInvoice (Address 4) 7 500 False)
   in typed_call c \<and> invoices_ok sample_state \<and>
     (\<exists>s'. exec (sample_env 10 (Address 4)) c sample_state = Some s' \<and> invoices_ok s')"
proof -
  let ?c = "InvoiceCall (FundInvoice (Address 4) 7 500 False)"
  obtain s' where "exec (sample_env 10 (Address 4)) ?c sample_state = Some s'"
    using sample_fund_run by (auto simp: and_then_eq_Inr committed_def)
  moreover from lifecycle_refinement [OF this _ sample_state_ok] have "invoices_ok s'" by simp
  ultimately show ?thesis using sample_state_ok by (auto simp: Let_def)
qed

text \<open>
  C30: in every reachable state an invoice sits under its own id, below the next id; its amount is
  positive, it is never over-funded or over-paid and it is \<open>Paid\<close> exactly when the whole amount has
  been paid. It is short of its amount while it is \<open>Pending\<close> or \<open>PartiallyFunded\<close> and fully funded
  whenever it is \<open>Funded\<close>, \<open>Paid\<close>, \<open>Defaulted\<close> or \<open>Appealed\<close>, or anything has been paid on it.
\<close>

theorem reachable_invoice_consistent:
  assumes "contract_step\<^sup>*\<^sup>* (fresh_state w) s" and "invoice_at (invs s) n = Some i"
  shows "inv_id i = n \<and> n < read_next_invoice_id s \<and> 0 < amount i \<and> amount_funded i \<le> amount i \<and>
    0 \<le> amount_paid i \<and> amount_paid i \<le> amount i \<and> (status i = Paid \<longleftrightarrow> amount_paid i = amount i) \<and>
    (status i \<in> {Pending, PartiallyFunded} \<longrightarrow> amount_funded i < amount i) \<and>
    (status i \<in> {Funded, Paid, Defaulted, Appealed} \<or> 0 < amount_paid i \<longrightarrow> amount_funded i = amount i)"
  using reachable_life_ok [OF assms] by (auto simp: life_ok_def)

theorem reachable_invoice_consistent_witness:
  "\<exists>s i. contract_step\<^sup>*\<^sup>* (fresh_state sample_ledger) s \<and> invoice_at (invs s) 1 = Some i \<and>
     0 < amount i \<and> amount_paid i < amount i \<and> 1 < read_next_invoice_id s"
proof (rule sample_run)
  fix s1 s2 s3 i
  assume s: "contract_step\<^sup>*\<^sup>* (fresh_state sample_ledger) s3" "invoice_at (invs s3) 1 = Some i" "status i = Cancelled"
  show ?thesis using reachable_invoice_consistent [OF s(1,2)] s by (intro exI [of _ s3] exI [of _ i]) auto
qed

text \<open>
  C31: \<open>Paid\<close>, \<open>Cancelled\<close> and \<open>Expired\<close> are final: whatever calls follow, the stored record of the
  invoice never changes again in any of its fields.
\<close>

theorem terminal_states_final:
  assumes "contract_step\<^sup>*\<^sup>* (fresh_state w) s" and "contract_step\<^sup>*\<^sup>* s s'"
    and "invoice_at (invs s) n = Some i" and "status i \<in> {Paid, Cancelled, Expired}"
  shows "invoice_at (invs s') n = Some i"
  using assms(2)
proof (induction rule: rtranclp_induct)
  case (step t u)
  have "invoices_ok t" by (rule contract.run_inv [OF rtranclp_trans [OF assms(1) step(1)] fresh_state_ok])
  from contract_step_refines [OF step(2) this] step(3) show ?case
    using assms(4) unfolding refines_def keeps_final_def by blast
qed (rule assms(3))

theorem terminal_states_final_witness:
  "\<exists>s i. contract_step\<^sup>*\<^sup>* (fresh_state sample_ledger) s \<and> invoice_at (invs s) 1 = Some i \<and> status i = Cancelled \<and>
     invoice_at (invs (s\<lparr> wld := Map.empty \<rparr>)) 1 = Some i"
proof (rule sample_run)
  fix s1 s2 s3 i
  assume s: "contract_step\<^sup>*\<^sup>* (fresh_state sample_ledger) s3" "invoice_at (invs s3) 1 = Some i" "status i = Cancelled"
  have "contract_step\<^sup>*\<^sup>* s3 (s3\<lparr> wld := Map.empty \<rparr>)" by (blast intro: elsewhere)
  from terminal_states_final [OF s(1) this s(2)] s show ?thesis by auto
qed

text \<open>
  C32: the life of an invoice is finite: along every run of the contract from its deployment the status
  of an invoice changes at most nine times after its submission, however many calls are made.
\<close>

theorem status_changes_bounded:
  assumes "is_run (fresh_state w # ss)"
  shows "status_changes n (fresh_state w # ss) \<le> 9"
proof -
  have "lives (fresh_state w) n = None" by (simp add: lives_def fresh_state_def)
  then show ?thesis using status_changes_rank [OF assms fresh_state_ok, of n] by simp
qed

theorem status_changes_bounded_witness:
  "\<exists>s1 s2 s3. is_run [fresh_state sample_ledger, s1, s2, s3] \<and> status_changes 1 [fresh_state sample_ledger, s1, s2, s3] \<le> 9"
proof (rule sample_run)
  fix s1 s2 s3
  assume r: "is_run [fresh_state sample_ledger, s1, s2, s3]"
  from r status_changes_bounded [OF r, of 1] show ?thesis by blast
qed

text \<open>
  C33: an invoice can be disputed once: after a successful \<open>dispute_invoice\<close> every later one for the
  same invoice fails, also when the dispute was dismissed or timed out.
\<close>

theorem single_dispute:
  assumes "contract_step\<^sup>*\<^sup>* (fresh_state w) s" and "dispute_invoice e n h s = Inr s1" and "contract_step\<^sup>*\<^sup>* s1 s2"
  shows "\<exists>f. dispute_invoice e' n h' s2 = Inl f"
proof -
  have ok: "invoices_ok s" by (rule contract.run_inv [OF assms(1) fresh_state_ok])
  then have ok1: "invoices_ok s1" using dispute_invoice_refines [OF assms(2)] by (simp add: refines_def)
  have "\<exists>l. lives s1 n = Some l \<and> l_disputed l"
    by (rule dispute_invoice_eq_Inr [OF assms(2)]) (use invoices_okD(1) [OF ok] in \<open>auto simp: lives_def\<close>)
  then have "dispute (invs s2) n \<noteq> None" by (rule dispute_kept [OF assms(3) ok1])
  then have "dispute_invoice e' n h' s2 \<noteq> Inr s3" for s3 by (auto elim: dispute_invoice_eq_Inr)
  then show ?thesis by (cases "dispute_invoice e' n h' s2") auto
qed

theorem single_dispute_witness:
  "\<exists>s s1 f. contract_step\<^sup>*\<^sup>* (fresh_state sample_ledger) s \<and> dispute_invoice (sample_env 30 (Address 2)) 1 [] s = Inr s1 \<and>
     dispute_invoice (sample_env 40 (Address 2)) 1 [] s1 = Inl f"
proof -
  obtain s0 s s1 where s: "exec (sample_env 10 (Address 3)) sample_deploy (fresh_state sample_ledger) = Some s0"
    "exec (sample_env 20 (Address 3)) (InvoiceCall (SubmitInvoice sample_params)) s0 = Some s"
    "dispute_invoice (sample_env 30 (Address 2)) 1 [] s = Inr s1"
    using sample_dispute unfolding bind_eq_Some_conv committed_eq_Some by blast
  have "contract_step\<^sup>*\<^sup>* (fresh_state sample_ledger) s"
    using transact [OF _ s(1)] transact [OF _ s(2)] sample_params_typed
    by (intro converse_rtranclp_into_rtranclp [OF _ r_into_rtranclp]) simp_all
  with single_dispute [OF this s(3) rtranclp.rtrancl_refl] s(3) show ?thesis by blast
qed

end
