(* ===== verification/InsurancePool.thy ===== *)
theory InsurancePool
  imports Examples
begin

text \<open>
  The default-protection insurance pool (src/contracts/insurance_pool/src/lib.rs): enrolment,
  premiums, the capital backstop, claims behind the solvency circuit and the review window,
  timelocked administration, default counters and the views over them.

  Every \<open>DataKey\<close> is a field, grouped into money (\<open>pool_funds\<close>), administration (\<open>pool_terms\<close>)
  and the persistent books (\<open>pool_books\<close>). A returned \<open>Err\<close> and a \<open>panic_with_error!\<close> both reach
  the caller as the contract error and roll the invocation back: \<open>PoolErr\<close>. A failed
  \<open>require_auth\<close>, an arithmetic overflow or a failed token call is \<open>PoolTrap\<close>. The token is reached
  through \<open>x_transfer\<close>; the reputation contract is the environment's \<open>x_get_reputation\<close>, whose
  answer is \<open>None\<close> if the call fails and \<open>Some None\<close> if the returned value is no u32.

  Shown here: over a SEP-41 token the booked reserve is covered by what the pool holds in every
  reachable state; a claim pays the tiered coverage bounded by the reserve, liquid balance first,
  and no invoice is paid twice; the administrator cannot change within the timelock of a proposal.
\<close>

section \<open>State\<close>

datatype insurance_error =
    PoolNotInitialized | AlreadyClaimed | PoolInvalidAmount | PoolEmpty | PoolAlreadyInitialized
  | NoPendingProposal | TimelockNotExpired | PoolArithmeticOverflow | BalanceCapExceeded
  | SolvencyCircuitOpen | InvalidReserveRatio | EvidenceRequired | ReviewWindowNotElapsed
  | InvalidBackstopAmount

datatype pool_failure = PoolErr insurance_error | PoolTrap

type_synonym 'a pool_result = "pool_failure + 'a"

definition MIN_PAIR_DEFAULTS_TO_FLAG :: nat where "MIN_PAIR_DEFAULTS_TO_FLAG = 3"
definition COLLUSION_PAIR_SHARE_FLAG_BPS :: nat where "COLLUSION_PAIR_SHARE_FLAG_BPS = 5000"
definition TIMELOCK_DELAY_SECONDS :: nat where "TIMELOCK_DELAY_SECONDS = 3 * 24 * 60 * 60"
definition SECONDS_PER_MONTH :: nat where "SECONDS_PER_MONTH = 30 * 24 * 60 * 60"
definition INSURANCE_INTERFACE_VERSION :: nat where "INSURANCE_INTERFACE_VERSION = 1"

record claim_evidence =
  evidence_hash :: bytes32
  submitted_at :: nat

record pool_health =
  health_balance :: int
  enrolled_lp_count :: nat
  estimated_monthly_claim_rate :: int
  months_of_coverage :: "nat option"

datatype pool_event =
    PoolInit address int
  | RmProp int int nat | RmExec int int int int | RmCncl
  | CovProp int nat | CovExec int | CovCncl
  | AdmProp address nat | AdmExec address | AdmCncl
  | CovGov int int | PremGov int int | CapSet int | ResvMin nat | BackBps nat
  | SolvencyCircuitTripped nat int | SolvencyCircuitReset nat int
  | BackstopTopUp address int int
  | EvidenceSubmitted nat claim_evidence | RevWnd nat
  | PairDefaultRecorded address address nat
  | Enrolled address | PremiumPaid address int | ClaimPaid nat int

record pool_funds =
  balance :: "int option"
  coverage :: "int option"
  token_address :: "address option"
  backstop_balance :: "int option"
  backstop_funding_bps :: "nat option"
  balance_cap :: "int option"
  min_reserve_ratio_bps :: "nat option"
  solvency_circuit_open :: "bool option"
  review_window_seconds :: "nat option"

record pool_terms =
  pool_admin :: "address option"
  pending_coverage :: "int option"
  coverage_eta :: "nat option"
  pending_admin :: "address option"
  admin_eta :: "nat option"
  base_premium_rate_bps :: "nat option"
  risk_multiplier_numerator :: "int option"
  risk_multiplier_denominator :: "int option"
  pending_risk_numerator :: "int option"
  pending_risk_denominator :: "int option"
  risk_multiplier_eta :: "nat option"
  reputation_contract :: "address option"

record pool_books =
  enrolled :: "address \<rightharpoonup> bool"
  premiums :: "address \<rightharpoonup> int"
  claimed :: "nat \<rightharpoonup> bool"
  default_count :: "address \<rightharpoonup> nat"
  claim_count :: "address \<rightharpoonup> nat"
  claim_evidence_at :: "nat \<rightharpoonup> claim_evidence"
  pair_default_count :: "address \<times> address \<rightharpoonup> nat"
  initialized_at :: "nat option"
  enrolled_count :: "nat option"
  total_default_count :: "nat option"

record 'w pool =
  funds :: pool_funds
  terms :: pool_terms
  book :: pool_books
  pool_wld :: 'w
  pool_evs :: "pool_event list"

record 'w pool_env = "'w env" +
  x_get_reputation :: "'w \<Rightarrow> address \<Rightarrow> address \<Rightarrow> nat option option"

definition fresh_pool :: "'w \<Rightarrow> 'w pool" where
  "fresh_pool w = \<lparr>
     funds = \<lparr> balance = None, coverage = None, token_address = None, backstop_balance = None,
       backstop_funding_bps = None, balance_cap = None, min_reserve_ratio_bps = None,
       solvency_circuit_open = None, review_window_seconds = None \<rparr>,
     terms = \<lparr> pool_admin = None, pending_coverage = None, coverage_eta = None, pending_admin = None,
       admin_eta = None, base_premium_rate_bps = None, risk_multiplier_numerator = None,
       risk_multiplier_denominator = None, pending_risk_numerator = None,
       pending_risk_denominator = None, risk_multiplier_eta = None, reputation_contract = None \<rparr>,
     book = \<lparr> enrolled = Map.empty, premiums = Map.empty, claimed = Map.empty,
       default_count = Map.empty, claim_count = Map.empty, claim_evidence_at = Map.empty,
       pair_default_count = Map.empty, initialized_at = None, enrolled_count = None,
       total_default_count = None \<rparr>,
     pool_wld = w, pool_evs = [] \<rparr>"

text \<open>A ledger with two liquidity providers and a deployment of the pool on it, for the examples.\<close>

definition pool_ledger :: mock_ledger where
  "pool_ledger = [Address 9 \<mapsto> \<lparr> mock_balances = [Address 4 \<mapsto> 1000, Address 5 \<mapsto> 1000],
     fail_next = False, mock_frozen = Map.empty \<rparr>]"

definition pool_call_env :: "nat \<Rightarrow> address \<Rightarrow> mock_ledger pool_env" where
  "pool_call_env ts a = env.extend (call_env mock_ext ts ts {a}) \<lparr> x_get_reputation = (\<lambda>_ _ _. None) \<rparr>"

section \<open>Host primitives\<close>

definition pool_auth :: "('w, 'm) env_scheme \<Rightarrow> address \<Rightarrow> unit pool_result" where
  "pool_auth e a = (if a \<in> auths e then Inr () else Inl PoolTrap)"

definition pool_publish :: "pool_event \<Rightarrow> 'w pool \<Rightarrow> 'w pool" where
  "pool_publish ev p = p\<lparr> pool_evs := pool_evs p @ [ev] \<rparr>"

text \<open>\<open>u32 + 1\<close> under overflow checks, \<open>checked_div\<close>, \<open>saturating_div\<close> by a non-zero divisor and
  the \<open>as u32\<close> cast of an i128.\<close>

definition succ_u32 :: "nat \<Rightarrow> nat pool_result" where
  "succ_u32 n = (if n < u32_max then Inr (n + 1) else Inl PoolTrap)"

definition checked_div :: "int \<Rightarrow> int \<Rightarrow> int option" where
  "checked_div a b = (if b = 0 \<or> \<not> in_i128 (quot a b) then None else Some (quot a b))"

definition saturating_div :: "int \<Rightarrow> int \<Rightarrow> int" where
  "saturating_div a b = clamp_i128 (quot a b)"

definition i128_as_u32 :: "int \<Rightarrow> nat" where
  "i128_as_u32 x = nat (x mod 4294967296)"

definition pool_transfer :: "('w, 'm) env_scheme \<Rightarrow> address \<Rightarrow> address \<Rightarrow> address \<Rightarrow> int \<Rightarrow> 'w pool \<Rightarrow>
    'w pool pool_result" where
  "pool_transfer e t from to a p =
     (case x_transfer (ext e) (pool_wld p) t (insert (self e) (auths e)) from to a of
        None \<Rightarrow> Inl PoolTrap
      | Some w \<Rightarrow> Inr (p\<lparr> pool_wld := w \<rparr>))"

definition require_pool_admin :: "('w, 'm) env_scheme \<Rightarrow> 'w pool \<Rightarrow> unit pool_result" where
  "require_pool_admin e p =
     (case pool_admin (terms p) of
        Some a \<Rightarrow> pool_auth e a
      | None \<Rightarrow> Inl (PoolErr PoolNotInitialized))"

definition get_token_client :: "'w pool \<Rightarrow> address pool_result" where
  "get_token_client p = ok_or (token_address (funds p)) (PoolErr PoolNotInitialized)"

section \<open>Initialisation and premium pricing\<close>

definition pool_initialize :: "('w, 'm) env_scheme \<Rightarrow> address \<Rightarrow> int \<Rightarrow> address \<Rightarrow> 'w pool \<Rightarrow> 'w pool pool_result" where
  "pool_initialize e adm cov t p =
     (if pool_admin (terms p) \<noteq> None then Inl (PoolErr PoolAlreadyInitialized)
      else if cov \<le> 0 then Inl (PoolErr PoolInvalidAmount)
      else and_then (pool_auth e adm) (\<lambda>_.
        Inr (pool_publish (PoolInit adm cov) (p\<lparr>
          terms := (terms p)\<lparr> pool_admin := Some adm \<rparr>,
          funds := (funds p)\<lparr> balance := Some 0, coverage := Some cov, token_address := Some t \<rparr>,
          book := (book p)\<lparr> initialized_at := Some (timestamp e) \<rparr> \<rparr>))))"

definition get_premiums_paid :: "address \<Rightarrow> 'w pool \<Rightarrow> int" where
  "get_premiums_paid a p = unwrap_or (premiums (book p) a) 0"

definition get_coverage :: "'w pool \<Rightarrow> int" where
  "get_coverage p = unwrap_or (coverage (funds p)) 0"

definition get_base_premium_rate_bps :: "'w pool \<Rightarrow> nat" where
  "get_base_premium_rate_bps p = unwrap_or (base_premium_rate_bps (terms p)) 500"

definition set_base_premium_rate_bps :: "('w, 'm) env_scheme \<Rightarrow> nat \<Rightarrow> 'w pool \<Rightarrow> 'w pool pool_result" where
  "set_base_premium_rate_bps e rate p =
     and_then (require_pool_admin e p) (\<lambda>_.
     if rate = 0 \<or> rate > 10000 then Inl (PoolErr PoolInvalidAmount)
     else Inr (p\<lparr> terms := (terms p)\<lparr> base_premium_rate_bps := Some rate \<rparr> \<rparr>))"

definition get_risk_multiplier_numerator :: "'w pool \<Rightarrow> int" where
  "get_risk_multiplier_numerator p = unwrap_or (risk_multiplier_numerator (terms p)) 1"

definition get_risk_multiplier_denominator :: "'w pool \<Rightarrow> int" where
  "get_risk_multiplier_denominator p = unwrap_or (risk_multiplier_denominator (terms p)) 1"

definition set_risk_multiplier :: "('w, 'm) env_scheme \<Rightarrow> int \<Rightarrow> int \<Rightarrow> 'w pool \<Rightarrow> 'w pool pool_result" where
  "set_risk_multiplier e n d p =
     and_then (require_pool_admin e p) (\<lambda>_.
     if n < 0 \<or> d \<le> 0 then Inl (PoolErr PoolInvalidAmount)
     else Inr (p\<lparr> terms := (terms p)\<lparr> risk_multiplier_numerator := Some n,
                                     risk_multiplier_denominator := Some d \<rparr> \<rparr>))"

definition set_reputation_contract :: "('w, 'm) env_scheme \<Rightarrow> address \<Rightarrow> 'w pool \<Rightarrow> 'w pool pool_result" where
  "set_reputation_contract e c p =
     and_then (require_pool_admin e p) (\<lambda>_.
     Inr (p\<lparr> terms := (terms p)\<lparr> reputation_contract := Some c \<rparr> \<rparr>))"

definition get_default_count :: "address \<Rightarrow> 'w pool \<Rightarrow> nat" where
  "get_default_count a p = unwrap_or (default_count (book p) a) 0"

definition get_claim_count :: "address \<Rightarrow> 'w pool \<Rightarrow> nat" where
  "get_claim_count a p = unwrap_or (claim_count (book p) a) 0"

definition increment_default_count :: "('w, 'm) env_scheme \<Rightarrow> address \<Rightarrow> 'w pool \<Rightarrow> 'w pool pool_result" where
  "increment_default_count e a p =
     and_then (require_pool_admin e p) (\<lambda>_.
     and_then (succ_u32 (get_default_count a p)) (\<lambda>c.
     and_then (succ_u32 (unwrap_or (total_default_count (book p)) 0)) (\<lambda>t.
     Inr (p\<lparr> book := (book p)\<lparr> default_count := (default_count (book p))(a \<mapsto> c),
                               total_default_count := Some t \<rparr> \<rparr>))))"

text \<open>\<open>default_count \<times> (100 - score) / 100\<close>, where a value that is no u32 reads as score 0.\<close>

definition apply_reputation_discount :: "('w, 'm) pool_env_scheme \<Rightarrow> address \<Rightarrow> int \<Rightarrow> 'w pool \<Rightarrow> int" where
  "apply_reputation_discount e a n p =
     (case reputation_contract (terms p) of
        None \<Rightarrow> n
      | Some c \<Rightarrow>
          (case x_get_reputation e (pool_wld p) c a of
             None \<Rightarrow> n
           | Some v \<Rightarrow> (let score = unwrap_or v 0 in
               unwrap_or (Option.bind (checked_mul n (100 - int score)) (\<lambda>x. checked_div x 100)) n)))"

definition calculate_premium_rate_bps :: "('w, 'm) pool_env_scheme \<Rightarrow> address \<Rightarrow> 'w pool \<Rightarrow> nat" where
  "calculate_premium_rate_bps e a p =
     (let base = get_base_premium_rate_bps p;
          n = get_risk_multiplier_numerator p;
          d = get_risk_multiplier_denominator p in
      if d = 0 then base
      else let effective = apply_reputation_discount e a (int (get_default_count a p)) p;
               adjustment = unwrap_or (Option.bind (Option.bind (checked_mul effective n)
                 (\<lambda>v. checked_mul v 10000)) (\<lambda>v. checked_div v d)) 10000;
               total = saturating_add (int base) adjustment in
           if total > 10000 then 10000 else i128_as_u32 total)"

definition calculate_premium_amount :: "('w, 'm) pool_env_scheme \<Rightarrow> address \<Rightarrow> int \<Rightarrow> 'w pool \<Rightarrow> int" where
  "calculate_premium_amount e a invoice_amount p =
     saturating_div (saturating_mul invoice_amount (int (calculate_premium_rate_bps e a p))) 10000"

definition get_tiered_coverage :: "address \<Rightarrow> 'w pool \<Rightarrow> int" where
  "get_tiered_coverage a p =
     (let paid = get_premiums_paid a p; cov = get_coverage p in
      if paid \<ge> saturating_div cov 2 then saturating_div (saturating_mul cov 150) 100
      else if paid \<ge> saturating_div cov 4 then cov
      else if paid \<ge> saturating_div cov 10 then saturating_div (saturating_mul cov 75) 100
      else saturating_div (saturating_mul cov 50) 100)"

definition is_claimed :: "nat \<Rightarrow> 'w pool \<Rightarrow> bool" where
  "is_claimed n p = unwrap_or (claimed (book p) n) False"

section \<open>Timelocked administration\<close>

definition timelock_eta :: "('w, 'm) env_scheme \<Rightarrow> nat" where
  "timelock_eta e = sat_add_u64 (timestamp e) TIMELOCK_DELAY_SECONDS"

definition propose_risk_multiplier :: "('w, 'm) env_scheme \<Rightarrow> int \<Rightarrow> int \<Rightarrow> 'w pool \<Rightarrow> (nat \<times> 'w pool) pool_result" where
  "propose_risk_multiplier e n d p =
     and_then (require_pool_admin e p) (\<lambda>_.
     if n < 0 \<or> d \<le> 0 then Inl (PoolErr PoolInvalidAmount)
     else let eta = timelock_eta e in
       Inr (eta, pool_publish (RmProp n d eta) (p\<lparr> terms := (terms p)\<lparr>
         pending_risk_numerator := Some n, pending_risk_denominator := Some d,
         risk_multiplier_eta := Some eta \<rparr> \<rparr>)))"

definition execute_risk_multiplier :: "('w, 'm) env_scheme \<Rightarrow> 'w pool \<Rightarrow> 'w pool pool_result" where
  "execute_risk_multiplier e p =
     and_then (ok_or (pending_risk_numerator (terms p)) (PoolErr NoPendingProposal)) (\<lambda>n.
     and_then (ok_or (pending_risk_denominator (terms p)) (PoolErr NoPendingProposal)) (\<lambda>d.
     and_then (ok_or (risk_multiplier_eta (terms p)) (PoolErr NoPendingProposal)) (\<lambda>eta.
     if timestamp e < eta then Inl (PoolErr TimelockNotExpired)
     else Inr (pool_publish (RmExec (get_risk_multiplier_numerator p) (get_risk_multiplier_denominator p) n d)
       (p\<lparr> terms := (terms p)\<lparr> risk_multiplier_numerator := Some n, risk_multiplier_denominator := Some d,
         pending_risk_numerator := None, pending_risk_denominator := None,
         risk_multiplier_eta := None \<rparr> \<rparr>)))))"

definition cancel_risk_multiplier :: "('w, 'm) env_scheme \<Rightarrow> 'w pool \<Rightarrow> 'w pool pool_result" where
  "cancel_risk_multiplier e p =
     and_then (require_pool_admin e p) (\<lambda>_.
     if pending_risk_numerator (terms p) = None then Inl (PoolErr NoPendingProposal)
     else Inr (pool_publish RmCncl (p\<lparr> terms := (terms p)\<lparr> pending_risk_numerator := None,
       pending_risk_denominator := None, risk_multiplier_eta := None \<rparr> \<rparr>)))"

definition propose_coverage_change :: "('w, 'm) env_scheme \<Rightarrow> int \<Rightarrow> 'w pool \<Rightarrow> (nat \<times> 'w pool) pool_result" where
  "propose_coverage_change e cov p =
     and_then (require_pool_admin e p) (\<lambda>_.
     if cov \<le> 0 then Inl (PoolErr PoolInvalidAmount)
     else let eta = timelock_eta e in
       Inr (eta, pool_publish (CovProp cov eta) (p\<lparr> terms := (terms p)\<lparr>
         pending_coverage := Some cov, coverage_eta := Some eta \<rparr> \<rparr>)))"

definition execute_coverage_change :: "('w, 'm) env_scheme \<Rightarrow> 'w pool \<Rightarrow> 'w pool pool_result" where
  "execute_coverage_change e p =
     and_then (ok_or (pending_coverage (terms p)) (PoolErr NoPendingProposal)) (\<lambda>cov.
     and_then (ok_or (coverage_eta (terms p)) (PoolErr NoPendingProposal)) (\<lambda>eta.
     if timestamp e < eta then Inl (PoolErr TimelockNotExpired)
     else Inr (pool_publish (CovExec cov) (p\<lparr> funds := (funds p)\<lparr> coverage := Some cov \<rparr>,
       terms := (terms p)\<lparr> pending_coverage := None, coverage_eta := None \<rparr> \<rparr>))))"

definition cancel_coverage_change :: "('w, 'm) env_scheme \<Rightarrow> 'w pool \<Rightarrow> 'w pool pool_result" where
  "cancel_coverage_change e p =
     and_then (require_pool_admin e p) (\<lambda>_.
     if pending_coverage (terms p) = None then Inl (PoolErr NoPendingProposal)
     else Inr (pool_publish CovCncl (p\<lparr> terms := (terms p)\<lparr> pending_coverage := None,
       coverage_eta := None \<rparr> \<rparr>)))"

definition propose_admin_transfer :: "('w, 'm) env_scheme \<Rightarrow> address \<Rightarrow> 'w pool \<Rightarrow> (nat \<times> 'w pool) pool_result" where
  "propose_admin_transfer e a p =
     and_then (require_pool_admin e p) (\<lambda>_.
     let eta = timelock_eta e in
       Inr (eta, pool_publish (AdmProp a eta) (p\<lparr> terms := (terms p)\<lparr>
         pending_admin := Some a, admin_eta := Some eta \<rparr> \<rparr>)))"

definition execute_admin_transfer :: "('w, 'm) env_scheme \<Rightarrow> 'w pool \<Rightarrow> 'w pool pool_result" where
  "execute_admin_transfer e p =
     and_then (ok_or (pending_admin (terms p)) (PoolErr NoPendingProposal)) (\<lambda>a.
     and_then (ok_or (admin_eta (terms p)) (PoolErr NoPendingProposal)) (\<lambda>eta.
     if timestamp e < eta then Inl (PoolErr TimelockNotExpired)
     else Inr (pool_publish (AdmExec a) (p\<lparr> terms := (terms p)\<lparr> pool_admin := Some a,
       pending_admin := None, admin_eta := None \<rparr> \<rparr>))))"

definition cancel_admin_transfer :: "('w, 'm) env_scheme \<Rightarrow> 'w pool \<Rightarrow> 'w pool pool_result" where
  "cancel_admin_transfer e p =
     and_then (require_pool_admin e p) (\<lambda>_.
     if pending_admin (terms p) = None then Inl (PoolErr NoPendingProposal)
     else Inr (pool_publish AdmCncl (p\<lparr> terms := (terms p)\<lparr> pending_admin := None,
       admin_eta := None \<rparr> \<rparr>)))"

definition get_pending_coverage :: "'w pool \<Rightarrow> (int \<times> nat) option" where
  "get_pending_coverage p = Option.bind (pending_coverage (terms p)) (\<lambda>c.
     Option.bind (coverage_eta (terms p)) (\<lambda>eta. Some (c, eta)))"

definition get_pending_admin :: "'w pool \<Rightarrow> (address \<times> nat) option" where
  "get_pending_admin p = Option.bind (pending_admin (terms p)) (\<lambda>a.
     Option.bind (admin_eta (terms p)) (\<lambda>eta. Some (a, eta)))"

definition set_coverage_via_governance :: "('w, 'm) env_scheme \<Rightarrow> int \<Rightarrow> 'w pool \<Rightarrow> 'w pool pool_result" where
  "set_coverage_via_governance e cov p =
     (if cov \<le> 0 then Inl (PoolErr PoolInvalidAmount)
      else and_then (ok_or (pool_admin (terms p)) (PoolErr PoolNotInitialized)) (\<lambda>a.
           and_then (pool_auth e a) (\<lambda>_.
           Inr (pool_publish (CovGov (get_coverage p) cov) (p\<lparr> funds := (funds p)\<lparr> coverage := Some cov \<rparr> \<rparr>)))))"

definition set_premium_rate_via_governance :: "('w, 'm) env_scheme \<Rightarrow> nat \<Rightarrow> 'w pool \<Rightarrow> 'w pool pool_result" where
  "set_premium_rate_via_governance e rate p =
     and_then (ok_or (pool_admin (terms p)) (PoolErr PoolNotInitialized)) (\<lambda>a.
     and_then (pool_auth e a) (\<lambda>_.
     if rate = 0 \<or> rate > 10000 then Inl (PoolErr PoolInvalidAmount)
     else Inr (pool_publish (PremGov (int (get_base_premium_rate_bps p)) (int rate))
       (p\<lparr> terms := (terms p)\<lparr> base_premium_rate_bps := Some rate \<rparr> \<rparr>))))"

section \<open>Pool health and the solvency circuit\<close>

definition set_balance_cap :: "('w, 'm) env_scheme \<Rightarrow> int \<Rightarrow> 'w pool \<Rightarrow> 'w pool pool_result" where
  "set_balance_cap e cap p =
     and_then (require_pool_admin e p) (\<lambda>_.
     if cap < 0 then Inl (PoolErr PoolInvalidAmount)
     else Inr (pool_publish (CapSet cap) (p\<lparr> funds := (funds p)\<lparr>
       balance_cap := if cap = 0 then None else Some cap \<rparr> \<rparr>)))"

definition get_pool_balance :: "'w pool \<Rightarrow> int" where
  "get_pool_balance p = unwrap_or (balance (funds p)) 0"

definition get_backstop_balance :: "'w pool \<Rightarrow> int" where
  "get_backstop_balance p = unwrap_or (backstop_balance (funds p)) 0"

definition get_pool_health :: "('w, 'm) env_scheme \<Rightarrow> 'w pool \<Rightarrow> pool_health" where
  "get_pool_health e p =
     (let total = unwrap_or (total_default_count (book p)) 0;
          rate = (if total = 0 then 0
                  else let elapsed = timestamp e - unwrap_or (initialized_at (book p)) (timestamp e) in
                    quot (saturating_mul (int total) (get_coverage p))
                      (int (max (elapsed div SECONDS_PER_MONTH) 1))) in
      \<lparr> health_balance = get_pool_balance p,
        enrolled_lp_count = unwrap_or (enrolled_count (book p)) 0,
        estimated_monthly_claim_rate = rate,
        months_of_coverage = (if rate \<le> 0 then None
          else Some (nat (min (max (quot (get_pool_balance p) rate) 0) (int u32_max)))) \<rparr>)"

definition set_min_reserve_ratio_bps :: "('w, 'm) env_scheme \<Rightarrow> nat \<Rightarrow> 'w pool \<Rightarrow> 'w pool pool_result" where
  "set_min_reserve_ratio_bps e bps p =
     and_then (require_pool_admin e p) (\<lambda>_.
     if bps > 10000 then Inl (PoolErr InvalidReserveRatio)
     else Inr (pool_publish (ResvMin bps) (p\<lparr> funds := (funds p)\<lparr> min_reserve_ratio_bps := Some bps \<rparr> \<rparr>)))"

definition get_min_reserve_ratio_bps :: "'w pool \<Rightarrow> nat" where
  "get_min_reserve_ratio_bps p = unwrap_or (min_reserve_ratio_bps (funds p)) 0"

definition get_total_reserve :: "'w pool \<Rightarrow> int" where
  "get_total_reserve p = saturating_add (get_pool_balance p) (get_backstop_balance p)"

definition get_reserve_ratio_bps :: "'w pool \<Rightarrow> nat" where
  "get_reserve_ratio_bps p =
     (let cov = get_coverage p in
      if cov \<le> 0 then 0
      else i128_as_u32 (min (saturating_div (saturating_mul (get_total_reserve p) 10000) cov) (int u32_max)))"

definition is_solvency_circuit_open :: "'w pool \<Rightarrow> bool" where
  "is_solvency_circuit_open p = unwrap_or (solvency_circuit_open (funds p)) False"

definition reset_solvency_circuit :: "('w, 'm) env_scheme \<Rightarrow> 'w pool \<Rightarrow> 'w pool pool_result" where
  "reset_solvency_circuit e p =
     and_then (require_pool_admin e p) (\<lambda>_.
     if \<not> is_solvency_circuit_open p then Inr p
     else Inr (pool_publish (SolvencyCircuitReset (get_reserve_ratio_bps p) (get_total_reserve p))
       (p\<lparr> funds := (funds p)\<lparr> solvency_circuit_open := None \<rparr> \<rparr>)))"

definition gate_solvency_circuit :: "'w pool \<Rightarrow> unit pool_result" where
  "gate_solvency_circuit p =
     (if is_solvency_circuit_open p then Inl (PoolErr SolvencyCircuitOpen) else Inr ())"

definition trip_circuit_if_breached :: "'w pool \<Rightarrow> 'w pool" where
  "trip_circuit_if_breached p =
     (let min_bps = get_min_reserve_ratio_bps p in
      if min_bps = 0 then p
      else if is_solvency_circuit_open p then p
      else let ratio = get_reserve_ratio_bps p in
        if ratio \<ge> min_bps then p
        else pool_publish (SolvencyCircuitTripped ratio (get_total_reserve p))
          (p\<lparr> funds := (funds p)\<lparr> solvency_circuit_open := Some True \<rparr> \<rparr>))"

section \<open>The backstop\<close>

definition set_backstop_funding_bps :: "('w, 'm) env_scheme \<Rightarrow> nat \<Rightarrow> 'w pool \<Rightarrow> 'w pool pool_result" where
  "set_backstop_funding_bps e bps p =
     and_then (require_pool_admin e p) (\<lambda>_.
     if bps > 10000 then Inl (PoolErr InvalidReserveRatio)
     else Inr (pool_publish (BackBps bps) (p\<lparr> funds := (funds p)\<lparr> backstop_funding_bps := Some bps \<rparr> \<rparr>)))"

definition get_backstop_funding_bps :: "'w pool \<Rightarrow> nat" where
  "get_backstop_funding_bps p = unwrap_or (backstop_funding_bps (funds p)) 0"

definition top_up_backstop :: "('w, 'm) env_scheme \<Rightarrow> address \<Rightarrow> int \<Rightarrow> 'w pool \<Rightarrow> 'w pool pool_result" where
  "top_up_backstop e from a p =
     and_then (require_pool_admin e p) (\<lambda>_.
     if a \<le> 0 then Inl (PoolErr InvalidBackstopAmount)
     else and_then (pool_auth e from) (\<lambda>_.
       and_then (ok_or (checked_add (get_backstop_balance p) a) (PoolErr PoolArithmeticOverflow)) (\<lambda>b.
       let p1 = p\<lparr> funds := (funds p)\<lparr> backstop_balance := Some b \<rparr> \<rparr> in
       and_then (get_token_client p1) (\<lambda>t.
       and_then (pool_transfer e t from (self e) a p1) (\<lambda>p2.
       Inr (pool_publish (BackstopTopUp from a b) p2))))))"

section \<open>Evidence and the review window\<close>

definition submit_claim_evidence :: "('w, 'm) env_scheme \<Rightarrow> nat \<Rightarrow> bytes32 \<Rightarrow> 'w pool \<Rightarrow> 'w pool pool_result" where
  "submit_claim_evidence e n h p =
     and_then (require_pool_admin e p) (\<lambda>_.
     let ev = \<lparr> evidence_hash = h, submitted_at = timestamp e \<rparr> in
     Inr (pool_publish (EvidenceSubmitted n ev) (p\<lparr> book := (book p)\<lparr>
       claim_evidence_at := (claim_evidence_at (book p))(n \<mapsto> ev) \<rparr> \<rparr>)))"

definition set_review_window_seconds :: "('w, 'm) env_scheme \<Rightarrow> nat \<Rightarrow> 'w pool \<Rightarrow> 'w pool pool_result" where
  "set_review_window_seconds e secs p =
     and_then (require_pool_admin e p) (\<lambda>_.
     Inr (pool_publish (RevWnd secs) (p\<lparr> funds := (funds p)\<lparr> review_window_seconds := Some secs \<rparr> \<rparr>)))"

definition get_review_window_seconds :: "'w pool \<Rightarrow> nat" where
  "get_review_window_seconds p = unwrap_or (review_window_seconds (funds p)) 0"

definition enforce_claim_review_gate :: "('w, 'm) env_scheme \<Rightarrow> nat \<Rightarrow> 'w pool \<Rightarrow> unit pool_result" where
  "enforce_claim_review_gate e n p =
     (let window = get_review_window_seconds p in
      if window = 0 then Inr ()
      else and_then (ok_or (claim_evidence_at (book p) n) (PoolErr EvidenceRequired)) (\<lambda>ev.
        if timestamp e < unwrap_or (checked_add_u64 (submitted_at ev) window) u64_max
        then Inl (PoolErr ReviewWindowNotElapsed) else Inr ()))"

section \<open>Defaults per pair\<close>

definition get_pair_default_count :: "address \<Rightarrow> address \<Rightarrow> 'w pool \<Rightarrow> nat" where
  "get_pair_default_count a pyr p = unwrap_or (pair_default_count (book p) (a, pyr)) 0"

definition record_pair_default :: "('w, 'm) env_scheme \<Rightarrow> address \<Rightarrow> address \<Rightarrow> 'w pool \<Rightarrow> 'w pool pool_result" where
  "record_pair_default e a pyr p =
     and_then (require_pool_admin e p) (\<lambda>_.
     and_then (increment_default_count e a p) (\<lambda>p1.
     let c = sat_add_u32 (get_pair_default_count a pyr p1) 1 in
     Inr (pool_publish (PairDefaultRecorded a pyr c) (p1\<lparr> book := (book p1)\<lparr>
       pair_default_count := (pair_default_count (book p1))((a, pyr) \<mapsto> c) \<rparr> \<rparr>))))"

definition get_pair_collusion_flag :: "address \<Rightarrow> address \<Rightarrow> 'w pool \<Rightarrow> bool" where
  "get_pair_collusion_flag a pyr p =
     (let pair = get_pair_default_count a pyr p; total = get_default_count a p in
      if pair < MIN_PAIR_DEFAULTS_TO_FLAG then False
      else if total = 0 then False
      else sat_mul_u64 pair 10000 div total \<ge> COLLUSION_PAIR_SHARE_FLAG_BPS)"

section \<open>The pool interface\<close>

definition mark_enrolled :: "address \<Rightarrow> 'w pool \<Rightarrow> 'w pool pool_result" where
  "mark_enrolled a p =
     (if unwrap_or (enrolled (book p) a) False then Inr p
      else and_then (succ_u32 (unwrap_or (enrolled_count (book p)) 0)) (\<lambda>c.
        Inr (p\<lparr> book := (book p)\<lparr> enrolled := (enrolled (book p))(a \<mapsto> True), enrolled_count := Some c \<rparr> \<rparr>)))"

definition enroll :: "('w, 'm) env_scheme \<Rightarrow> address \<Rightarrow> 'w pool \<Rightarrow> 'w pool pool_result" where
  "enroll e a p =
     and_then (pool_auth e a) (\<lambda>_.
     and_then (mark_enrolled a p) (\<lambda>p1. Inr (pool_publish (Enrolled a) p1)))"

definition is_enrolled :: "address \<Rightarrow> 'w pool \<Rightarrow> bool" where
  "is_enrolled a p = unwrap_or (enrolled (book p) a) False"

text \<open>The premium's split between the liquid balance and the backstop, and its booking.\<close>

definition backstop_share :: "int \<Rightarrow> 'w pool \<Rightarrow> int" where
  "backstop_share a p = saturating_div (saturating_mul a (int (get_backstop_funding_bps p))) 10000"

definition book_liquid :: "int \<Rightarrow> 'w pool \<Rightarrow> 'w pool pool_result" where
  "book_liquid x p =
     and_then (ok_or (checked_add (get_pool_balance p) x) (PoolErr PoolArithmeticOverflow)) (\<lambda>b.
     if (case balance_cap (funds p) of None \<Rightarrow> False | Some cap \<Rightarrow> b > cap)
     then Inl (PoolErr BalanceCapExceeded)
     else Inr (p\<lparr> funds := (funds p)\<lparr> balance := Some b \<rparr> \<rparr>))"

definition book_backstop :: "address \<Rightarrow> int \<Rightarrow> 'w pool \<Rightarrow> 'w pool pool_result" where
  "book_backstop a x p =
     (if x > 0 then
        and_then (ok_or (checked_add (get_backstop_balance p) x) (PoolErr PoolArithmeticOverflow)) (\<lambda>b.
        Inr (pool_publish (BackstopTopUp a x b) (p\<lparr> funds := (funds p)\<lparr> backstop_balance := Some b \<rparr> \<rparr>)))
      else Inr p)"

definition deposit_premium :: "('w, 'm) env_scheme \<Rightarrow> address \<Rightarrow> int \<Rightarrow> 'w pool \<Rightarrow> 'w pool pool_result" where
  "deposit_premium e a x p =
     and_then (pool_auth e a) (\<lambda>_.
     if x \<le> 0 then Inl (PoolErr PoolInvalidAmount)
     else and_then (mark_enrolled a p) (\<lambda>p1.
       and_then (ok_or (checked_add (get_premiums_paid a p1) x) (PoolErr PoolArithmeticOverflow)) (\<lambda>pr.
       let p2 = p1\<lparr> book := (book p1)\<lparr> premiums := (premiums (book p1))(a \<mapsto> pr) \<rparr> \<rparr>;
           share = backstop_share x p2 in
       and_then (book_liquid (saturating_sub x share) p2) (\<lambda>p3.
       and_then (book_backstop a share p3) (\<lambda>p4.
       and_then (get_token_client p4) (\<lambda>t.
       and_then (pool_transfer e t a (self e) x p4) (\<lambda>p5.
       Inr (pool_publish (PremiumPaid a x) p5))))))))"

text \<open>What a claim draws from the liquid balance and from the backstop.\<close>

definition draw_reserve :: "int \<Rightarrow> 'w pool \<Rightarrow> 'w pool pool_result" where
  "draw_reserve x p =
     (let b = get_pool_balance p;
          from_balance = (if x < b then x else b);
          from_backstop = saturating_sub x from_balance in
      and_then (ok_or (checked_sub b from_balance) PoolTrap) (\<lambda>b'.
      let p1 = p\<lparr> funds := (funds p)\<lparr> balance := Some b' \<rparr> \<rparr> in
      if from_backstop > 0 then
        and_then (ok_or (checked_sub (get_backstop_balance p) from_backstop) PoolTrap) (\<lambda>k'.
        Inr (p1\<lparr> funds := (funds p1)\<lparr> backstop_balance := Some k' \<rparr> \<rparr>))
      else Inr p1))"

definition claim_payout :: "address \<Rightarrow> 'w pool \<Rightarrow> int" where
  "claim_payout a p = (if get_tiered_coverage a p < get_total_reserve p then get_tiered_coverage a p
                       else get_total_reserve p)"

definition pool_claim :: "('w, 'm) env_scheme \<Rightarrow> nat \<Rightarrow> address \<Rightarrow> 'w pool \<Rightarrow> (int \<times> 'w pool) pool_result" where
  "pool_claim e n a p =
     and_then (require_pool_admin e p) (\<lambda>_.
     if is_claimed n p then Inl (PoolErr AlreadyClaimed)
     else and_then (gate_solvency_circuit p) (\<lambda>_.
       and_then (enforce_claim_review_gate e n p) (\<lambda>_.
       if get_total_reserve p > 0 then
         let payout = claim_payout a p in
         and_then (draw_reserve payout p) (\<lambda>p1.
         let p2 = p1\<lparr> book := (book p1)\<lparr> claimed := (claimed (book p1))(n \<mapsto> True) \<rparr> \<rparr> in
         and_then (get_token_client p2) (\<lambda>t.
         and_then (pool_transfer e t (self e) a payout p2) (\<lambda>p3.
         Inr (payout, trip_circuit_if_breached (pool_publish (ClaimPaid n payout) p3)))))
       else Inl (PoolErr PoolEmpty))))"

section \<open>Invocations\<close>

datatype pool_call =
    PoolInitialize address int address
  | SetBasePremiumRateBps nat | SetRiskMultiplier int int | SetReputationContract address
  | IncrementDefaultCount address
  | ProposeRiskMultiplier int int | ExecuteRiskMultiplier | CancelRiskMultiplier
  | ProposeCoverageChange int | ExecuteCoverageChange | CancelCoverageChange
  | ProposeAdminTransfer address | ExecuteAdminTransfer | CancelAdminTransfer
  | SetCoverageViaGovernance int | SetPremiumRateViaGovernance nat
  | SetBalanceCap int | SetMinReserveRatioBps nat | ResetSolvencyCircuit
  | SetBackstopFundingBps nat | TopUpBackstop address int
  | SubmitClaimEvidence nat bytes32 | SetReviewWindowSeconds nat | RecordPairDefault address address
  | Enroll address | DepositPremium address int | PoolClaim nat address

text \<open>The state a call leaves, without its return value.\<close>

definition pool_state :: "('a \<times> 'w pool) pool_result \<Rightarrow> 'w pool pool_result" where
  "pool_state m = and_then m (\<lambda>(_, p). Inr p)"

fun pool_exec :: "('w, 'm) env_scheme \<Rightarrow> pool_call \<Rightarrow> 'w pool \<Rightarrow> 'w pool pool_result" where
  "pool_exec e (PoolInitialize adm cov t) p = pool_initialize e adm cov t p"
| "pool_exec e (SetBasePremiumRateBps r) p = set_base_premium_rate_bps e r p"
| "pool_exec e (SetRiskMultiplier n d) p = set_risk_multiplier e n d p"
| "pool_exec e (SetReputationContract c) p = set_reputation_contract e c p"
| "pool_exec e (IncrementDefaultCount a) p = increment_default_count e a p"
| "pool_exec e (ProposeRiskMultiplier n d) p = pool_state (propose_risk_multiplier e n d p)"
| "pool_exec e ExecuteRiskMultiplier p = execute_risk_multiplier e p"
| "pool_exec e CancelRiskMultiplier p = cancel_risk_multiplier e p"
| "pool_exec e (ProposeCoverageChange c) p = pool_state (propose_coverage_change e c p)"
| "pool_exec e ExecuteCoverageChange p = execute_coverage_change e p"
| "pool_exec e CancelCoverageChange p = cancel_coverage_change e p"
| "pool_exec e (ProposeAdminTransfer a) p = pool_state (propose_admin_transfer e a p)"
| "pool_exec e ExecuteAdminTransfer p = execute_admin_transfer e p"
| "pool_exec e CancelAdminTransfer p = cancel_admin_transfer e p"
| "pool_exec e (SetCoverageViaGovernance c) p = set_coverage_via_governance e c p"
| "pool_exec e (SetPremiumRateViaGovernance r) p = set_premium_rate_via_governance e r p"
| "pool_exec e (SetBalanceCap c) p = set_balance_cap e c p"
| "pool_exec e (SetMinReserveRatioBps b) p = set_min_reserve_ratio_bps e b p"
| "pool_exec e ResetSolvencyCircuit p = reset_solvency_circuit e p"
| "pool_exec e (SetBackstopFundingBps b) p = set_backstop_funding_bps e b p"
| "pool_exec e (TopUpBackstop a x) p = top_up_backstop e a x p"
| "pool_exec e (SubmitClaimEvidence n h) p = submit_claim_evidence e n h p"
| "pool_exec e (SetReviewWindowSeconds n) p = set_review_window_seconds e n p"
| "pool_exec e (RecordPairDefault a b) p = record_pair_default e a b p"
| "pool_exec e (Enroll a) p = enroll e a p"
| "pool_exec e (DepositPremium a x) p = deposit_premium e a x p"
| "pool_exec e (PoolClaim n a) p = pool_state (pool_claim e n a p)"

text \<open>
  A history of the pool: invocations, of which a failing one leaves the state as it was, and what
  happens on the ledger outside the pool.
\<close>

datatype 'w pool_action = Invoke "'w pool_env" pool_call | Others "'w \<Rightarrow> 'w"

fun pool_act :: "'w pool_action \<Rightarrow> 'w pool \<Rightarrow> 'w pool" where
  "pool_act (Invoke e c) p = (case pool_exec e c p of Inl _ \<Rightarrow> p | Inr p' \<Rightarrow> p')"
| "pool_act (Others f) p = p\<lparr> pool_wld := f (pool_wld p) \<rparr>"

fun pool_run :: "'w pool_action list \<Rightarrow> 'w pool \<Rightarrow> 'w pool" where
  "pool_run [] p = p"
| "pool_run (x # xs) p = pool_run xs (pool_act x p)"

definition pool_setup :: "mock_ledger pool_action list" where
  "pool_setup =
     [Invoke (pool_call_env 10 (Address 1)) (PoolInitialize (Address 1) 160 (Address 9)),
      Invoke (pool_call_env 11 (Address 1)) (SetBackstopFundingBps 2500),
      Invoke (pool_call_env 12 (Address 4)) (DepositPremium (Address 4) 300)]"

definition holding :: "'w ext \<Rightarrow> 'w \<Rightarrow> address \<Rightarrow> address \<Rightarrow> int" where
  "holding X w t a = unwrap_or (x_balance X w t a) 0"

text \<open>
  What the histories of a pool deployed at \<open>a\<close> consist of: invocations of that contract, whose
  address does not sign them, and outside events that do not take tokens from it.
\<close>

fun permitted :: "'w ext \<Rightarrow> address \<Rightarrow> 'w pool_action \<Rightarrow> bool" where
  "permitted X a (Invoke e c) \<longleftrightarrow> ext e = X \<and> self e = a \<and> a \<notin> auths e"
| "permitted X a (Others f) \<longleftrightarrow> (\<forall>w t. holding X w t a \<le> holding X (f w) t a)"

definition reserve_booked :: "'w pool \<Rightarrow> int" where
  "reserve_booked p = get_pool_balance p + get_backstop_balance p"

text \<open>What the settings keep in range.\<close>

definition settings_ok :: "'w pool \<Rightarrow> bool" where
  "settings_ok p \<longleftrightarrow> 0 \<le> get_coverage p \<and> 0 \<le> unwrap_or (pending_coverage (terms p)) 0 \<and>
     get_backstop_funding_bps p \<le> 10000 \<and>
     (pool_admin (terms p) = None \<longrightarrow> pending_admin (terms p) = None)"

definition pool_ok :: "'w ext \<Rightarrow> address \<Rightarrow> 'w pool \<Rightarrow> bool" where
  "pool_ok X a p \<longleftrightarrow> 0 \<le> get_pool_balance p \<and> 0 \<le> get_backstop_balance p \<and> settings_ok p \<and>
     (pool_admin (terms p) = None \<longleftrightarrow> token_address (funds p) = None) \<and>
     (\<forall>t. 0 \<le> holding X (pool_wld p) t a) \<and>
     (case token_address (funds p) of None \<Rightarrow> reserve_booked p = 0
      | Some t \<Rightarrow> reserve_booked p \<le> holding X (pool_wld p) t a)"

text \<open>A token that transfers also answers a balance query.\<close>

locale sep41_pool = sep41 +
  assumes transfer_answers: "x_transfer X w t as from to a = Some w' \<Longrightarrow> \<exists>v. x_balance X w t b = Some v"
begin

lemma holding_transfer:
  assumes "x_transfer X w t as from to x = Some w'"
  shows "holding X w' t' b = holding X w t' b - (if t' = t \<and> b = from then x else 0) +
    (if t' = t \<and> b = to then x else 0)"
proof (cases "t' = t")
  case True
  obtain v where v: "x_balance X w t b = Some v" using transfer_answers [OF assms] by blast
  show ?thesis using transfer_balance [OF assms v] v True by (simp add: holding_def)
next
  case False
  then show ?thesis using transfer_other [OF assms False] by (simp add: holding_def)
qed

end

interpretation mock_pool: sep41_pool mock_ext
proof
  fix w :: mock_ledger and t as "from" to a w' b
  assume "x_transfer mock_ext w t as from to a = Some w'"
  then show "\<exists>v. x_balance mock_ext w t b = Some v" by (auto simp: mock_ext_transfer mock_ext_balance)
qed

section \<open>Lemmas: the invocations that move no money\<close>

lemma pool_auth_eq_Inr [res_simps]: "pool_auth e a = Inr u \<longleftrightarrow> a \<in> auths e"
  by (simp add: pool_auth_def)

lemma require_pool_admin_eq_Inr [res_simps]:
  "require_pool_admin e p = Inr u \<longleftrightarrow> (\<exists>a. pool_admin (terms p) = Some a \<and> a \<in> auths e)"
  by (auto simp: require_pool_admin_def res_simps split: option.splits)

lemma pool_state_eq_Inr [res_simps]: "pool_state m = Inr p \<longleftrightarrow> (\<exists>x. m = Inr (x, p))"
  by (auto simp: pool_state_def res_simps)

lemma succ_u32_eq_Inr [res_simps]: "succ_u32 n = Inr m \<longleftrightarrow> n < u32_max \<and> m = n + 1"
  by (auto simp: succ_u32_def)

lemma checked_sub_eq_Some [res_simps]:
  "checked_sub a b = Some c \<longleftrightarrow> c = a - b \<and> in_i128 (a - b)"
  by (auto simp: checked_sub_def)

lemma pool_transfer_eq_Inr [res_simps]:
  "pool_transfer e t from to x p = Inr p' \<longleftrightarrow>
     (\<exists>w. x_transfer (ext e) (pool_wld p) t (insert (self e) (auths e)) from to x = Some w \<and>
        p' = p\<lparr> pool_wld := w \<rparr>)"
  by (auto simp: pool_transfer_def split: option.splits)

lemma get_token_client_eq_Inr [res_simps]: "get_token_client p = Inr t \<longleftrightarrow> token_address (funds p) = Some t"
  by (simp add: get_token_client_def res_simps)

lemma pool_publish_simps [simp]:
  "funds (pool_publish ev p) = funds p" "terms (pool_publish ev p) = terms p"
  "book (pool_publish ev p) = book p" "pool_wld (pool_publish ev p) = pool_wld p"
  by (simp_all add: pool_publish_def)

lemmas pool_views = get_pool_balance_def get_backstop_balance_def get_coverage_def
  get_backstop_funding_bps_def

lemmas terms_ops = set_base_premium_rate_bps_def set_risk_multiplier_def set_reputation_contract_def
  increment_default_count_def propose_risk_multiplier_def execute_risk_multiplier_def
  cancel_risk_multiplier_def propose_coverage_change_def execute_coverage_change_def
  cancel_coverage_change_def propose_admin_transfer_def execute_admin_transfer_def
  cancel_admin_transfer_def set_coverage_via_governance_def set_premium_rate_via_governance_def

lemmas funds_ops = set_balance_cap_def set_min_reserve_ratio_bps_def reset_solvency_circuit_def
  set_backstop_funding_bps_def submit_claim_evidence_def set_review_window_seconds_def
  record_pair_default_def enroll_def mark_enrolled_def

fun moves_money :: "pool_call \<Rightarrow> bool" where
  "moves_money (PoolInitialize _ _ _) = True"
| "moves_money (TopUpBackstop _ _) = True"
| "moves_money (DepositPremium _ _) = True"
| "moves_money (PoolClaim _ _) = True"
| "moves_money _ = False"

definition money :: "'w pool \<Rightarrow> (int option \<times> address option \<times> int option \<times> 'w) \<times> (nat \<rightharpoonup> bool)" where
  "money p = ((balance (funds p), token_address (funds p), backstop_balance (funds p), pool_wld p), claimed (book p))"

lemma money_publish [simp]: "money (pool_publish ev p) = money p"
  by (simp add: money_def)

lemma settings_upd [simp]:
  "settings_ok (p\<lparr> book := b \<rparr>) = settings_ok p" "settings_ok (p\<lparr> pool_wld := w \<rparr>) = settings_ok p"
  by (simp_all add: settings_ok_def pool_views)

lemma quiet_money:
  assumes "pool_exec e c p = Inr p'" and "\<not> moves_money c"
  shows "money p' = money p"
  using assms
  by (cases c; clarsimp simp: terms_ops funds_ops res_simps Let_def money_def split: if_splits)

lemma settings_publish [simp]: "settings_ok (pool_publish ev p) = settings_ok p"
  by (simp add: settings_ok_def pool_views)

lemma quiet_settings:
  assumes "pool_exec e c p = Inr p'" and "\<not> moves_money c" and "settings_ok p"
  shows "settings_ok p'"
  using assms
  by (cases c; clarsimp simp: terms_ops funds_ops res_simps Let_def settings_ok_def pool_views split: if_splits)

lemma quiet_admin:
  assumes "pool_exec e c p = Inr p'" and "\<not> moves_money c" and "settings_ok p"
  shows "pool_admin (terms p') = None \<longleftrightarrow> pool_admin (terms p) = None"
  using assms
  by (cases c; clarsimp simp: terms_ops funds_ops res_simps Let_def settings_ok_def split: if_splits)

section \<open>Lemmas: the invocations that move money\<close>

lemma saturating_div_nonneg: "0 \<le> a \<Longrightarrow> 0 < b \<Longrightarrow> 0 \<le> saturating_div a b"
  using clamp_i128_mono [of 0 "quot a b"] by (simp add: saturating_div_def quot_bounds)

lemma clamp_le: "0 \<le> x \<Longrightarrow> clamp_i128 x \<le> x"
  by (simp add: clamp_i128_def width_defs)

lemma clamp_nonneg: "0 \<le> x \<Longrightarrow> 0 \<le> clamp_i128 x"
  using clamp_i128_mono [of 0 x] by simp

lemma quot_share_le:
  assumes "0 \<le> x" and "0 \<le> y" and "y \<le> x * 10000"
  shows "quot y 10000 \<le> x"
  using assms by (simp add: quot_nonneg)

lemma backstop_share_bounds:
  assumes "0 < x" and "settings_ok p"
  shows "0 \<le> backstop_share x p" and "backstop_share x p \<le> x"
proof -
  let ?y = "saturating_mul x (int (get_backstop_funding_bps p))"
  have y: "0 \<le> ?y" using assms(1) by (simp add: saturating_mul_def clamp_nonneg)
  have "?y \<le> x * int (get_backstop_funding_bps p)" using assms(1) by (simp add: saturating_mul_def clamp_le)
  also have "\<dots> \<le> x * 10000" using assms by (intro mult_left_mono) (simp_all add: settings_ok_def)
  finally have q: "quot ?y 10000 \<le> x" using assms(1) y by (intro quot_share_le) simp_all
  show "0 \<le> backstop_share x p" using y by (simp add: backstop_share_def saturating_div_nonneg)
  have "clamp_i128 (quot ?y 10000) \<le> quot ?y 10000" using y by (intro clamp_le) (simp add: quot_bounds)
  with q show "backstop_share x p \<le> x" by (simp add: backstop_share_def saturating_div_def)
qed

lemma tiered_coverage_nonneg:
  assumes "settings_ok p"
  shows "0 \<le> get_tiered_coverage a p"
  using assms
  by (auto simp: get_tiered_coverage_def settings_ok_def Let_def saturating_mul_def clamp_nonneg
      intro!: saturating_div_nonneg)

text \<open>A premium books at most what it transfers.\<close>

lemma book_liquid_eq_Inr:
  assumes "book_liquid x p = Inr p'"
  shows "p' = p\<lparr> funds := (funds p)\<lparr> balance := Some (get_pool_balance p + x) \<rparr> \<rparr>"
  using assms by (auto simp: book_liquid_def res_simps)

lemma book_backstop_money:
  assumes "book_backstop a x p = Inr p'" and "0 \<le> x"
  shows "get_backstop_balance p' = get_backstop_balance p + x" and "get_pool_balance p' = get_pool_balance p"
    and "token_address (funds p') = token_address (funds p)" and "terms p' = terms p" and "book p' = book p"
    and "pool_wld p' = pool_wld p" and "settings_ok p' = settings_ok p"
  using assms by (auto simp: book_backstop_def res_simps pool_views settings_ok_def split: if_splits)

lemma mark_enrolled_frame:
  assumes "mark_enrolled a p = Inr p'"
  shows "funds p' = funds p" "terms p' = terms p" "pool_wld p' = pool_wld p" "claimed (book p') = claimed (book p)"
  using assms by (auto simp: mark_enrolled_def res_simps split: if_splits)

lemma deposit_premium_eq_Inr:
  assumes "deposit_premium e a x p = Inr p'" and "settings_ok p"
  obtains t w where "a \<in> auths e" and "0 < x" and "token_address (funds p) = Some t"
    and "x_transfer (ext e) (pool_wld p) t (insert (self e) (auths e)) a (self e) x = Some w"
    and "pool_wld p' = w" and "token_address (funds p') = Some t" and "terms p' = terms p" and "settings_ok p'"
    and "claimed (book p') = claimed (book p)"
    and "get_pool_balance p' = get_pool_balance p + saturating_sub x (backstop_share x p)"
    and "get_backstop_balance p' = get_backstop_balance p + backstop_share x p"
proof -
  from assms(1) obtain p1 pr p3 p4 t w where x: "a \<in> auths e" "0 < x" and p1: "mark_enrolled a p = Inr p1"
    and p3: "book_liquid (saturating_sub x (backstop_share x (p1\<lparr> book := (book p1)\<lparr> premiums := (premiums (book p1))(a \<mapsto> pr) \<rparr> \<rparr>)))
      (p1\<lparr> book := (book p1)\<lparr> premiums := (premiums (book p1))(a \<mapsto> pr) \<rparr> \<rparr>) = Inr p3"
    and p4: "book_backstop a (backstop_share x (p1\<lparr> book := (book p1)\<lparr> premiums := (premiums (book p1))(a \<mapsto> pr) \<rparr> \<rparr>)) p3 = Inr p4"
    and t: "token_address (funds p4) = Some t"
    and w: "x_transfer (ext e) (pool_wld p4) t (insert (self e) (auths e)) a (self e) x = Some w"
    and p': "p' = pool_publish (PremiumPaid a x) (p4\<lparr> pool_wld := w \<rparr>)"
    by (auto simp: deposit_premium_def res_simps Let_def)
  note f1 = mark_enrolled_frame [OF p1]
  have share: "backstop_share x (p1\<lparr> book := b \<rparr>) = backstop_share x p" for b
    using f1 by (simp add: backstop_share_def get_backstop_funding_bps_def)
  note s = backstop_share_bounds [OF x(2) assms(2)]
  note f3 = book_liquid_eq_Inr [OF p3 [unfolded share]]
  note f4 = book_backstop_money [OF p4 [unfolded share] s(1)]
  show thesis
  proof (rule that [OF x, of t w])
    show "settings_ok p'" using f1 f3 f4 p' assms(2) by (simp add: settings_ok_def pool_views)
  qed (use f1 f3 f4 t w p' in \<open>simp_all add: get_pool_balance_def get_backstop_balance_def\<close>)
qed

lemma top_up_backstop_eq_Inr:
  assumes "top_up_backstop e a x p = Inr p'"
  obtains t w where "a \<in> auths e" and "0 < x" and "token_address (funds p) = Some t"
    and "x_transfer (ext e) (pool_wld p) t (insert (self e) (auths e)) a (self e) x = Some w"
    and "pool_wld p' = w" and "token_address (funds p') = Some t" and "terms p' = terms p"
    and "settings_ok p' = settings_ok p" and "claimed (book p') = claimed (book p)"
    and "get_pool_balance p' = get_pool_balance p"
    and "get_backstop_balance p' = get_backstop_balance p + x"
  using assms by (auto simp: top_up_backstop_def res_simps Let_def pool_views settings_ok_def)

lemma trip_circuit_frame:
  "terms (trip_circuit_if_breached p) = terms p" "book (trip_circuit_if_breached p) = book p"
  "pool_wld (trip_circuit_if_breached p) = pool_wld p" "money (trip_circuit_if_breached p) = money p"
  "settings_ok (trip_circuit_if_breached p) = settings_ok p"
  by (simp_all add: trip_circuit_if_breached_def Let_def money_def settings_ok_def pool_views)

lemma claim_payout_bounds:
  assumes "settings_ok p" and "0 \<le> get_pool_balance p" and "0 \<le> get_backstop_balance p"
  shows "0 \<le> claim_payout a p" and "claim_payout a p \<le> reserve_booked p"
    and "claim_payout a p \<le> get_tiered_coverage a p" and "in_i128 (claim_payout a p)"
proof -
  have r: "0 \<le> get_total_reserve p" "get_total_reserve p \<le> reserve_booked p" "in_i128 (get_total_reserve p)"
    using assms by (simp_all add: get_total_reserve_def saturating_add_def reserve_booked_def clamp_nonneg clamp_le in_i128_clamp)
  note c = tiered_coverage_nonneg [OF assms(1), of a]
  show "0 \<le> claim_payout a p" "claim_payout a p \<le> reserve_booked p" "claim_payout a p \<le> get_tiered_coverage a p"
    using r c by (auto simp: claim_payout_def)
  show "in_i128 (claim_payout a p)"
    using r c in_i128_between [OF in_i128_0 r(3), of "get_tiered_coverage a p"] by (auto simp: claim_payout_def)
qed

text \<open>A draw takes the liquid balance first and the rest from the backstop.\<close>

lemma draw_reserve_eq_Inr:
  assumes "draw_reserve x p = Inr p'" and "0 \<le> x" and "in_i128 x" and "0 \<le> get_pool_balance p"
  shows "get_pool_balance p' = max (get_pool_balance p - x) 0"
    and "get_backstop_balance p' = get_backstop_balance p - max (x - get_pool_balance p) 0"
    and "token_address (funds p') = token_address (funds p)" and "terms p' = terms p" and "book p' = book p"
    and "pool_wld p' = pool_wld p" and "settings_ok p' = settings_ok p"
proof -
  let ?b = "if x < get_pool_balance p then x else get_pool_balance p"
  have s: "saturating_sub x ?b = max (x - get_pool_balance p) 0"
    using in_i128_between [OF in_i128_0 assms(3), of "x - get_pool_balance p"] assms(2,4)
    by (auto simp: saturating_sub_def)
  show "get_pool_balance p' = max (get_pool_balance p - x) 0"
    "get_backstop_balance p' = get_backstop_balance p - max (x - get_pool_balance p) 0"
    "token_address (funds p') = token_address (funds p)" "terms p' = terms p" "book p' = book p"
    "pool_wld p' = pool_wld p" "settings_ok p' = settings_ok p"
    using assms(1) unfolding draw_reserve_def Let_def s
    by (auto simp: res_simps pool_views settings_ok_def split: if_splits)
qed

lemma pool_claim_eq_Inr:
  assumes "pool_claim e n a p = Inr (x, p')" and ok: "settings_ok p" "0 \<le> get_pool_balance p" "0 \<le> get_backstop_balance p"
  obtains t w where "x = claim_payout a p" and "\<not> is_claimed n p" and "\<not> is_solvency_circuit_open p"
    and "token_address (funds p) = Some t"
    and "x_transfer (ext e) (pool_wld p) t (insert (self e) (auths e)) (self e) a x = Some w"
    and "pool_wld p' = w" and "token_address (funds p') = Some t" and "terms p' = terms p" and "settings_ok p'"
    and "claimed (book p') = (claimed (book p))(n \<mapsto> True)"
    and "get_pool_balance p' = max (get_pool_balance p - x) 0"
    and "get_backstop_balance p' = get_backstop_balance p - max (x - get_pool_balance p) 0"
proof -
  let ?x = "claim_payout a p"
  from assms(1) obtain p1 t w where x: "x = ?x" and g: "\<not> is_claimed n p" "\<not> is_solvency_circuit_open p"
    and p1: "draw_reserve ?x p = Inr p1" and t: "token_address (funds p1) = Some t"
    and w: "x_transfer (ext e) (pool_wld p1) t (insert (self e) (auths e)) (self e) a ?x = Some w"
    and p': "p' = trip_circuit_if_breached (pool_publish (ClaimPaid n ?x)
      (p1\<lparr> book := (book p1)\<lparr> claimed := (claimed (book p1))(n \<mapsto> True) \<rparr>, pool_wld := w \<rparr>))"
    by (auto simp: pool_claim_def gate_solvency_circuit_def res_simps Let_def split: if_splits)
  note b = claim_payout_bounds [OF ok, of a]
  note f = draw_reserve_eq_Inr [OF p1 b(1) b(4) ok(2)]
  have m: "money p' = money (p1\<lparr> book := (book p1)\<lparr> claimed := (claimed (book p1))(n \<mapsto> True) \<rparr>, pool_wld := w \<rparr>)"
    by (simp add: p' trip_circuit_frame)
  have ok': "settings_ok p'" using ok(1) f by (simp add: p' trip_circuit_frame)
  show thesis
    by (rule that [of t w]) (use x g t w m f ok' p' in \<open>simp_all add: money_def get_pool_balance_def
      get_backstop_balance_def trip_circuit_frame\<close>)
qed

lemma pool_initialize_eq_Inr:
  assumes "pool_initialize e adm cov t p = Inr p'"
  shows "pool_admin (terms p) = None" and "0 < cov" and "balance (funds p') = Some 0"
    and "backstop_balance (funds p') = backstop_balance (funds p)" and "token_address (funds p') = Some t"
    and "pool_admin (terms p') = Some adm" and "pool_wld p' = pool_wld p" and "claimed (book p') = claimed (book p)"
    and "settings_ok p \<Longrightarrow> settings_ok p'"
  using assms by (auto simp: pool_initialize_def res_simps settings_ok_def pool_views)

section \<open>Lemmas: the pool's invariant\<close>

context sep41_pool
begin

lemma pool_ok_paid_in:
  assumes ok: "pool_ok X a p" and "a \<notin> auths e" and "self e = a" and "ext e = X" and "b \<in> auths e" and "0 < x"
    and t: "token_address (funds p) = Some t" "token_address (funds p') = Some t"
    and w: "x_transfer (ext e) (pool_wld p) t (insert (self e) (auths e)) b (self e) x = Some w" "pool_wld p' = w"
    and "terms p' = terms p" and "settings_ok p'"
    and r: "reserve_booked p' \<le> reserve_booked p + x" "0 \<le> get_pool_balance p'" "0 \<le> get_backstop_balance p'"
  shows "pool_ok X a p'"
proof -
  have ne: "b \<noteq> a" using assms(2,5) by blast
  have h: "holding X w t' a = holding X (pool_wld p) t' a + (if t' = t then x else 0)" for t'
    using holding_transfer [of "pool_wld p" t _ b a x w] w(1) assms(3,4) ne by simp
  show ?thesis using ok t w(2) assms(6,11,12) r h by (auto simp: pool_ok_def)
qed

lemma pool_ok_paid_out:
  assumes ok: "pool_ok X a p" and "self e = a" and "ext e = X" and "0 \<le> x"
    and t: "token_address (funds p) = Some t" "token_address (funds p') = Some t"
    and w: "x_transfer (ext e) (pool_wld p) t (insert (self e) (auths e)) (self e) b x = Some w" "pool_wld p' = w"
    and "terms p' = terms p" and "settings_ok p'"
    and r: "reserve_booked p' = reserve_booked p - x" "0 \<le> get_pool_balance p'" "0 \<le> get_backstop_balance p'"
  shows "pool_ok X a p'"
proof -
  have h: "holding X w t' a = holding X (pool_wld p) t' a - (if t' = t \<and> b \<noteq> a then x else 0)" for t'
    using holding_transfer [of "pool_wld p" t _ a b x w] w(1) assms(2,3) by auto
  have "0 \<le> reserve_booked p'" using r(2,3) by (simp add: reserve_booked_def)
  then show ?thesis using ok t w(2) assms(4,9,10) r h by (fastforce simp: pool_ok_def)
qed

lemma pool_ok_quiet:
  assumes "pool_ok X a p" and "pool_exec e c p = Inr p'" and "\<not> moves_money c"
  shows "pool_ok X a p'"
proof -
  have "money p' = money p" "settings_ok p'" "pool_admin (terms p') = None \<longleftrightarrow> pool_admin (terms p) = None"
    using quiet_money [OF assms(2,3)] quiet_settings [OF assms(2,3)] quiet_admin [OF assms(2,3)] assms(1)
    by (simp_all add: pool_ok_def)
  moreover from this(1) have "get_pool_balance p' = get_pool_balance p" "get_backstop_balance p' = get_backstop_balance p"
    "token_address (funds p') = token_address (funds p)" "pool_wld p' = pool_wld p"
    by (simp_all add: money_def get_pool_balance_def get_backstop_balance_def)
  ultimately show ?thesis using assms(1)
    by (cases "token_address (funds p)") (simp_all add: pool_ok_def reserve_booked_def)
qed

lemma pool_ok_initialize:
  assumes ok: "pool_ok X a p" and "pool_initialize e adm cov t p = Inr p'"
  shows "pool_ok X a p'"
proof -
  note i = pool_initialize_eq_Inr [OF assms(2)]
  have none: "token_address (funds p) = None" using ok i(1) by (simp add: pool_ok_def)
  then have "get_backstop_balance p = 0" using ok by (simp add: pool_ok_def reserve_booked_def)
  then have "get_pool_balance p' = 0" "get_backstop_balance p' = 0"
    using i(3,4) by (simp_all add: get_pool_balance_def get_backstop_balance_def)
  then show ?thesis using ok i by (simp add: pool_ok_def reserve_booked_def)
qed

lemma pool_ok_others:
  assumes ok: "pool_ok X a p" and "permitted X a (Others f)"
  shows "pool_ok X a (p\<lparr> pool_wld := f (pool_wld p) \<rparr>)"
proof -
  have f: "holding X (pool_wld p) t a \<le> holding X (f (pool_wld p)) t a" for t using assms(2) by simp
  have "0 \<le> holding X (f (pool_wld p)) t a" for t using ok f [of t] order_trans by (auto simp: pool_ok_def)
  moreover have "reserve_booked p \<le> holding X (f (pool_wld p)) t a" if "token_address (funds p) = Some t" for t
    using ok f [of t] that by (simp add: pool_ok_def)
  moreover have "get_pool_balance (p\<lparr> pool_wld := v \<rparr>) = get_pool_balance p"
    "get_backstop_balance (p\<lparr> pool_wld := v \<rparr>) = get_backstop_balance p" for v
    by (simp_all add: get_pool_balance_def get_backstop_balance_def)
  ultimately show ?thesis using ok by (simp add: pool_ok_def reserve_booked_def split: option.splits)
qed

lemma pool_ok_exec:
  assumes ok: "pool_ok X a p" and e: "ext e = X" "self e = a" "a \<notin> auths e" and c: "pool_exec e c p = Inr p'"
  shows "pool_ok X a p'"
proof (cases "moves_money c")
  case False
  then show ?thesis using pool_ok_quiet [OF ok c] by blast
next
  case True
  have s: "settings_ok p" "0 \<le> get_pool_balance p" "0 \<le> get_backstop_balance p" using ok by (simp_all add: pool_ok_def)
  from True show ?thesis
  proof (cases c rule: moves_money.cases)
    case (1 adm cov t)
    then have i: "pool_initialize e adm cov t p = Inr p'" using c by simp
    show ?thesis by (rule pool_ok_initialize [OF ok i])
  next
    case (2 b x)
    then have i: "top_up_backstop e b x p = Inr p'" using c by simp
    show ?thesis
    proof (rule top_up_backstop_eq_Inr [OF i])
      fix t w
      assume d: "b \<in> auths e" "0 < x" "token_address (funds p) = Some t"
        "x_transfer (ext e) (pool_wld p) t (insert (self e) (auths e)) b (self e) x = Some w"
        "pool_wld p' = w" "token_address (funds p') = Some t" "terms p' = terms p" "settings_ok p' = settings_ok p"
        "get_pool_balance p' = get_pool_balance p" "get_backstop_balance p' = get_backstop_balance p + x"
      then show ?thesis using s
        by (intro pool_ok_paid_in [OF ok e(3,2,1) d(1,2,3,6,4,5,7)]) (simp_all add: reserve_booked_def)
    qed
  next
    case (3 b x)
    then have i: "deposit_premium e b x p = Inr p'" using c by simp
    show ?thesis
    proof (rule deposit_premium_eq_Inr [OF i s(1)])
      fix t w
      assume d: "b \<in> auths e" "0 < x" "token_address (funds p) = Some t"
        "x_transfer (ext e) (pool_wld p) t (insert (self e) (auths e)) b (self e) x = Some w"
        "pool_wld p' = w" "token_address (funds p') = Some t" "terms p' = terms p" "settings_ok p'"
        "get_pool_balance p' = get_pool_balance p + saturating_sub x (backstop_share x p)"
        "get_backstop_balance p' = get_backstop_balance p + backstop_share x p"
      note b = backstop_share_bounds [OF d(2) s(1)]
      have "saturating_sub x (backstop_share x p) \<le> x - backstop_share x p" "0 \<le> saturating_sub x (backstop_share x p)"
        using b by (simp_all add: saturating_sub_def clamp_le clamp_nonneg)
      then show ?thesis using s b d
        by (intro pool_ok_paid_in [OF ok e(3,2,1) d(1,2,3,6,4,5,7,8)]) (simp_all add: reserve_booked_def)
    qed
  next
    case (4 n b)
    then obtain x where i: "pool_claim e n b p = Inr (x, p')" using c by (auto simp: res_simps)
    show ?thesis
    proof (rule pool_claim_eq_Inr [OF i s])
      fix t w
      assume d: "x = claim_payout b p" "token_address (funds p) = Some t"
        "x_transfer (ext e) (pool_wld p) t (insert (self e) (auths e)) (self e) b x = Some w"
        "pool_wld p' = w" "token_address (funds p') = Some t" "terms p' = terms p" "settings_ok p'"
        "get_pool_balance p' = max (get_pool_balance p - x) 0"
        "get_backstop_balance p' = get_backstop_balance p - max (x - get_pool_balance p) 0"
      have x: "0 \<le> x" "x \<le> reserve_booked p" using claim_payout_bounds [OF s] d(1) by simp_all
      show ?thesis using s x d(8,9)
        by (intro pool_ok_paid_out [OF ok e(2,1) x(1) d(2,5,3,4,6,7)]) (auto simp: reserve_booked_def)
    qed
  qed simp_all
qed

lemma pool_ok_run:
  assumes "pool_ok X a p" and "\<forall>act \<in> set acts. permitted X a act"
  shows "pool_ok X a (pool_run acts p)"
  using assms
proof (induction acts arbitrary: p)
  case (Cons act acts)
  have "pool_ok X a (pool_act act p)"
  proof (cases act)
    case (Invoke e c)
    then show ?thesis using Cons.prems pool_ok_exec [of a p e c] by (auto split: sum.split)
  next
    case (Others f)
    then show ?thesis using Cons.prems pool_ok_others [of a p f] by simp
  qed
  then show ?case using Cons by simp
qed simp

end

section \<open>Lemmas: claims stay claimed, the administrator waits\<close>

lemmas money_ops = pool_initialize_def top_up_backstop_def deposit_premium_def book_liquid_def book_backstop_def
  mark_enrolled_def pool_claim_def draw_reserve_def

lemma exec_keeps_claimed:
  assumes "pool_exec e c p = Inr p'" and "is_claimed n p"
  shows "is_claimed n p'"
proof (cases "moves_money c")
  case False
  then show ?thesis using quiet_money [OF assms(1)] assms(2) by (simp add: money_def is_claimed_def)
next
  case True
  then show ?thesis using assms
    by (cases c rule: moves_money.cases)
      (auto simp: money_ops res_simps Let_def is_claimed_def trip_circuit_frame split: if_splits)
qed

lemma run_keeps_claimed: "is_claimed n p \<Longrightarrow> is_claimed n (pool_run acts p)"
proof (induction acts arbitrary: p)
  case (Cons act acts)
  have "is_claimed n (pool_act act p)"
    using Cons.prems exec_keeps_claimed by (cases act) (auto simp: is_claimed_def split: sum.split)
  then show ?case using Cons.IH by simp
qed simp

lemma claimed_rejects:
  assumes "is_claimed n p"
  shows "\<exists>f. pool_claim e n a p = Inl f"
  using assms by (auto simp: pool_claim_def and_then_def split: sum.split)

lemma money_terms:
  assumes "pool_exec e c p = Inr p'" and "moves_money c" and "pool_admin (terms p) \<noteq> None"
  shows "terms p' = terms p"
  using assms
  by (cases c rule: moves_money.cases)
    (auto simp: money_ops res_simps Let_def trip_circuit_frame split: if_splits)

text \<open>The administrator is \<open>adm\<close> and no transfer can be executed before \<open>T\<close>.\<close>

definition admin_until :: "nat \<Rightarrow> address \<Rightarrow> 'w pool \<Rightarrow> bool" where
  "admin_until T adm p \<longleftrightarrow> pool_admin (terms p) = Some adm \<and>
     (case admin_eta (terms p) of None \<Rightarrow> True | Some eta \<Rightarrow> T \<le> eta)"

lemma admin_until_exec:
  assumes "pool_exec e c p = Inr p'" and "admin_until T adm p" and "timestamp e < T" and "T \<le> timelock_eta e"
  shows "admin_until T adm p'"
proof (cases "moves_money c")
  case True
  then show ?thesis using money_terms [OF assms(1)] assms(2) by (simp add: admin_until_def)
next
  case False
  then show ?thesis using assms
    by (cases c; clarsimp simp: terms_ops funds_ops res_simps Let_def admin_until_def split: if_splits)
qed

lemma admin_until_run:
  assumes "admin_until T adm p"
    and "\<And>e c. Invoke e c \<in> set acts \<Longrightarrow> timestamp e < T \<and> T \<le> timelock_eta e"
  shows "admin_until T adm (pool_run acts p)"
  using assms
proof (induction acts arbitrary: p)
  case (Cons act acts)
  have later: "timestamp e < T \<and> T \<le> timelock_eta e" if "Invoke e c \<in> set acts" for e c
    using Cons.prems(2) [of e c] that by simp
  have "admin_until T adm (pool_act act p)"
  proof (cases act)
    case (Invoke e c)
    then show ?thesis using Cons.prems(1) Cons.prems(2) [of e c] admin_until_exec [of e c p]
      by (auto split: sum.split)
  next
    case (Others f)
    then show ?thesis using Cons.prems(1) by (simp add: admin_until_def)
  qed
  then show ?case using Cons.IH [OF _ later] by simp
qed simp

text \<open>A transfer to \<open>b\<close> is pending with its announced time; only an admin-transfer call ends that.\<close>

definition transfer_open :: "nat \<Rightarrow> address \<Rightarrow> address \<Rightarrow> 'w pool \<Rightarrow> bool" where
  "transfer_open eta adm b p \<longleftrightarrow> pool_admin (terms p) = Some adm \<and> pending_admin (terms p) = Some b \<and>
     admin_eta (terms p) = Some eta"

definition leaves_transfer :: "nat \<Rightarrow> 'w pool_env \<Rightarrow> pool_call \<Rightarrow> bool" where
  "leaves_transfer eta e c \<longleftrightarrow> c \<noteq> CancelAdminTransfer \<and> (\<forall>a. c \<noteq> ProposeAdminTransfer a) \<and>
     (c = ExecuteAdminTransfer \<longrightarrow> timestamp e < eta)"

lemma transfer_open_exec:
  assumes "pool_exec e c p = Inr p'" and "transfer_open eta adm b p" and "leaves_transfer eta e c"
  shows "transfer_open eta adm b p'"
proof (cases "moves_money c")
  case True
  then show ?thesis using money_terms [OF assms(1)] assms(2) by (simp add: transfer_open_def)
next
  case False
  then show ?thesis using assms
    by (cases c; clarsimp simp: terms_ops funds_ops res_simps Let_def transfer_open_def leaves_transfer_def
        split: if_splits)
qed

lemma transfer_open_run:
  assumes "transfer_open eta adm b p"
    and "\<And>e c. Invoke e c \<in> set acts \<Longrightarrow> leaves_transfer eta e c"
  shows "transfer_open eta adm b (pool_run acts p)"
  using assms
proof (induction acts arbitrary: p)
  case (Cons act acts)
  have "transfer_open eta adm b (pool_act act p)"
  proof (cases act)
    case (Invoke e c)
    then show ?thesis using Cons.prems(1) Cons.prems(2) [of e c] transfer_open_exec [of e c p]
      by (auto split: sum.split)
  next
    case (Others f)
    then show ?thesis using Cons.prems(1) by (simp add: transfer_open_def)
  qed
  then show ?case using Cons.IH Cons.prems(2) by simp
qed simp

lemma timelock_eta_mono: "timestamp e \<le> timestamp e' \<Longrightarrow> timelock_eta e \<le> timelock_eta e'"
  by (simp add: timelock_eta_def sat_add_u64_def)

lemma fresh_pool_ok: "(\<And>t. 0 \<le> holding X w t a) \<Longrightarrow> pool_ok X a (fresh_pool w)"
  by (simp add: pool_ok_def fresh_pool_def settings_ok_def pool_views reserve_booked_def)

section \<open>Properties\<close>

lemma pool_call_env_simps [simp]:
  "timestamp (pool_call_env ts a) = ts" "self (pool_call_env ts a) = Address 0"
  "auths (pool_call_env ts a) = {a}" "ext (pool_call_env ts a) = mock_ext"
  by (simp_all add: pool_call_env_def call_env_def env.extend_def)

lemma pool_ledger_holding: "0 \<le> holding mock_ext pool_ledger t a"
  by (simp add: holding_def mock_ext_simps pool_ledger_def mock_balance_def)

lemma pool_setup_permitted: "\<forall>act \<in> set pool_setup. permitted mock_ext (Address 0) act"
  by (simp add: pool_setup_def)

text \<open>The state after the example's three invocations.\<close>

lemma pool_setup_state:
  "pool_run pool_setup (fresh_pool pool_ledger) = \<lparr>
     funds = (funds (fresh_pool pool_ledger))\<lparr> balance := Some 225, coverage := Some 160,
       token_address := Some (Address 9), backstop_balance := Some 75, backstop_funding_bps := Some 2500 \<rparr>,
     terms = (terms (fresh_pool pool_ledger))\<lparr> pool_admin := Some (Address 1) \<rparr>,
     book = (book (fresh_pool pool_ledger))\<lparr> enrolled := [Address 4 \<mapsto> True], premiums := [Address 4 \<mapsto> 300],
       initialized_at := Some 10, enrolled_count := Some 1 \<rparr>,
     pool_wld = [Address 9 \<mapsto> \<lparr> mock_balances = [Address 4 \<mapsto> 700, Address 5 \<mapsto> 1000, Address 0 \<mapsto> 300],
       fail_next = False, mock_frozen = Map.empty \<rparr>],
     pool_evs = [PoolInit (Address 1) 160, BackBps 2500, BackstopTopUp (Address 4) 75 75, PremiumPaid (Address 4) 300] \<rparr>"
  by (simp add: pool_setup_def fresh_pool_def pool_ledger_def money_ops funds_ops pool_auth_def require_pool_admin_def
      succ_u32_def pool_publish_def pool_views get_premiums_paid_def arith_defs width_defs backstop_share_def saturating_div_def
      quot_def get_token_client_def pool_transfer_def mock_ext_simps mock_transfer_def mock_balance_def fun_upd_twist
      cong: run_cong)

text \<open>
  C34: over a SEP-41 token, whatever sequence of invocations and outside events a pool has gone
  through since its deployment, its liquid balance and its backstop are not negative and together
  are covered by the tokens it holds.
\<close>

theorem pool_reserves_backed:
  assumes "sep41_pool X" and "\<forall>t. 0 \<le> holding X w t a" and "\<forall>act \<in> set acts. permitted X a act"
  shows "0 \<le> get_pool_balance (pool_run acts (fresh_pool w)) \<and>
    0 \<le> get_backstop_balance (pool_run acts (fresh_pool w)) \<and>
    (case token_address (funds (pool_run acts (fresh_pool w))) of
       None \<Rightarrow> reserve_booked (pool_run acts (fresh_pool w)) = 0
     | Some t \<Rightarrow> reserve_booked (pool_run acts (fresh_pool w)) \<le>
         holding X (pool_wld (pool_run acts (fresh_pool w))) t a)"
  using sep41_pool.pool_ok_run [OF assms(1) fresh_pool_ok assms(3)] assms(2) by (simp add: pool_ok_def)

theorem pool_reserves_backed_witness:
  "reserve_booked (pool_run pool_setup (fresh_pool pool_ledger)) = 300 \<and>
   (case token_address (funds (pool_run pool_setup (fresh_pool pool_ledger))) of
      None \<Rightarrow> False
    | Some t \<Rightarrow> t = Address 9 \<and> 300 \<le>
        holding mock_ext (pool_wld (pool_run pool_setup (fresh_pool pool_ledger))) t (Address 0))"
  using pool_reserves_backed [OF mock_pool.sep41_pool_axioms _ pool_setup_permitted, of pool_ledger] pool_ledger_holding
  by (simp add: pool_setup_state reserve_booked_def pool_views)

text \<open>
  C35: in every state a pool can reach, a successful claim pays a non-negative amount within the
  tiered coverage, draws it from the liquid balance first and from the backstop only for what is
  missing, and after any further history every other claim of the same invoice fails.
\<close>

theorem claim_pays_once:
  assumes "sep41_pool X" and "\<forall>t. 0 \<le> holding X w t a" and "\<forall>act \<in> set acts. permitted X a act"
    and "p = pool_run acts (fresh_pool w)" and "pool_claim e n b p = Inr (x, p1)"
  shows "0 \<le> x \<and> x \<le> get_tiered_coverage b p \<and> x \<le> reserve_booked p \<and>
    get_pool_balance p1 = max (get_pool_balance p - x) 0 \<and>
    get_backstop_balance p1 = get_backstop_balance p - max (x - get_pool_balance p) 0 \<and>
    (\<exists>f. pool_claim e' n b' (pool_run acts' p1) = Inl f)"
proof -
  have "pool_ok X a p" using sep41_pool.pool_ok_run [OF assms(1) fresh_pool_ok assms(3)] assms(2,4) by simp
  then have ok: "settings_ok p" "0 \<le> get_pool_balance p" "0 \<le> get_backstop_balance p"
    by (simp_all add: pool_ok_def)
  show ?thesis
  proof (rule pool_claim_eq_Inr [OF assms(5) ok], goal_cases)
    case (1 t w)
    have "is_claimed n p1" using 1(10) by (simp add: is_claimed_def)
    then show ?case using 1 claim_payout_bounds [OF ok, of b] claimed_rejects [OF run_keeps_claimed] by simp
  qed
qed

theorem claim_pays_once_witness:
  "case pool_claim (pool_call_env 20 (Address 1)) 7 (Address 4) (pool_run pool_setup (fresh_pool pool_ledger)) of
     Inl _ \<Rightarrow> False
   | Inr (x, p1) \<Rightarrow> x = 240 \<and> get_pool_balance p1 = 0 \<and> get_backstop_balance p1 = 60 \<and>
       (\<exists>f. pool_claim (pool_call_env 21 (Address 1)) 7 (Address 5) (pool_run pool_setup p1) = Inl f)"
proof -
  let ?p = "pool_run pool_setup (fresh_pool pool_ledger)"
  obtain p1 where c: "pool_claim (pool_call_env 20 (Address 1)) 7 (Address 4) ?p = Inr (240, p1)"
    unfolding pool_setup_state
    by (simp add: fresh_pool_def pool_claim_def require_pool_admin_def pool_auth_def is_claimed_def
        gate_solvency_circuit_def is_solvency_circuit_open_def enforce_claim_review_gate_def get_review_window_seconds_def
        get_total_reserve_def claim_payout_def get_tiered_coverage_def get_premiums_paid_def pool_views draw_reserve_def
        arith_defs width_defs saturating_div_def quot_def get_token_client_def pool_transfer_def mock_ext_simps
        mock_transfer_def mock_balance_def cong: run_cong)
  note t = claim_pays_once [OF mock_pool.sep41_pool_axioms _ pool_setup_permitted refl c,
      of "pool_call_env 21 (Address 1)" "Address 5" pool_setup]
  have "get_pool_balance ?p = 225" "get_backstop_balance ?p = 75" by (simp_all add: pool_setup_state pool_views)
  then show ?thesis using t pool_ledger_holding c by simp
qed

text \<open>
  C36: after an admin transfer has been proposed nothing that happens before the announced time,
  three days later, changes the administrator. Unless the proposal is cancelled or replaced, it
  survives every history, and from the announced time on anyone can complete the transfer.
\<close>

theorem admin_transfer_timelocked:
  assumes "propose_admin_transfer e b p = Inr (eta, p1)"
    and "\<forall>e' c. Invoke e' c \<in> set acts \<longrightarrow> timestamp e \<le> timestamp e' \<and> timestamp e' < eta"
    and "\<forall>e' c. Invoke e' c \<in> set later \<longrightarrow> c \<noteq> CancelAdminTransfer \<and> (\<forall>a. c \<noteq> ProposeAdminTransfer a) \<and>
      (c = ExecuteAdminTransfer \<longrightarrow> timestamp e' < eta)"
    and "eta \<le> timestamp e''"
  shows "eta = min (timestamp e + 259200) u64_max \<and>
    pool_admin (terms (pool_run acts p1)) = pool_admin (terms p) \<and>
    (\<exists>p2. execute_admin_transfer e'' (pool_run later p1) = Inr p2 \<and> pool_admin (terms p2) = Some b)"
proof -
  from assms(1) obtain adm where p: "pool_admin (terms p) = Some adm" "eta = timelock_eta e"
    and p1: "pool_admin (terms p1) = Some adm" "pending_admin (terms p1) = Some b" "admin_eta (terms p1) = Some eta"
    by (auto simp: propose_admin_transfer_def res_simps Let_def)
  have "admin_until eta adm (pool_run acts p1)"
    by (rule admin_until_run) (use p p1 assms(2) timelock_eta_mono in \<open>auto simp: admin_until_def\<close>)
  moreover have "transfer_open eta adm b (pool_run later p1)"
    by (rule transfer_open_run) (use p1 assms(3) in \<open>auto simp: transfer_open_def leaves_transfer_def\<close>)
  then have "\<exists>p2. execute_admin_transfer e'' (pool_run later p1) = Inr p2 \<and> pool_admin (terms p2) = Some b"
    using assms(4) by (simp add: execute_admin_transfer_def transfer_open_def)
  ultimately show ?thesis using p
    by (simp add: admin_until_def timelock_eta_def sat_add_u64_def TIMELOCK_DELAY_SECONDS_def)
qed

theorem admin_transfer_timelocked_witness:
  "case propose_admin_transfer (pool_call_env 20 (Address 1)) (Address 6) (pool_run pool_setup (fresh_pool pool_ledger)) of
     Inl _ \<Rightarrow> False
   | Inr (eta, p1) \<Rightarrow> eta = 259220 \<and>
       pool_admin (terms (pool_run [Invoke (pool_call_env 259219 (Address 7)) ExecuteAdminTransfer] p1)) = Some (Address 1) \<and>
       (\<exists>p2. execute_admin_transfer (pool_call_env 259220 (Address 7))
          (pool_run [Invoke (pool_call_env 300000 (Address 1)) (SetBalanceCap 5)] p1) = Inr p2 \<and>
        pool_admin (terms p2) = Some (Address 6))"
proof -
  let ?p = "pool_run pool_setup (fresh_pool pool_ledger)"
  obtain p1 where c: "propose_admin_transfer (pool_call_env 20 (Address 1)) (Address 6) ?p = Inr (259220, p1)"
    by (simp add: propose_admin_transfer_def require_pool_admin_def pool_auth_def pool_setup_state timelock_eta_def
        sat_add_u64_def TIMELOCK_DELAY_SECONDS_def width_defs)
  show ?thesis
    using admin_transfer_timelocked [OF c, of "[Invoke (pool_call_env 259219 (Address 7)) ExecuteAdminTransfer]"
        "[Invoke (pool_call_env 300000 (Address 1)) (SetBalanceCap 5)]" "pool_call_env 259220 (Address 7)"] c
    by (simp add: pool_setup_state)
qed

end
