(* ===== verification/ClaimPriority.thy ===== *)
theory ClaimPriority
  imports InsurancePool
begin

text \<open>
  The allocation of a pool that cannot cover every claim
  (src/contracts/insurance_pool/src/claim_prioritization.rs): pro-rata, risk-weighted and
  first-in-first-out. Rust's \<open>sort_by\<close> and \<open>sort_by_key\<close> are stable, as \<open>sort_key\<close> is; the sum of
  the premiums and a division by zero trap.

  Shown here: the invariants P1 and P2 of the module on every input with sane claims, that such
  an allocation never fails, and that first-in-first-out hands out everything that is claimed or
  everything there is.
\<close>

datatype payout_strategy = ProRata | RiskWeighted | FIFO

record pending_claim =
  claim_lp :: address
  claim_invoice_id :: nat
  claim_timestamp :: nat
  lp_total_premiums :: int
  lp_default_count :: int
  coverage_cap :: int

datatype claim_prioritization_error = InvalidPoolBalance | PayoutOverflow | NoClaimsToPrioritize

datatype prioritization_failure = PrioErr claim_prioritization_error | PrioTrap

type_synonym 'a prio_result = "prioritization_failure + 'a"

definition calculate_pro_rata :: "pending_claim \<Rightarrow> int \<Rightarrow> int \<Rightarrow> int" where
  "calculate_pro_rata c base_payout total_premiums =
     (if total_premiums \<le> 0 then 0
      else saturating_div (saturating_mul base_payout (lp_total_premiums c)) total_premiums)"

definition calculate_risk_weighted :: "pending_claim \<Rightarrow> int \<Rightarrow> int \<Rightarrow> int prio_result" where
  "calculate_risk_weighted c base_payout total_premiums =
     (let pro_rata = calculate_pro_rata c base_payout total_premiums;
          divisor = saturating_add 100 (lp_default_count c) in
      if divisor = 0 then Inl PrioTrap
      else Inr (saturating_div (saturating_mul pro_rata 100) divisor))"

definition calculate_payout :: "pending_claim \<Rightarrow> payout_strategy \<Rightarrow> int \<Rightarrow> int \<Rightarrow> int prio_result" where
  "calculate_payout c strategy pool_balance total_premiums =
     (if pool_balance < 0 then Inl (PrioErr InvalidPoolBalance)
      else let base_payout = min (coverage_cap c) pool_balance in
        if base_payout \<le> 0 then Inr 0
        else and_then (case strategy of
               ProRata \<Rightarrow> Inr (calculate_pro_rata c base_payout total_premiums)
             | RiskWeighted \<Rightarrow> calculate_risk_weighted c base_payout total_premiums
             | FIFO \<Rightarrow> Inr base_payout) (\<lambda>payout. Inr (max payout 0)))"

fun sum_premiums :: "pending_claim list \<Rightarrow> int \<Rightarrow> int prio_result" where
  "sum_premiums [] acc = Inr acc"
| "sum_premiums (c # cs) acc =
     and_then (ok_or (checked_add acc (lp_total_premiums c)) PrioTrap) (sum_premiums cs)"

definition sort_claims :: "payout_strategy \<Rightarrow> pending_claim list \<Rightarrow> pending_claim list" where
  "sort_claims strategy cs =
     (case strategy of FIFO \<Rightarrow> sort_key claim_timestamp cs
      | _ \<Rightarrow> sort_key (\<lambda>c. - lp_total_premiums c) cs)"

fun allocate_loop :: "payout_strategy \<Rightarrow> int \<Rightarrow> pending_claim list \<Rightarrow> int \<Rightarrow> (address \<times> int) list \<Rightarrow>
    (address \<times> int) list prio_result" where
  "allocate_loop strategy tot [] remaining allocations = Inr allocations"
| "allocate_loop strategy tot (c # cs) remaining allocations =
     (if remaining \<le> 0 then Inr allocations
      else and_then (calculate_payout c strategy remaining tot) (\<lambda>payout.
        let actual = min payout remaining in
        if actual > 0
        then allocate_loop strategy tot cs (saturating_sub remaining actual) (allocations @ [(claim_lp c, actual)])
        else allocate_loop strategy tot cs remaining allocations))"

definition allocate_payouts :: "pending_claim list \<Rightarrow> payout_strategy \<Rightarrow> int \<Rightarrow> (address \<times> int) list prio_result" where
  "allocate_payouts claims strategy pool_balance =
     (if pool_balance < 0 then Inl (PrioErr InvalidPoolBalance)
      else if claims = [] then Inr []
      else and_then (sum_premiums claims 0) (\<lambda>tot.
        allocate_loop strategy tot (sort_claims strategy claims) pool_balance []))"

section \<open>Lemmas\<close>

lemma set_sort_claims [simp]: "set (sort_claims st cs) = set cs"
  by (simp add: sort_claims_def split: payout_strategy.split)

lemma mset_sort_claims [simp]: "mset (sort_claims st cs) = mset cs"
  by (simp add: sort_claims_def split: payout_strategy.split)

text \<open>Claims with non-negative premiums and default counts whose premiums add up in an i128.\<close>

definition claims_ok :: "pending_claim list \<Rightarrow> bool" where
  "claims_ok cs \<longleftrightarrow> list_all (\<lambda>c. 0 \<le> lp_total_premiums c \<and> 0 \<le> lp_default_count c) cs \<and>
     sum_list (map lp_total_premiums cs) \<le> i128_max"

lemma sum_premiums_ok:
  assumes "list_all (\<lambda>c. 0 \<le> lp_total_premiums c \<and> 0 \<le> lp_default_count c) cs" and "0 \<le> acc"
    and "acc + sum_list (map lp_total_premiums cs) \<le> i128_max"
  shows "sum_premiums cs acc = Inr (acc + sum_list (map lp_total_premiums cs))"
  using assms
proof (induction cs arbitrary: acc)
  case (Cons c cs)
  have "0 \<le> sum_list (map lp_total_premiums cs)"
    using Cons.prems(1) by (intro sum_list_nonneg) (auto simp: list_all_iff)
  then have "in_i128 (acc + lp_total_premiums c)" using Cons.prems by (simp add: in_i128_def width_defs)
  then show ?case using Cons by (simp add: checked_add_def algebra_simps)
qed simp

lemma premium_le_total:
  assumes "claims_ok cs" and "c \<in> set cs"
  shows "lp_total_premiums c \<le> sum_list (map lp_total_premiums cs)"
  using assms by (intro member_le_sum_list) (auto simp: claims_ok_def list_all_iff)

lemma quot_mult_le:
  assumes "0 \<le> y" and "0 < d" and "y \<le> b * d"
  shows "quot y d \<le> b"
proof -
  have "y div d \<le> b * d div d" using assms by (intro zdiv_mono1) simp_all
  then show ?thesis using assms by (simp add: quot_nonneg)
qed

lemma scaled_share:
  assumes "0 \<le> b" and "0 \<le> n" and "n \<le> d" and "0 < d"
  shows "0 \<le> saturating_div (saturating_mul b n) d" and "saturating_div (saturating_mul b n) d \<le> b"
proof -
  let ?y = "saturating_mul b n"
  have y: "0 \<le> ?y" "?y \<le> b * n" using assms by (simp_all add: saturating_mul_def clamp_nonneg clamp_le)
  then show "0 \<le> saturating_div ?y d" using assms by (simp add: saturating_div_nonneg)
  have "?y \<le> b * d" using y(2) assms by (meson mult_left_mono order_trans)
  then have "quot ?y d \<le> b" using y assms by (intro quot_mult_le) simp_all
  then show "saturating_div ?y d \<le> b"
    using y assms clamp_le [of "quot ?y d"] by (simp add: saturating_div_def quot_bounds)
qed

text \<open>What one claim is paid: nothing fails, and the payout is within the cap and the balance.\<close>

lemma pro_rata_bounds:
  assumes "0 \<le> b" and "0 \<le> lp_total_premiums c" and "lp_total_premiums c \<le> tot"
  shows "0 \<le> calculate_pro_rata c b tot" and "calculate_pro_rata c b tot \<le> b"
  using scaled_share [of b "lp_total_premiums c" tot] assms by (simp_all add: calculate_pro_rata_def)

lemma risk_weighted_bounds:
  assumes "0 \<le> b" and "0 \<le> lp_total_premiums c" and "lp_total_premiums c \<le> tot" and "0 \<le> lp_default_count c"
  obtains x where "calculate_risk_weighted c b tot = Inr x" and "0 \<le> x" and "x \<le> b"
proof -
  have d: "100 \<le> saturating_add 100 (lp_default_count c)"
    using assms(4) clamp_i128_mono [of 100 "100 + lp_default_count c"]
    by (simp add: saturating_add_def clamp_i128_def width_defs split: if_splits)
  note p = pro_rata_bounds [OF assms(1-3)]
  show thesis using scaled_share [OF p(1), of 100] d p(2)
    by (intro that [of "saturating_div (saturating_mul (calculate_pro_rata c b tot) 100) (saturating_add 100 (lp_default_count c))"])
      (auto simp: calculate_risk_weighted_def Let_def intro: order_trans)
qed

lemma calculate_payout_ok:
  assumes "0 < r" and "0 \<le> lp_total_premiums c" and "lp_total_premiums c \<le> tot" and "0 \<le> lp_default_count c"
  obtains x where "calculate_payout c st r tot = Inr x" and "0 \<le> x" and "x \<le> r" and "0 < x \<longrightarrow> x \<le> coverage_cap c"
    and "st = FIFO \<longrightarrow> x = min r (max (coverage_cap c) 0)"
proof (cases "coverage_cap c \<le> 0")
  case True
  then show thesis using assms(1) by (intro that [of 0]) (simp_all add: calculate_payout_def min_le_iff_disj)
next
  case False
  let ?b = "min (coverage_cap c) r"
  have b: "0 < ?b" using False assms(1) by simp
  obtain x where x: "calculate_risk_weighted c ?b tot = Inr x" "0 \<le> x" "x \<le> ?b"
    using risk_weighted_bounds [of ?b c tot] b assms by auto
  note p = pro_rata_bounds [of ?b c tot] 
  show thesis
  proof (cases st)
    case ProRata
    then show thesis using b p assms False
      by (intro that [of "calculate_pro_rata c ?b tot"]) (simp_all add: calculate_payout_def Let_def max_def min_le_iff_disj)
  next
    case RiskWeighted
    then show thesis using b x assms False by (intro that [of x]) (simp_all add: calculate_payout_def Let_def max_def min_le_iff_disj)
  next
    case FIFO
    then show thesis using b assms False by (intro that [of ?b]) (simp_all add: calculate_payout_def Let_def)
  qed
qed

text \<open>The loop adds payouts to the list it is given.\<close>

definition paid_by :: "pending_claim list \<Rightarrow> address \<times> int \<Rightarrow> bool" where
  "paid_by cs = (\<lambda>(a, x). 0 < x \<and> list_ex (\<lambda>c. claim_lp c = a \<and> x \<le> coverage_cap c) cs)"

lemma paid_by_Cons: "paid_by cs ax \<Longrightarrow> paid_by (c # cs) ax"
  by (auto simp: paid_by_def)

lemma allocate_loop_ok:
  assumes "list_all (\<lambda>c. 0 \<le> lp_total_premiums c \<and> lp_total_premiums c \<le> tot \<and> 0 \<le> lp_default_count c) cs"
    and "0 \<le> r" and "in_i128 r"
  shows "\<exists>xs. allocate_loop st tot cs r acc = Inr (acc @ xs) \<and> list_all (paid_by cs) xs \<and>
    sum_list (map snd xs) \<le> r \<and>
    (st = FIFO \<longrightarrow> sum_list (map snd xs) = min r (\<Sum>c\<leftarrow>cs. max (coverage_cap c) 0))"
  using assms
proof (induction cs arbitrary: r acc)
  case Nil
  then show ?case by simp
next
  case (Cons c cs)
  let ?caps = "\<Sum>c\<leftarrow>cs. max (coverage_cap c) 0"
  have caps: "0 \<le> ?caps" by (intro sum_list_nonneg) auto
  show ?case
  proof (cases "r \<le> 0")
    case True
    then show ?thesis using Cons.prems(2) caps by (intro exI [of _ "[]"]) simp
  next
    case False
    then have r: "0 < r" by simp
    obtain x where x: "calculate_payout c st r tot = Inr x" "0 \<le> x" "x \<le> r" "0 < x \<longrightarrow> x \<le> coverage_cap c"
      "st = FIFO \<longrightarrow> x = min r (max (coverage_cap c) 0)"
      using calculate_payout_ok [OF r, of c tot] Cons.prems(1) by auto
    have sub: "saturating_sub r x = r - x" "in_i128 (r - x)"
      using in_i128_between [OF in_i128_0 Cons.prems(3), of "r - x"] x by (simp_all add: saturating_sub_def)
    define acc' where "acc' = (if 0 < x then acc @ [(claim_lp c, x)] else acc)"
    have step: "allocate_loop st tot (c # cs) r acc = allocate_loop st tot cs (r - x) acc'"
      using r x(1-3) sub by (auto simp: acc'_def Let_def)
    obtain xs where xs: "allocate_loop st tot cs (r - x) acc' = Inr (acc' @ xs)" "list_all (paid_by cs) xs"
      "sum_list (map snd xs) \<le> r - x" "st = FIFO \<longrightarrow> sum_list (map snd xs) = min (r - x) ?caps"
      using Cons.IH [of "r - x" acc'] Cons.prems(1) x(3) sub(2) by auto
    have tail: "list_all (paid_by (c # cs)) xs" using xs(2) paid_by_Cons by (auto simp: list_all_iff)
    have full: "st = FIFO \<longrightarrow> x + min (r - x) ?caps = min r (max (coverage_cap c) 0 + ?caps)"
      using x(5) caps r by auto
    show ?thesis
    proof (cases "0 < x")
      case True
      then have "paid_by (c # cs) (claim_lp c, x)" using x(4) by (simp add: paid_by_def)
      then show ?thesis using True step xs tail full by (intro exI [of _ "(claim_lp c, x) # xs"]) (simp add: acc'_def)
    next
      case False
      then show ?thesis using x(2) step xs tail full by (intro exI [of _ xs]) (simp add: acc'_def)
    qed
  qed
qed

section \<open>Properties\<close>

text \<open>
  C37: on claims with non-negative premiums and default counts, every strategy succeeds; every
  payout is positive and within the coverage cap of a claim of its recipient, the payouts add up
  to no more than the pool balance, and first-in-first-out pays out the smaller of the pool
  balance and everything claimed.
\<close>

theorem allocate_payouts_within_pool:
  assumes "claims_ok claims" and "0 \<le> pool_balance" and "pool_balance \<le> i128_max"
  shows "\<exists>xs. allocate_payouts claims strategy pool_balance = Inr xs \<and> list_all (paid_by claims) xs \<and>
    sum_list (map snd xs) \<le> pool_balance \<and>
    (strategy = FIFO \<longrightarrow> sum_list (map snd xs) = min pool_balance (\<Sum>c\<leftarrow>claims. max (coverage_cap c) 0))"
proof (cases "claims = []")
  case True
  then show ?thesis using assms by (simp add: allocate_payouts_def)
next
  case False
  let ?total = "sum_list (map lp_total_premiums claims)" and ?cs = "sort_claims strategy claims"
  have tot: "sum_premiums claims 0 = Inr ?total"
    using sum_premiums_ok [of claims 0] assms(1) by (simp add: claims_ok_def)
  have "list_all (\<lambda>c. 0 \<le> lp_total_premiums c \<and> lp_total_premiums c \<le> ?total \<and> 0 \<le> lp_default_count c) ?cs"
    using assms(1) premium_le_total [OF assms(1)] by (auto simp: claims_ok_def list_all_iff)
  moreover have "in_i128 pool_balance" using assms(2,3) by (simp add: in_i128_def width_defs)
  ultimately obtain xs where xs: "allocate_loop strategy ?total ?cs pool_balance [] = Inr ([] @ xs)"
    "list_all (paid_by ?cs) xs" "sum_list (map snd xs) \<le> pool_balance"
    "strategy = FIFO \<longrightarrow> sum_list (map snd xs) = min pool_balance (\<Sum>c\<leftarrow>?cs. max (coverage_cap c) 0)"
    using allocate_loop_ok [of ?total ?cs pool_balance strategy "[]"] assms(2) by blast
  have caps: "(\<Sum>c\<leftarrow>?cs. max (coverage_cap c) 0) = (\<Sum>c\<leftarrow>claims. max (coverage_cap c) 0)"
    by (simp flip: sum_mset_sum_list)
  have paid: "paid_by ?cs = paid_by claims" by (rule ext) (simp add: paid_by_def list_ex_iff)
  have "allocate_payouts claims strategy pool_balance = Inr xs"
    using xs(1) tot False assms(2) by (simp add: allocate_payouts_def)
  then show ?thesis using xs(2-4) unfolding caps paid by blast
qed

definition equal_claims :: "pending_claim list" where
  "equal_claims = [\<lparr> claim_lp = Address 4, claim_invoice_id = 1, claim_timestamp = 10, lp_total_premiums = 50,
       lp_default_count = 0, coverage_cap = 1000 \<rparr>,
     \<lparr> claim_lp = Address 5, claim_invoice_id = 2, claim_timestamp = 10, lp_total_premiums = 50,
       lp_default_count = 0, coverage_cap = 1000 \<rparr>]"

theorem allocate_payouts_within_pool_witness:
  "(case allocate_payouts equal_claims FIFO 1200 of
      Inl _ \<Rightarrow> False
    | Inr xs \<Rightarrow> list_all (paid_by equal_claims) xs \<and> sum_list (map snd xs) = 1200)"
  using allocate_payouts_within_pool [of equal_claims 1200 FIFO]
  by (auto simp: equal_claims_def claims_ok_def width_defs)

text \<open>
  Pro-rata is not proportional: of two equal claims the second is scaled by what the first left,
  and a quarter of the pool stays unpaid.
\<close>

lemma pro_rata_not_proportional:
  "allocate_payouts equal_claims ProRata 100 = Inr [(Address 4, 50), (Address 5, 25)]"
  by (simp add: allocate_payouts_def equal_claims_def sort_claims_def calculate_payout_def calculate_pro_rata_def
      arith_defs width_defs saturating_div_def quot_def)

end
