(* ===== verification/Governance.thy ===== *)
theory Governance
  imports Examples
begin

text \<open>
  The governance contract (src/contracts/iln_governance/src/lib.rs): proposals and their life
  cycle, deposits, balance checkpoints, delegation, voting, the execution timelock and the veto
  multisig.

  Every \<open>StorageKey\<close> the code writes is a field: instance storage (\<open>gov_config\<close>), persistent
  entries (\<open>gov_book\<close>) and temporary entries (\<open>gov_temp\<close>), which the host may archive at any time.
  The source also uses keys, errors and a struct \<open>BalanceCheckpoint\<close> that it does not declare; they
  are modelled as it uses them. \<open>GovErr\<close> is a returned error or a \<open>panic_with_error!\<close>, \<open>GovTrap\<close> any
  other trap; both roll the invocation back. The contract a proposal acts on is called through
  \<open>x_invoke\<close>: \<open>Some\<close> is a call that returned the unit value, as all its targets do, and \<open>None\<close> a call
  that failed and was rolled back. The events of rejection and pause are declared by the source but
  no entry point publishes them.
\<close>

section \<open>State\<close>

datatype governance_error =
    GovAlreadyInitialized | GovProposalNotFound | VotingEnded | ProposalNotActive | NoVotingPower
  | GovAlreadyVoted | VotingOngoing | QuorumNotReached | GovProposalRejected | AlreadyResolved
  | CannotDelegateToSelf | DelegationCyclePrevented | GovTimelockNotExpired | GovUnauthorized
  | InvalidQuorumBps | NotVetoable | VetoPowerDisabled | InsufficientProposerBalance
  | MaxDelegationDepthExceeded | VetoMultisigNotConfigured | NotVetoSigner | VetoAlreadyApproved
  | InvalidVetoMultisigConfig | InvalidProposalDeposit | GovNotInitialized | InvalidStateTransition
  | InvalidTimelock | InvalidExecutionDelay | ProposalStorageCorrupt | SnapshotLedgerMissing
  | ExecutionDelayOutOfBounds | ProposalCancelled | ProposalAlreadyExecuted | InvalidVoteAccounting
  | QuorumDataMissing | ConsentRequired | InvalidVetoTransition | VetoPowerAlreadyDisabled
  | InsufficientHoldingPeriod | ProposerIdentityMismatch

datatype gov_failure = GovErr governance_error | GovTrap

type_synonym 'a gov_result = "gov_failure + 'a"

abbreviation gerr :: "governance_error \<Rightarrow> gov_failure + 'a" where
  "gerr c \<equiv> Inl (GovErr c)"

definition DEFAULT_MIN_QUORUM_BPS :: nat where "DEFAULT_MIN_QUORUM_BPS = 1000"
definition VOTING_PERIOD_SECS :: nat where "VOTING_PERIOD_SECS = 259200"
definition DEFAULT_MIN_PROPOSAL_BALANCE :: int where "DEFAULT_MIN_PROPOSAL_BALANCE = 1000"
definition DEFAULT_PROPOSAL_DEPOSIT :: int where "DEFAULT_PROPOSAL_DEPOSIT = 0"
definition MIN_VOTE_HOLD_LEDGERS :: nat where "MIN_VOTE_HOLD_LEDGERS = 10"
definition MAX_EXECUTION_DELAY_LEDGERS :: nat where "MAX_EXECUTION_DELAY_LEDGERS = 518400"
definition DEFAULT_MAX_DELEGATION_DEPTH :: nat where "DEFAULT_MAX_DELEGATION_DEPTH = 10"
definition MIN_PRODUCTION_EXECUTION_DELAY_LEDGERS :: nat where
  "MIN_PRODUCTION_EXECUTION_DELAY_LEDGERS = 17280"

datatype proposal_action =
    UpdateFeeRate nat | AddToken address nat | GovRemoveToken address | UpdateMaxDiscountRate nat
  | UpdateDecayParams nat nat | UpdateDistributionRewardParams int int int
  | UpdateFeeTiers "(int \<times> nat) list" | GovUpgrade bytes32
  | UpdateLpRewardRate int | UpdateFreelancerRewardRate int | UpdatePayerRewardRate int
  | UpdateInsuranceCoverageCap int | UpdateInsurancePremiumRate nat
  | GovRegisterOracle oracle_feed_type address | GovRemoveOracle oracle_feed_type
  | GovRegisterTokenOracle oracle_feed_type address address
  | UpdateReputationBonusParams nat nat nat | UpdateMaxInvoiceAmount int | UpdateTokenVolumeCap address int

datatype proposal_status = Active | Passed | Rejected | Executed | Vetoed

record governance_proposal =
  gp_id :: nat
  gp_proposer :: address
  description_hash :: bytes32
  action_type :: proposal_action
  proposed_value :: int
  gp_status :: proposal_status
  votes_for :: int
  votes_against :: int
  gp_created_at :: nat
  voting_end :: nat
  eta_ledger :: nat

record balance_checkpoint =
  cp_balance :: int
  cp_ledger :: nat

datatype veto_status = Uninitiated | VetoPending | VetoExecuted

record veto_state =
  vs_status :: veto_status
  approvals_count :: nat
  vs_threshold :: nat
  vs_reason_hash :: bytes32

record veto_disable_record =
  authorized_by :: address
  disabled_at_ledger :: nat
  vd_reason_hash :: bytes32

record timelock_status =
  tl_execution_delay :: nat
  tl_veto_enabled :: bool
  tl_veto_signer_count :: nat
  tl_veto_threshold :: nat

datatype gov_event =
    GovernanceInitialized address address address
  | MaxDelegationDepthUpdated nat nat
  | GovernanceParameterUpdated string int int
  | ProposalDepositEscrowed nat address int | ProposalDepositRefunded nat address int
  | ProposalDepositForfeited nat address int "address option"
  | ProposalCreated nat address proposal_action int nat
  | VotesDelegated address address | VotesUndelegated address
  | VoteCast nat address bool int
  | ProposalExecutionFailed nat proposal_action
  | GovProposalExecuted nat proposal_action int int int
  | VetoMultisigConfigured "address list" nat
  | VetoStateTransition nat veto_status veto_status nat nat
  | VetoApproved nat address nat nat | ProposalVetoed nat address bytes32
  | VetoPowerDisabledBy address | VetoDisableRecorded veto_disable_record

record gov_config =
  iln_contract :: "address option"
  gov_token :: "address option"
  distribution_addr :: "address option"
  reputation_bonus_addr :: "address option"
  gov_admin :: "address option"
  min_quorum_bps :: "nat option"
  gov_token_total_supply :: "int option"
  proposal_count :: "nat option"
  quadratic_voting_enabled :: "bool option"
  execution_delay :: "nat option"
  max_delegation_depth :: "nat option"
  veto_power_enabled :: "bool option"
  min_proposal_balance :: "int option"
  min_proposal_deposit :: "int option"
  proposal_deposit_sink :: "address option option"
  veto_signers :: "address list option"
  veto_threshold :: "nat option"
  veto_disabled :: "veto_disable_record option"
  execution_nonce :: "nat option"
  veto_state_at :: "nat \<rightharpoonup> veto_state"

record gov_book =
  proposal_at :: "nat \<rightharpoonup> governance_proposal"
  vote_weight_snapshot :: "nat \<times> address \<rightharpoonup> int"
  vote_receipt :: "nat \<times> address \<rightharpoonup> int"
  delegation :: "address \<rightharpoonup> address"
  delegators :: "address \<rightharpoonup> address list"
  delegated_to_me :: "address \<rightharpoonup> int"
  veto_approval_receipt :: "nat \<times> address \<rightharpoonup> bool"
  proposal_deposit :: "nat \<rightharpoonup> int"
  proposal_deposit_settled :: "nat \<rightharpoonup> bool"
  checkpoint :: "address \<rightharpoonup> balance_checkpoint"
  prior_checkpoint :: "address \<rightharpoonup> balance_checkpoint"
  proposal_created_ledger :: "nat \<rightharpoonup> nat"
  proposal_proposer :: "nat \<rightharpoonup> address"
  proposal_executed_record :: "nat \<rightharpoonup> bool"

text \<open>Temporary storage: fast mirrors of vote receipts and veto approvals.\<close>

record gov_temp =
  voted_tmp :: "nat \<times> address \<rightharpoonup> bool"
  applied_weight_tmp :: "nat \<times> address \<rightharpoonup> int"
  veto_approvals_tmp :: "nat \<rightharpoonup> address list"

record 'w gov =
  gcfg :: gov_config
  gbook :: gov_book
  gtemp :: gov_temp
  gov_wld :: 'w
  gov_evs :: "gov_event list"

text \<open>Arguments of a cross-contract call.\<close>

datatype gov_val = VNat nat | VInt int | VAddr address | VBytes bytes32 | VFeed oracle_feed_type
  | VTiers "(int \<times> nat) list"

record 'w gov_env = "'w env" +
  x_invoke :: "'w \<Rightarrow> address \<Rightarrow> string \<Rightarrow> gov_val list \<Rightarrow> 'w option"

definition fresh_gov :: "'w \<Rightarrow> 'w gov" where
  "fresh_gov w = \<lparr>
     gcfg = \<lparr> iln_contract = None, gov_token = None, distribution_addr = None, reputation_bonus_addr = None,
       gov_admin = None, min_quorum_bps = None, gov_token_total_supply = None, proposal_count = None,
       quadratic_voting_enabled = None, execution_delay = None, max_delegation_depth = None,
       veto_power_enabled = None, min_proposal_balance = None, min_proposal_deposit = None,
       proposal_deposit_sink = None, veto_signers = None, veto_threshold = None, veto_disabled = None,
       execution_nonce = None, veto_state_at = Map.empty \<rparr>,
     gbook = \<lparr> proposal_at = Map.empty, vote_weight_snapshot = Map.empty, vote_receipt = Map.empty,
       delegation = Map.empty, delegators = Map.empty, delegated_to_me = Map.empty,
       veto_approval_receipt = Map.empty, proposal_deposit = Map.empty, proposal_deposit_settled = Map.empty,
       checkpoint = Map.empty, prior_checkpoint = Map.empty, proposal_created_ledger = Map.empty,
       proposal_proposer = Map.empty, proposal_executed_record = Map.empty \<rparr>,
     gtemp = \<lparr> voted_tmp = Map.empty, applied_weight_tmp = Map.empty, veto_approvals_tmp = Map.empty \<rparr>,
     gov_wld = w, gov_evs = [] \<rparr>"

section \<open>Host primitives and configuration\<close>

definition gov_auth :: "('w, 'm) env_scheme \<Rightarrow> address \<Rightarrow> unit gov_result" where
  "gov_auth e a = (if a \<in> auths e then Inr () else Inl GovTrap)"

definition gov_publish :: "gov_event \<Rightarrow> 'w gov \<Rightarrow> 'w gov" where
  "gov_publish ev g = g\<lparr> gov_evs := gov_evs g @ [ev] \<rparr>"

definition gov_balance :: "('w, 'm) env_scheme \<Rightarrow> address \<Rightarrow> address \<Rightarrow> 'w gov \<Rightarrow> int gov_result" where
  "gov_balance e t a g = ok_or (x_balance (ext e) (gov_wld g) t a) GovTrap"

definition gov_transfer :: "('w, 'm) env_scheme \<Rightarrow> address \<Rightarrow> address \<Rightarrow> address \<Rightarrow> int \<Rightarrow> 'w gov \<Rightarrow>
    'w gov gov_result" where
  "gov_transfer e t from to a g =
     and_then (ok_or (x_transfer (ext e) (gov_wld g) t (insert (self e) (auths e)) from to a) GovTrap)
       (\<lambda>w. Inr (g\<lparr> gov_wld := w \<rparr>))"

definition get_iln_contract :: "'w gov \<Rightarrow> address gov_result" where
  "get_iln_contract g = ok_or (iln_contract (gcfg g)) (GovErr GovNotInitialized)"

definition get_gov_token :: "'w gov \<Rightarrow> address gov_result" where
  "get_gov_token g = ok_or (gov_token (gcfg g)) (GovErr GovNotInitialized)"

definition get_distribution_contract :: "'w gov \<Rightarrow> address gov_result" where
  "get_distribution_contract g = ok_or (distribution_addr (gcfg g)) (GovErr GovNotInitialized)"

definition get_reputation_bonus_contract :: "'w gov \<Rightarrow> address gov_result" where
  "get_reputation_bonus_contract g = ok_or (reputation_bonus_addr (gcfg g)) (GovErr GovNotInitialized)"

definition load_proposal :: "nat \<Rightarrow> 'w gov \<Rightarrow> governance_proposal gov_result" where
  "load_proposal n g =
     (if n = 0 \<or> n > unwrap_or (proposal_count (gcfg g)) 0 then gerr GovProposalNotFound
      else and_then (ok_or (proposal_at (gbook g) n) (GovErr ProposalStorageCorrupt)) (\<lambda>p.
        if gp_id p \<noteq> n then gerr ProposalStorageCorrupt else Inr p))"

definition store_proposal :: "governance_proposal \<Rightarrow> 'w gov \<Rightarrow> 'w gov" where
  "store_proposal p g = g\<lparr> gbook := (gbook g)\<lparr> proposal_at := (proposal_at (gbook g))(gp_id p \<mapsto> p) \<rparr> \<rparr>"

definition gov_initialize :: "address \<Rightarrow> address \<Rightarrow> address \<Rightarrow> address \<Rightarrow> address \<Rightarrow> int \<Rightarrow> 'w gov \<Rightarrow>
    'w gov gov_result" where
  "gov_initialize iln dist rep tok adm supply g =
     (if iln_contract (gcfg g) \<noteq> None then gerr GovAlreadyInitialized
      else Inr (gov_publish (GovernanceInitialized iln tok adm) (g\<lparr> gcfg := (gcfg g)\<lparr>
        iln_contract := Some iln, distribution_addr := Some dist, reputation_bonus_addr := Some rep,
        gov_token := Some tok, gov_admin := Some adm, veto_power_enabled := Some True,
        min_quorum_bps := Some DEFAULT_MIN_QUORUM_BPS,
        max_delegation_depth := Some DEFAULT_MAX_DELEGATION_DEPTH,
        proposal_count := Some 0, gov_token_total_supply := Some supply \<rparr> \<rparr>)))"

definition get_max_delegation_depth :: "'w gov \<Rightarrow> nat" where
  "get_max_delegation_depth g = unwrap_or (max_delegation_depth (gcfg g)) DEFAULT_MAX_DELEGATION_DEPTH"

text \<open>The setters that only the ILN contract may call.\<close>

definition require_iln :: "('w, 'm) env_scheme \<Rightarrow> 'w gov \<Rightarrow> address gov_result" where
  "require_iln e g = and_then (get_iln_contract g) (\<lambda>a. and_then (gov_auth e a) (\<lambda>_. Inr a))"

definition set_max_delegation_depth :: "('w, 'm) env_scheme \<Rightarrow> nat \<Rightarrow> 'w gov \<Rightarrow> 'w gov gov_result" where
  "set_max_delegation_depth e d g =
     and_then (require_iln e g) (\<lambda>_.
     Inr (gov_publish (MaxDelegationDepthUpdated (get_max_delegation_depth g) d)
       (g\<lparr> gcfg := (gcfg g)\<lparr> max_delegation_depth := Some d \<rparr> \<rparr>)))"

definition set_gov_token_total_supply :: "('w, 'm) env_scheme \<Rightarrow> int \<Rightarrow> 'w gov \<Rightarrow> 'w gov gov_result" where
  "set_gov_token_total_supply e v g =
     and_then (require_iln e g) (\<lambda>_.
     Inr (gov_publish (GovernanceParameterUpdated ''gov_token_total_supply'' (unwrap_or (gov_token_total_supply (gcfg g)) 0) v)
       (g\<lparr> gcfg := (gcfg g)\<lparr> gov_token_total_supply := Some v \<rparr> \<rparr>)))"

definition set_min_quorum_bps :: "('w, 'm) env_scheme \<Rightarrow> nat \<Rightarrow> 'w gov \<Rightarrow> 'w gov gov_result" where
  "set_min_quorum_bps e b g =
     (if b = 0 \<or> b > 10000 then gerr InvalidQuorumBps
      else and_then (require_iln e g) (\<lambda>_.
        Inr (gov_publish (GovernanceParameterUpdated ''min_quorum_bps''
            (int (unwrap_or (min_quorum_bps (gcfg g)) DEFAULT_MIN_QUORUM_BPS)) (int b))
          (g\<lparr> gcfg := (gcfg g)\<lparr> min_quorum_bps := Some b \<rparr> \<rparr>))))"

definition set_min_proposal_deposit :: "('w, 'm) env_scheme \<Rightarrow> int \<Rightarrow> 'w gov \<Rightarrow> 'w gov gov_result" where
  "set_min_proposal_deposit e v g =
     (if v < 0 then gerr InvalidProposalDeposit
      else and_then (require_iln e g) (\<lambda>_.
        Inr (gov_publish (GovernanceParameterUpdated ''min_proposal_deposit''
            (unwrap_or (min_proposal_deposit (gcfg g)) DEFAULT_PROPOSAL_DEPOSIT) v)
          (g\<lparr> gcfg := (gcfg g)\<lparr> min_proposal_deposit := Some v \<rparr> \<rparr>))))"

definition set_proposal_deposit_sink :: "('w, 'm) env_scheme \<Rightarrow> address option \<Rightarrow> 'w gov \<Rightarrow> 'w gov gov_result" where
  "set_proposal_deposit_sink e sink g =
     and_then (require_iln e g) (\<lambda>_.
     Inr (g\<lparr> gcfg := (gcfg g)\<lparr> proposal_deposit_sink := Some sink \<rparr> \<rparr>))"

definition is_quadratic_voting_enabled :: "'w gov \<Rightarrow> bool" where
  "is_quadratic_voting_enabled g = unwrap_or (quadratic_voting_enabled (gcfg g)) False"

definition set_quadratic_voting_enabled :: "('w, 'm) env_scheme \<Rightarrow> bool \<Rightarrow> 'w gov \<Rightarrow> 'w gov gov_result" where
  "set_quadratic_voting_enabled e b g =
     and_then (require_iln e g) (\<lambda>_.
     Inr (gov_publish (GovernanceParameterUpdated ''quadratic_voting_enabled''
         (of_bool (is_quadratic_voting_enabled g)) (of_bool b))
       (g\<lparr> gcfg := (gcfg g)\<lparr> quadratic_voting_enabled := Some b \<rparr> \<rparr>)))"

definition set_min_proposal_balance :: "('w, 'm) env_scheme \<Rightarrow> int \<Rightarrow> 'w gov \<Rightarrow> 'w gov gov_result" where
  "set_min_proposal_balance e v g =
     and_then (require_iln e g) (\<lambda>_.
     Inr (gov_publish (GovernanceParameterUpdated ''min_proposal_balance''
         (unwrap_or (min_proposal_balance (gcfg g)) DEFAULT_MIN_PROPOSAL_BALANCE) v)
       (g\<lparr> gcfg := (gcfg g)\<lparr> min_proposal_balance := Some v \<rparr> \<rparr>)))"

section \<open>Proposals\<close>

definition new_proposal :: "('w, 'm) env_scheme \<Rightarrow> nat \<Rightarrow> address \<Rightarrow> proposal_action \<Rightarrow> bytes32 \<Rightarrow> int \<Rightarrow>
    governance_proposal" where
  "new_proposal e n a act h v =
     \<lparr> gp_id = n, gp_proposer = a, description_hash = h, action_type = act, proposed_value = v,
       gp_status = Active, votes_for = 0, votes_against = 0, gp_created_at = timestamp e,
       voting_end = sat_add_u64 (timestamp e) VOTING_PERIOD_SECS, eta_ledger = 0 \<rparr>"

text \<open>Recording a proposal: snapshot, creation ledger, checkpoint, record, proposer, counter.\<close>

definition record_proposal :: "('w, 'm) env_scheme \<Rightarrow> governance_proposal \<Rightarrow> int \<Rightarrow> 'w gov \<Rightarrow> 'w gov" where
  "record_proposal e p bal g =
     (let n = gp_id p; a = gp_proposer p; b = gbook g in
      g\<lparr> gbook := b\<lparr>
           vote_weight_snapshot := (vote_weight_snapshot b)((n, a) \<mapsto> bal),
           proposal_created_ledger := (proposal_created_ledger b)(n \<mapsto> sequence e),
           checkpoint := (if checkpoint b a = None
             then (checkpoint b)(a \<mapsto> \<lparr> cp_balance = bal, cp_ledger = sequence e \<rparr>) else checkpoint b),
           proposal_at := (proposal_at b)(n \<mapsto> p),
           proposal_proposer := (proposal_proposer b)(n \<mapsto> a) \<rparr>,
         gcfg := (gcfg g)\<lparr> proposal_count := Some n \<rparr> \<rparr>)"

definition escrow_deposit :: "('w, 'm) env_scheme \<Rightarrow> address \<Rightarrow> nat \<Rightarrow> address \<Rightarrow> int \<Rightarrow> 'w gov \<Rightarrow> 'w gov gov_result" where
  "escrow_deposit e t n a deposit g =
     (if deposit > 0 then
        and_then (gov_transfer e t a (self e) deposit g) (\<lambda>g1.
        Inr (gov_publish (ProposalDepositEscrowed n a deposit) (g1\<lparr> gbook := (gbook g1)\<lparr>
          proposal_deposit := (proposal_deposit (gbook g1))(n \<mapsto> deposit) \<rparr> \<rparr>)))
      else Inr g)"

definition create_proposal :: "('w, 'm) env_scheme \<Rightarrow> address \<Rightarrow> proposal_action \<Rightarrow> bytes32 \<Rightarrow> int \<Rightarrow> 'w gov \<Rightarrow>
    (nat \<times> 'w gov) gov_result" where
  "create_proposal e a act h v g =
     and_then (gov_auth e a) (\<lambda>_.
     and_then (get_gov_token g) (\<lambda>t.
     and_then (gov_balance e t a g) (\<lambda>bal.
     let deposit = unwrap_or (min_proposal_deposit (gcfg g)) DEFAULT_PROPOSAL_DEPOSIT in
     if bal < unwrap_or (min_proposal_balance (gcfg g)) DEFAULT_MIN_PROPOSAL_BALANCE
     then gerr InsufficientProposerBalance
     else if deposit < 0 then gerr InvalidProposalDeposit
     else if deposit > 0 \<and> bal < deposit then gerr InsufficientProposerBalance
     else
       let n = sat_add_u64 (unwrap_or (proposal_count (gcfg g)) 0) 1;
           p = new_proposal e n a act h v;
           g1 = record_proposal e p bal g
       in and_then (escrow_deposit e t n a deposit g1) (\<lambda>g3.
          Inr (n, gov_publish (ProposalCreated n a act v (voting_end p)) g3)))))"

fun is_legal_transition :: "proposal_status \<Rightarrow> proposal_status \<Rightarrow> bool" where
  "is_legal_transition Active Passed = True"
| "is_legal_transition Active Rejected = True"
| "is_legal_transition Active Vetoed = True"
| "is_legal_transition Passed Executed = True"
| "is_legal_transition Passed Vetoed = True"
| "is_legal_transition _ _ = False"

definition transition_status :: "governance_proposal \<Rightarrow> proposal_status \<Rightarrow> 'w gov \<Rightarrow>
    (governance_proposal \<times> 'w gov) gov_result" where
  "transition_status p next_status g =
     (if \<not> is_legal_transition (gp_status p) next_status then gerr InvalidStateTransition
      else let p' = p\<lparr> gp_status := next_status \<rparr> in Inr (p', store_proposal p' g))"

definition assert_executable :: "('w, 'm) env_scheme \<Rightarrow> governance_proposal \<Rightarrow> unit gov_result" where
  "assert_executable e p =
     (if gp_status p \<noteq> Passed then gerr InvalidStateTransition
      else if timestamp e < voting_end p then gerr VotingOngoing
      else if sequence e < eta_ledger p then gerr GovTimelockNotExpired
      else Inr ())"

section \<open>Deposits\<close>

definition settle_deposit :: "nat \<Rightarrow> 'w gov \<Rightarrow> 'w gov" where
  "settle_deposit n g = g\<lparr> gbook := (gbook g)\<lparr>
     proposal_deposit_settled := (proposal_deposit_settled (gbook g))(n \<mapsto> True),
     proposal_deposit := (proposal_deposit (gbook g))(n := None) \<rparr> \<rparr>"

definition refund_proposal_deposit :: "('w, 'm) env_scheme \<Rightarrow> nat \<Rightarrow> address \<Rightarrow> 'w gov \<Rightarrow> (bool \<times> 'w gov) gov_result" where
  "refund_proposal_deposit e n a g =
     (if unwrap_or (proposal_deposit_settled (gbook g) n) False then Inr (False, g)
      else
        let v = unwrap_or (proposal_deposit (gbook g) n) 0; g1 = settle_deposit n g in
        if v \<le> 0 then Inr (False, g1)
        else and_then (get_gov_token g1) (\<lambda>t.
          and_then (gov_transfer e t (self e) a v g1) (\<lambda>g2.
          Inr (True, gov_publish (ProposalDepositRefunded n a v) g2))))"

text \<open>
  The sink is stored as an optional address and read back as an address, so that a sink that was
  cleared (the stored value is void, not absent) fails the conversion and traps.
\<close>

definition forfeit_proposal_deposit :: "('w, 'm) env_scheme \<Rightarrow> nat \<Rightarrow> address \<Rightarrow> 'w gov \<Rightarrow> (bool \<times> 'w gov) gov_result" where
  "forfeit_proposal_deposit e n a g =
     (if unwrap_or (proposal_deposit_settled (gbook g) n) False then Inr (False, g)
      else
        let v = unwrap_or (proposal_deposit (gbook g) n) 0; g1 = settle_deposit n g in
        if v \<le> 0 then Inr (False, g1)
        else
          case proposal_deposit_sink (gcfg g1) of
            None \<Rightarrow> Inr (True, gov_publish (ProposalDepositForfeited n a v None) g1)
          | Some None \<Rightarrow> Inl GovTrap
          | Some (Some dest) \<Rightarrow>
              and_then (get_gov_token g1) (\<lambda>t.
              and_then (gov_transfer e t (self e) dest v g1) (\<lambda>g2.
              Inr (True, gov_publish (ProposalDepositForfeited n a v (Some dest)) g2))))"

section \<open>Balance checkpoints\<close>

definition checkpoint_balance :: "('w, 'm) env_scheme \<Rightarrow> address \<Rightarrow> 'w gov \<Rightarrow> 'w gov gov_result" where
  "checkpoint_balance e a g =
     and_then (gov_auth e a) (\<lambda>_.
     and_then (get_gov_token g) (\<lambda>t.
     and_then (gov_balance e t a g) (\<lambda>bal.
     let b = gbook g;
         prior = (case checkpoint b a of
            Some old \<Rightarrow> if cp_ledger old < sequence e then (prior_checkpoint b)(a \<mapsto> old) else prior_checkpoint b
          | None \<Rightarrow> prior_checkpoint b)
     in Inr (g\<lparr> gbook := b\<lparr> prior_checkpoint := prior,
          checkpoint := (checkpoint b)(a \<mapsto> \<lparr> cp_balance = bal, cp_ledger = sequence e \<rparr>) \<rparr> \<rparr>))))"

text \<open>\<open>max_by_key\<close> over the latest and the prior slot: the later of two equal keys wins.\<close>

definition eligible_checkpoint :: "address \<Rightarrow> nat \<Rightarrow> 'w gov \<Rightarrow> balance_checkpoint option" where
  "eligible_checkpoint a ref_ledger g =
     (let ok = (\<lambda>c. sat_add_u32 (cp_ledger c) MIN_VOTE_HOLD_LEDGERS \<le> ref_ledger);
          latest = Option.bind (checkpoint (gbook g) a) (\<lambda>c. if ok c then Some c else None);
          prior = Option.bind (prior_checkpoint (gbook g) a) (\<lambda>c. if ok c then Some c else None)
      in case (latest, prior) of
           (None, q) \<Rightarrow> q
         | (l, None) \<Rightarrow> l
         | (Some l, Some q) \<Rightarrow> Some (if cp_ledger q \<ge> cp_ledger l then q else l))"

definition proven_own_balance :: "address \<Rightarrow> int \<Rightarrow> nat \<Rightarrow> 'w gov \<Rightarrow> int gov_result" where
  "proven_own_balance a current ref_ledger g =
     (case eligible_checkpoint a ref_ledger g of
        Some c \<Rightarrow> Inr (min (cp_balance c) current)
      | None \<Rightarrow> gerr InsufficientHoldingPeriod)"

definition get_own_balance_for_delegation :: "('w, 'm) env_scheme \<Rightarrow> address \<Rightarrow> 'w gov \<Rightarrow> int gov_result" where
  "get_own_balance_for_delegation e a g = and_then (get_gov_token g) (\<lambda>t. gov_balance e t a g)"

section \<open>Delegation\<close>

definition get_delegators :: "address \<Rightarrow> 'w gov \<Rightarrow> address list" where
  "get_delegators a g = unwrap_or (delegators (gbook g) a) []"

definition add_delegator :: "address \<Rightarrow> address \<Rightarrow> 'w gov \<Rightarrow> 'w gov" where
  "add_delegator d a g =
     (let l = get_delegators d g in
      if a \<in> set l then g
      else g\<lparr> gbook := (gbook g)\<lparr> delegators := (delegators (gbook g))(d \<mapsto> l @ [a]) \<rparr> \<rparr>)"

definition remove_delegator :: "address \<Rightarrow> address \<Rightarrow> 'w gov \<Rightarrow> 'w gov" where
  "remove_delegator d a g =
     (let l = filter (\<lambda>x. x \<noteq> a) (get_delegators d g) in
      g\<lparr> gbook := (gbook g)\<lparr> delegators := (delegators (gbook g))(d := if l = [] then None else Some l) \<rparr> \<rparr>)"

definition adjust_delegated_to_me :: "address \<Rightarrow> int \<Rightarrow> 'w gov \<Rightarrow> 'w gov" where
  "adjust_delegated_to_me a delta g =
     (let v = saturating_add (unwrap_or (delegated_to_me (gbook g) a) 0) delta in
      g\<lparr> gbook := (gbook g)\<lparr> delegated_to_me := (delegated_to_me (gbook g))(a := if v \<le> 0 then None else Some v) \<rparr> \<rparr>)"

text \<open>The walks along the delegation pointers, with the hops that are left.\<close>

fun cycle_check :: "(address \<rightharpoonup> address) \<Rightarrow> address \<Rightarrow> nat \<Rightarrow> address option \<Rightarrow> unit gov_result" where
  "cycle_check d a k None = Inr ()"
| "cycle_check d a 0 (Some x) = (if x = a then gerr DelegationCyclePrevented else gerr MaxDelegationDepthExceeded)"
| "cycle_check d a (Suc k) (Some x) = (if x = a then gerr DelegationCyclePrevented else cycle_check d a k (d x))"

fun forward_depth :: "(address \<rightharpoonup> address) \<Rightarrow> nat \<Rightarrow> address \<Rightarrow> nat" where
  "forward_depth d 0 a = 0"
| "forward_depth d (Suc k) a = (case d a of None \<Rightarrow> 0 | Some b \<Rightarrow> Suc (forward_depth d k b))"

fun terminal_of :: "(address \<rightharpoonup> address) \<Rightarrow> nat \<Rightarrow> address \<Rightarrow> address" where
  "terminal_of d 0 a = a"
| "terminal_of d (Suc k) a = (case d a of None \<Rightarrow> a | Some b \<Rightarrow> terminal_of d k b)"

definition forward_delegation_depth :: "address \<Rightarrow> 'w gov \<Rightarrow> nat" where
  "forward_delegation_depth a g = forward_depth (delegation (gbook g)) (get_max_delegation_depth g) a"

definition resolve_terminal :: "address \<Rightarrow> 'w gov \<Rightarrow> address" where
  "resolve_terminal a g = terminal_of (delegation (gbook g)) (get_max_delegation_depth g) a"

text \<open>
  The depth-first search over the reverse edges: the head of the list is the top of the stack.
  It need not end on a cyclic graph.
\<close>

definition node_best :: "(address \<rightharpoonup> nat) \<Rightarrow> address list \<Rightarrow> nat" where
  "node_best best preds = fold (\<lambda>p b. let c = sat_add_u32 (unwrap_or (best p) 0) 1 in if c > b then c else b) preds 0"

partial_function (option) inbound_loop ::
    "(address \<Rightarrow> address list) \<Rightarrow> (address \<rightharpoonup> nat) \<Rightarrow> (address \<times> bool) list \<Rightarrow> (address \<rightharpoonup> nat) option" where
  "inbound_loop preds best stack =
     (case stack of
        [] \<Rightarrow> Some best
      | (node, processed) # rest \<Rightarrow>
          if processed then inbound_loop preds (best(node \<mapsto> node_best best (preds node))) rest
          else if best node \<noteq> None then inbound_loop preds best rest
          else inbound_loop preds best
            (rev (map (\<lambda>p. (p, False)) (filter (\<lambda>p. best p = None) (preds node))) @ (node, True) # rest))"

definition longest_inbound_depth :: "address \<Rightarrow> 'w gov \<Rightarrow> nat option" where
  "longest_inbound_depth a g =
     map_option (\<lambda>best. unwrap_or (best a) 0) (inbound_loop (\<lambda>x. get_delegators x g) Map.empty [(a, False)])"

text \<open>
  A delegation that replaces an older one first takes its weight from the old terminal; negating
  the least i128 value traps.
\<close>

definition drop_old_delegation :: "address \<Rightarrow> int \<Rightarrow> 'w gov \<Rightarrow> 'w gov" where
  "drop_old_delegation a w g =
     (case delegation (gbook g) a of
        None \<Rightarrow> g
      | Some old \<Rightarrow> remove_delegator old a (adjust_delegated_to_me (resolve_terminal old g) (- w) g))"

definition set_delegation :: "address \<Rightarrow> address option \<Rightarrow> 'w gov \<Rightarrow> 'w gov" where
  "set_delegation a d g = g\<lparr> gbook := (gbook g)\<lparr> delegation := (delegation (gbook g))(a := d) \<rparr> \<rparr>"

definition delegate_votes :: "('w, 'm) env_scheme \<Rightarrow> address \<Rightarrow> address \<Rightarrow> 'w gov \<Rightarrow> 'w gov gov_result" where
  "delegate_votes e a d g =
     and_then (gov_auth e a) (\<lambda>_.
     if a = d then gerr CannotDelegateToSelf
     else
       and_then (get_own_balance_for_delegation e a g) (\<lambda>live.
       and_then (proven_own_balance a live (sequence e) g) (\<lambda>proven.
       let max_depth = get_max_delegation_depth g in
       and_then (cycle_check (delegation (gbook g)) a max_depth (delegation (gbook g) d)) (\<lambda>_.
       and_then (ok_or (longest_inbound_depth a g) GovTrap) (\<lambda>upstream.
       if sat_add_u32 (sat_add_u32 upstream 1) (forward_delegation_depth d g) > max_depth
       then gerr MaxDelegationDepthExceeded
       else if delegation (gbook g) a \<noteq> None \<and> proven = i128_min then Inl GovTrap
       else
         let terminal = resolve_terminal d g;
             g1 = drop_old_delegation a proven g;
             g2 = add_delegator d a (set_delegation a (Some d) g1);
             g3 = adjust_delegated_to_me terminal proven g2
         in Inr (gov_publish (VotesDelegated a d) g3))))))"

definition undelegate_votes :: "('w, 'm) env_scheme \<Rightarrow> address \<Rightarrow> 'w gov \<Rightarrow> 'w gov gov_result" where
  "undelegate_votes e a g =
     and_then (gov_auth e a) (\<lambda>_.
     and_then (case delegation (gbook g) a of
          None \<Rightarrow> Inr g
        | Some old \<Rightarrow>
            and_then (get_own_balance_for_delegation e a g) (\<lambda>bal.
            if bal = i128_min then Inl GovTrap
            else Inr (set_delegation a None (drop_old_delegation a bal g)))) (\<lambda>g1.
     Inr (gov_publish (VotesUndelegated a) g1)))"

section \<open>Voting\<close>

partial_function (option) isqrt_loop :: "int \<Rightarrow> int \<Rightarrow> int \<Rightarrow> int option" where
  "isqrt_loop n lo hi =
     (if lo < hi then
        (let mid = saturating_add lo (clamp_i128 (quot (saturating_add (saturating_sub hi lo) 1) 2)) in
         if (case checked_mul mid mid of Some sq \<Rightarrow> sq \<le> n | None \<Rightarrow> False)
         then isqrt_loop n mid hi
         else isqrt_loop n lo (saturating_sub mid 1))
      else Some lo)"

definition isqrt :: "int \<Rightarrow> int option" where
  "isqrt n = (if n \<le> 1 then Some (max n 0) else isqrt_loop n 0 n)"

text \<open>The voter's own weight; the first vote of a voter records it.\<close>

definition own_weight :: "('w, 'm) env_scheme \<Rightarrow> address \<Rightarrow> nat \<Rightarrow> 'w gov \<Rightarrow> (int \<times> 'w gov) gov_result" where
  "own_weight e a n g =
     (case vote_weight_snapshot (gbook g) (n, a) of
        Some w \<Rightarrow> Inr (w, g)
      | None \<Rightarrow>
          and_then (get_gov_token g) (\<lambda>t.
          and_then (gov_balance e t a g) (\<lambda>current.
          and_then (ok_or (proposal_created_ledger (gbook g) n) (GovErr SnapshotLedgerMissing)) (\<lambda>created.
          and_then (proven_own_balance a current created g) (\<lambda>proven.
          Inr (proven, g\<lparr> gbook := (gbook g)\<lparr>
            vote_weight_snapshot := (vote_weight_snapshot (gbook g))((n, a) \<mapsto> proven) \<rparr> \<rparr>))))))"

definition vote_weight :: "int \<Rightarrow> address \<Rightarrow> 'w gov \<Rightarrow> int gov_result" where
  "vote_weight own a g =
     (let raw = saturating_add own (unwrap_or (delegated_to_me (gbook g) a) 0) in
      if is_quadratic_voting_enabled g then ok_or (isqrt raw) GovTrap else Inr raw)"

definition has_voted :: "address \<Rightarrow> nat \<Rightarrow> 'w gov \<Rightarrow> bool" where
  "has_voted a n g \<longleftrightarrow> voted_tmp (gtemp g) (n, a) \<noteq> None \<or> vote_receipt (gbook g) (n, a) \<noteq> None"

definition count_vote :: "bool \<Rightarrow> int \<Rightarrow> governance_proposal \<Rightarrow> governance_proposal" where
  "count_vote support w p =
     (if support then p\<lparr> votes_for := saturating_add (votes_for p) w \<rparr>
      else p\<lparr> votes_against := saturating_add (votes_against p) w \<rparr>)"

definition record_vote :: "address \<Rightarrow> nat \<Rightarrow> int \<Rightarrow> 'w gov \<Rightarrow> 'w gov" where
  "record_vote a n w g =
     g\<lparr> gtemp := (gtemp g)\<lparr> voted_tmp := (voted_tmp (gtemp g))((n, a) \<mapsto> True),
                            applied_weight_tmp := (applied_weight_tmp (gtemp g))((n, a) \<mapsto> w) \<rparr>,
        gbook := (gbook g)\<lparr> vote_receipt := (vote_receipt (gbook g))((n, a) \<mapsto> w) \<rparr> \<rparr>"

definition cast_vote :: "('w, 'm) env_scheme \<Rightarrow> address \<Rightarrow> nat \<Rightarrow> bool \<Rightarrow> 'w gov \<Rightarrow> 'w gov gov_result" where
  "cast_vote e a n support g =
     and_then (gov_auth e a) (\<lambda>_.
     and_then (load_proposal n g) (\<lambda>p.
     if timestamp e \<ge> voting_end p then gerr VotingEnded
     else if gp_status p \<noteq> Active then gerr ProposalNotActive
     else if has_voted a n g then gerr GovAlreadyVoted
     else
       and_then (get_gov_token g) (\<lambda>_.
       and_then (own_weight e a n g) (\<lambda>(own, g1).
       and_then (vote_weight own a g1) (\<lambda>w.
       if w = 0 then gerr NoVotingPower
       else Inr (gov_publish (VoteCast n a support w)
              (store_proposal (count_vote support w p) (record_vote a n w g1))))))))"

definition get_applied_vote_weight :: "nat \<Rightarrow> address \<Rightarrow> 'w gov \<Rightarrow> int option" where
  "get_applied_vote_weight n a g =
     (case applied_weight_tmp (gtemp g) (n, a) of Some w \<Rightarrow> Some w | None \<Rightarrow> vote_receipt (gbook g) (n, a))"

section \<open>Veto and execution\<close>

definition is_veto_power_enabled :: "'w gov \<Rightarrow> bool" where
  "is_veto_power_enabled g = unwrap_or (veto_power_enabled (gcfg g)) False"

definition set_execution_delay :: "('w, 'm) env_scheme \<Rightarrow> address \<Rightarrow> nat \<Rightarrow> 'w gov \<Rightarrow> 'w gov gov_result" where
  "set_execution_delay e adm delay g =
     and_then (gov_auth e adm) (\<lambda>_.
     and_then (ok_or (gov_admin (gcfg g)) (GovErr GovNotInitialized)) (\<lambda>stored.
     if adm \<noteq> stored then gerr GovUnauthorized
     else if delay > MAX_EXECUTION_DELAY_LEDGERS then gerr InvalidExecutionDelay
     else if \<not> is_veto_power_enabled g \<and> delay < MIN_PRODUCTION_EXECUTION_DELAY_LEDGERS
     then gerr ExecutionDelayOutOfBounds
     else Inr (gov_publish (GovernanceParameterUpdated ''execution_delay''
              (int (unwrap_or (execution_delay (gcfg g)) 0)) (int delay))
            (g\<lparr> gcfg := (gcfg g)\<lparr> execution_delay := Some delay \<rparr> \<rparr>))))"

definition get_veto_signers :: "'w gov \<Rightarrow> address list" where
  "get_veto_signers g = unwrap_or (veto_signers (gcfg g)) []"

definition get_veto_threshold :: "'w gov \<Rightarrow> nat" where
  "get_veto_threshold g = unwrap_or (veto_threshold (gcfg g)) 0"

definition get_timelock_status :: "'w gov \<Rightarrow> timelock_status" where
  "get_timelock_status g =
     \<lparr> tl_execution_delay = unwrap_or (execution_delay (gcfg g)) 0, tl_veto_enabled = is_veto_power_enabled g,
       tl_veto_signer_count = length (get_veto_signers g), tl_veto_threshold = get_veto_threshold g \<rparr>"

text \<open>The contract, function and arguments a proposal's action stands for.\<close>

definition action_call :: "address \<Rightarrow> proposal_action \<Rightarrow> 'w gov \<Rightarrow> (address \<times> string \<times> gov_val list) gov_result" where
  "action_call this act g =
     (case act of
        UpdateFeeRate r \<Rightarrow> and_then (get_iln_contract g) (\<lambda>c. Inr (c, ''update_fee_rate'', [VNat r]))
      | AddToken t d \<Rightarrow> and_then (get_iln_contract g) (\<lambda>c. Inr (c, ''add_token'', [VAddr t, VNat d]))
      | GovRemoveToken t \<Rightarrow> and_then (get_iln_contract g) (\<lambda>c. Inr (c, ''remove_token'', [VAddr t]))
      | UpdateMaxDiscountRate r \<Rightarrow> and_then (get_iln_contract g) (\<lambda>c. Inr (c, ''update_max_discount'', [VNat r]))
      | UpdateDecayParams r p \<Rightarrow> and_then (get_iln_contract g) (\<lambda>c. Inr (c, ''update_decay_params'', [VNat r, VNat p]))
      | UpdateDistributionRewardParams h u m \<Rightarrow>
          and_then (get_distribution_contract g) (\<lambda>c. Inr (c, ''update_reward_params'', [VInt h, VInt u, VInt m]))
      | UpdateFeeTiers ts \<Rightarrow> and_then (get_iln_contract g) (\<lambda>c. Inr (c, ''update_fee_tiers'', [VTiers ts]))
      | GovUpgrade h \<Rightarrow> and_then (get_iln_contract g) (\<lambda>c. Inr (c, ''upgrade'', [VBytes h]))
      | UpdateLpRewardRate r \<Rightarrow> and_then (get_distribution_contract g) (\<lambda>c. Inr (c, ''set_lp_reward_rate'', [VInt r]))
      | UpdateFreelancerRewardRate r \<Rightarrow>
          and_then (get_distribution_contract g) (\<lambda>c. Inr (c, ''set_freelancer_reward_rate'', [VInt r]))
      | UpdatePayerRewardRate r \<Rightarrow>
          and_then (get_distribution_contract g) (\<lambda>c. Inr (c, ''set_payer_reward_rate'', [VInt r]))
      | UpdateInsuranceCoverageCap v \<Rightarrow>
          and_then (get_iln_contract g) (\<lambda>c. Inr (c, ''set_coverage_via_governance'', [VInt v]))
      | UpdateInsurancePremiumRate r \<Rightarrow>
          and_then (get_iln_contract g) (\<lambda>c. Inr (c, ''set_premium_rate_via_governance'', [VNat r]))
      | UpdateReputationBonusParams h b m \<Rightarrow>
          and_then (get_reputation_bonus_contract g) (\<lambda>c.
            Inr (c, ''update_config'', [VAddr this, VNat h, VNat b, VNat m]))
      | GovRegisterOracle f o' \<Rightarrow> and_then (get_iln_contract g) (\<lambda>c. Inr (c, ''register_oracle'', [VFeed f, VAddr o']))
      | GovRemoveOracle f \<Rightarrow> and_then (get_iln_contract g) (\<lambda>c. Inr (c, ''remove_oracle'', [VFeed f]))
      | GovRegisterTokenOracle f t o' \<Rightarrow>
          and_then (get_iln_contract g) (\<lambda>c. Inr (c, ''register_token_oracle'', [VFeed f, VAddr t, VAddr o']))
      | UpdateMaxInvoiceAmount v \<Rightarrow> and_then (get_iln_contract g) (\<lambda>c. Inr (c, ''set_max_invoice_amount'', [VInt v]))
      | UpdateTokenVolumeCap t v \<Rightarrow>
          and_then (get_iln_contract g) (\<lambda>c. Inr (c, ''set_token_volume_cap'', [VAddr t, VInt v])))"

text \<open>
  Resolving a vote that has ended. The two rejections write the \<open>Rejected\<close> status and forfeit the
  deposit, and then return an error, which rolls both back.
\<close>

definition quorum_of :: "'w gov \<Rightarrow> int gov_result" where
  "quorum_of g =
     and_then (ok_or (min_quorum_bps (gcfg g)) (GovErr QuorumDataMissing)) (\<lambda>bps.
     let supply = unwrap_or (gov_token_total_supply (gcfg g)) 0 in
     if supply \<le> 0 \<or> bps = 0 \<or> bps > 10000 then gerr QuorumDataMissing
     else Inr (quot (saturating_mul supply (int bps)) 10000))"

definition reject_with :: "('w, 'm) env_scheme \<Rightarrow> governance_error \<Rightarrow> governance_proposal \<Rightarrow> 'w gov \<Rightarrow> 'w gov gov_result" where
  "reject_with e c p g =
     and_then (transition_status p Rejected g) (\<lambda>(p', g1).
     and_then (forfeit_proposal_deposit e (gp_id p) (gp_proposer p') g1) (\<lambda>_. gerr c))"

definition resolve_vote :: "('w, 'm) env_scheme \<Rightarrow> governance_proposal \<Rightarrow> 'w gov \<Rightarrow> 'w gov gov_result" where
  "resolve_vote e p g =
     (if votes_for p < 0 \<or> votes_against p < 0 then gerr InvalidVoteAccounting
      else
        and_then (ok_or (checked_add (votes_for p) (votes_against p)) (GovErr InvalidVoteAccounting)) (\<lambda>votes.
        and_then (quorum_of g) (\<lambda>quorum.
        if votes < quorum then reject_with e QuorumNotReached p g
        else if votes_for p \<le> votes_against p then reject_with e GovProposalRejected p g
        else
          let eta = sequence e + unwrap_or (execution_delay (gcfg g)) 0 in
          if eta > u32_max then gerr InvalidTimelock
          else
            and_then (transition_status (p\<lparr> eta_ledger := eta \<rparr>) Passed g) (\<lambda>(p', g1).
            and_then (refund_proposal_deposit e (gp_id p) (gp_proposer p') g1) (\<lambda>(_, g2). Inr g2)))))"

definition run_action :: "('w, 'm) gov_env_scheme \<Rightarrow> governance_proposal \<Rightarrow> 'w gov \<Rightarrow> 'w gov gov_result" where
  "run_action e p g =
     and_then (assert_executable e p) (\<lambda>_.
     and_then (get_iln_contract g) (\<lambda>_.
     and_then (action_call (self e) (action_type p) g) (\<lambda>(c, f, args).
     case x_invoke e (gov_wld g) c f args of
       None \<Rightarrow> Inr (gov_publish (ProposalExecutionFailed (gp_id p) (action_type p)) g)
     | Some w \<Rightarrow>
         and_then (transition_status p Executed (g\<lparr> gov_wld := w \<rparr>)) (\<lambda>(p', g1).
         let g2 = g1\<lparr> gbook := (gbook g1)\<lparr> proposal_executed_record := (proposal_executed_record (gbook g1))(gp_id p \<mapsto> True) \<rparr>,
                      gcfg := (gcfg g1)\<lparr> execution_nonce := Some (sat_add_u64 (unwrap_or (execution_nonce (gcfg g1)) 0) 1) \<rparr> \<rparr>
         in and_then (refund_proposal_deposit e (gp_id p) (gp_proposer p') g2) (\<lambda>(_, g3).
            Inr (gov_publish (GovProposalExecuted (gp_id p) (action_type p) (proposed_value p) (votes_for p) (votes_against p))
              g3))))))"

definition gov_execute_proposal :: "('w, 'm) gov_env_scheme \<Rightarrow> nat \<Rightarrow> 'w gov \<Rightarrow> 'w gov gov_result" where
  "gov_execute_proposal e n g =
     and_then (load_proposal n g) (\<lambda>p.
     if gp_status p = Vetoed then gerr ProposalCancelled
     else if gp_status p = Executed then gerr ProposalAlreadyExecuted
     else if timestamp e < voting_end p then gerr VotingOngoing
     else if gp_status p = Active then resolve_vote e p g
     else if gp_status p = Passed then run_action e p g
     else gerr AlreadyResolved)"

definition configure_veto_multisig :: "('w, 'm) env_scheme \<Rightarrow> address list \<Rightarrow> nat \<Rightarrow> 'w gov \<Rightarrow> 'w gov gov_result" where
  "configure_veto_multisig e sgs k g =
     (if sgs = [] \<or> k = 0 \<or> k > length sgs then gerr InvalidVetoMultisigConfig
      else if \<not> distinct sgs then gerr InvalidVetoMultisigConfig
      else
        and_then (if veto_signers (gcfg g) \<noteq> None then and_then (require_iln e g) (\<lambda>_. Inr ())
          else and_then (ok_or (gov_admin (gcfg g)) (GovErr GovNotInitialized)) (gov_auth e)) (\<lambda>_.
        Inr (gov_publish (VetoMultisigConfigured sgs k) (g\<lparr> gcfg := (gcfg g)\<lparr>
          veto_signers := Some sgs, veto_threshold := Some k \<rparr> \<rparr>))))"

definition veto_approvals_from_persistent :: "nat \<Rightarrow> 'w gov \<Rightarrow> address list" where
  "veto_approvals_from_persistent n g = filter (\<lambda>a. veto_approval_receipt (gbook g) (n, a) \<noteq> None) (get_veto_signers g)"

definition verified_proposer :: "governance_proposal \<Rightarrow> 'w gov \<Rightarrow> (address \<times> 'w gov) gov_result" where
  "verified_proposer p g =
     (case proposal_proposer (gbook g) (gp_id p) of
        Some a \<Rightarrow> if a = gp_proposer p then Inr (a, g) else gerr ProposerIdentityMismatch
      | None \<Rightarrow> Inr (gp_proposer p, g\<lparr> gbook := (gbook g)\<lparr>
          proposal_proposer := (proposal_proposer (gbook g))(gp_id p \<mapsto> gp_proposer p) \<rparr> \<rparr>))"

definition put_veto_state :: "nat \<Rightarrow> veto_status \<Rightarrow> veto_status \<Rightarrow> nat \<Rightarrow> nat \<Rightarrow> bytes32 \<Rightarrow> 'w gov \<Rightarrow> 'w gov" where
  "put_veto_state n prev next_status k quota h g =
     gov_publish (VetoStateTransition n prev next_status k quota) (g\<lparr> gcfg := (gcfg g)\<lparr>
       veto_state_at := (veto_state_at (gcfg g))(n \<mapsto> \<lparr> vs_status = next_status, approvals_count = k,
         vs_threshold = quota, vs_reason_hash = h \<rparr>) \<rparr> \<rparr>)"

definition veto_empty_hash :: bytes32 where "veto_empty_hash = replicate 32 0"

text \<open>The threshold is reached: clear the approvals, cancel the proposal, forfeit the deposit.\<close>

definition execute_veto :: "('w, 'm) env_scheme \<Rightarrow> address \<Rightarrow> bytes32 \<Rightarrow> veto_status \<Rightarrow> address list \<Rightarrow> nat \<Rightarrow>
    governance_proposal \<Rightarrow> 'w gov \<Rightarrow> 'w gov gov_result" where
  "execute_veto e a h prev approvals quota p g =
     (let n = gp_id p;
          g1 = g\<lparr> gtemp := (gtemp g)\<lparr> veto_approvals_tmp := (veto_approvals_tmp (gtemp g))(n := None) \<rparr>,
                  gbook := (gbook g)\<lparr> veto_approval_receipt := (\<lambda>(m, x). if m = n \<and> x \<in> set approvals then None
                    else veto_approval_receipt (gbook g) (m, x)) \<rparr> \<rparr>
      in and_then (transition_status p Vetoed g1) (\<lambda>(p', g2).
         and_then (forfeit_proposal_deposit e n (gp_proposer p')
             (put_veto_state n prev VetoExecuted (length approvals) quota h g2)) (\<lambda>(_, g3).
         Inr (gov_publish (ProposalVetoed n a h) g3))))"

definition record_veto_approval :: "nat \<Rightarrow> address \<Rightarrow> 'w gov \<Rightarrow> address list \<times> 'w gov" where
  "record_veto_approval n a g =
     (let g1 = g\<lparr> gbook := (gbook g)\<lparr>
            veto_approval_receipt := (veto_approval_receipt (gbook g))((n, a) \<mapsto> True) \<rparr> \<rparr>;
          approvals = veto_approvals_from_persistent n g1
      in (approvals, g1\<lparr> gtemp := (gtemp g1)\<lparr> veto_approvals_tmp := (veto_approvals_tmp (gtemp g1))(n \<mapsto> approvals) \<rparr> \<rparr>))"

definition veto_proposal :: "('w, 'm) env_scheme \<Rightarrow> address \<Rightarrow> nat \<Rightarrow> bytes32 \<Rightarrow> 'w gov \<Rightarrow> 'w gov gov_result" where
  "veto_proposal e a n h g =
     and_then (gov_auth e a) (\<lambda>_.
     if h = veto_empty_hash then gerr ConsentRequired
     else if \<not> is_veto_power_enabled g then gerr VetoPowerDisabled
     else
       and_then (ok_or (veto_signers (gcfg g)) (GovErr VetoMultisigNotConfigured)) (\<lambda>sgs.
       if a \<notin> set sgs then gerr NotVetoSigner
       else
         and_then (load_proposal n g) (\<lambda>p.
         and_then (verified_proposer p g) (\<lambda>(_, g0).
         if gp_status p \<noteq> Active \<and> gp_status p \<noteq> Passed then gerr NotVetoable
         else
           let quota = get_veto_threshold g0;
               prev = (case veto_state_at (gcfg g0) n of Some v \<Rightarrow> vs_status v | None \<Rightarrow> Uninitiated)
           in if prev = VetoExecuted then gerr InvalidVetoTransition
           else if veto_approval_receipt (gbook g0) (n, a) \<noteq> None then gerr VetoAlreadyApproved
           else
             let approvals = fst (record_veto_approval n a g0); g2 = snd (record_veto_approval n a g0)
             in if length approvals < quota
                then Inr (gov_publish (VetoApproved n a (length approvals) quota)
                       (put_veto_state n prev VetoPending (length approvals) quota h g2))
                else execute_veto e a h prev approvals quota p g2))))"

definition get_veto_state :: "nat \<Rightarrow> 'w gov \<Rightarrow> veto_state" where
  "get_veto_state n g =
     (case veto_state_at (gcfg g) n of
        Some v \<Rightarrow> v
      | None \<Rightarrow>
          let k = get_veto_threshold g in
          if (case proposal_at (gbook g) n of None \<Rightarrow> False | Some p \<Rightarrow> gp_status p = Vetoed)
          then \<lparr> vs_status = VetoExecuted, approvals_count = k, vs_threshold = k, vs_reason_hash = veto_empty_hash \<rparr>
          else \<lparr> vs_status = Uninitiated, approvals_count = 0, vs_threshold = k, vs_reason_hash = veto_empty_hash \<rparr>)"

definition internal_disable_veto_power :: "('w, 'm) env_scheme \<Rightarrow> bytes32 \<Rightarrow> 'w gov \<Rightarrow> 'w gov gov_result" where
  "internal_disable_veto_power e h g =
     and_then (require_iln e g) (\<lambda>a.
     if \<not> is_veto_power_enabled g then gerr VetoPowerAlreadyDisabled
     else
       let r = \<lparr> authorized_by = a, disabled_at_ledger = sequence e, vd_reason_hash = h \<rparr> in
       Inr (gov_publish (VetoDisableRecorded r) (gov_publish (VetoPowerDisabledBy a) (g\<lparr> gcfg := (gcfg g)\<lparr>
         veto_power_enabled := Some False, veto_disabled := Some r \<rparr> \<rparr>))))"

definition disable_veto_power :: "('w, 'm) env_scheme \<Rightarrow> 'w gov \<Rightarrow> 'w gov gov_result" where
  "disable_veto_power e g = internal_disable_veto_power e veto_empty_hash g"

definition disable_veto_power_with_reason :: "('w, 'm) env_scheme \<Rightarrow> bytes32 \<Rightarrow> 'w gov \<Rightarrow> 'w gov gov_result" where
  "disable_veto_power_with_reason e h g =
     (if h = veto_empty_hash then gerr ConsentRequired else internal_disable_veto_power e h g)"

text \<open>Newest first, at most \<open>min page_size 20\<close> proposals below the cursor.\<close>

definition list_proposals :: "proposal_status option \<Rightarrow> nat option \<Rightarrow> nat \<Rightarrow> 'w gov \<Rightarrow> governance_proposal list" where
  "list_proposals st cursor page_size g =
     (let count = unwrap_or (proposal_count (gcfg g)) 0 in
      if count = 0 \<or> page_size = 0 then []
      else if (case cursor of None \<Rightarrow> False | Some c \<Rightarrow> c \<le> 1) then []
      else
        let start = (case cursor of None \<Rightarrow> count | Some c \<Rightarrow> min (c - 1) count) in
        take (min page_size 20) (filter (\<lambda>p. case st of None \<Rightarrow> True | Some x \<Rightarrow> gp_status p = x)
          (List.map_filter (proposal_at (gbook g)) (rev [1..<Suc start]))))"

section \<open>Invocations\<close>

datatype gov_call =
    GovInitialize address address address address address int
  | SetMaxDelegationDepth nat | SetGovTokenTotalSupply int | SetMinQuorumBps nat
  | SetMinProposalDeposit int | SetProposalDepositSink "address option" | SetQuadraticVotingEnabled bool
  | SetMinProposalBalance int | CreateProposal address proposal_action bytes32 int
  | CheckpointBalance address | DelegateVotes address address | UndelegateVotes address
  | CastVote address nat bool | SetExecutionDelay address nat | ExecuteProposal nat
  | ConfigureVetoMultisig "address list" nat | VetoProposal address nat bytes32
  | DisableVetoPower | DisableVetoPowerWithReason bytes32

fun gov_exec :: "('w, 'm) gov_env_scheme \<Rightarrow> gov_call \<Rightarrow> 'w gov \<Rightarrow> 'w gov gov_result" where
  "gov_exec e (GovInitialize iln dist rep tok adm supply) g = gov_initialize iln dist rep tok adm supply g"
| "gov_exec e (SetMaxDelegationDepth d) g = set_max_delegation_depth e d g"
| "gov_exec e (SetGovTokenTotalSupply v) g = set_gov_token_total_supply e v g"
| "gov_exec e (SetMinQuorumBps b) g = set_min_quorum_bps e b g"
| "gov_exec e (SetMinProposalDeposit v) g = set_min_proposal_deposit e v g"
| "gov_exec e (SetProposalDepositSink s) g = set_proposal_deposit_sink e s g"
| "gov_exec e (SetQuadraticVotingEnabled b) g = set_quadratic_voting_enabled e b g"
| "gov_exec e (SetMinProposalBalance v) g = set_min_proposal_balance e v g"
| "gov_exec e (CreateProposal a act h v) g = and_then (create_proposal e a act h v g) (\<lambda>(_, g'). Inr g')"
| "gov_exec e (CheckpointBalance a) g = checkpoint_balance e a g"
| "gov_exec e (DelegateVotes a d) g = delegate_votes e a d g"
| "gov_exec e (UndelegateVotes a) g = undelegate_votes e a g"
| "gov_exec e (CastVote a n b) g = cast_vote e a n b g"
| "gov_exec e (SetExecutionDelay a d) g = set_execution_delay e a d g"
| "gov_exec e (ExecuteProposal n) g = gov_execute_proposal e n g"
| "gov_exec e (ConfigureVetoMultisig ss k) g = configure_veto_multisig e ss k g"
| "gov_exec e (VetoProposal a n h) g = veto_proposal e a n h g"
| "gov_exec e DisableVetoPower g = disable_veto_power e g"
| "gov_exec e (DisableVetoPowerWithReason h) g = disable_veto_power_with_reason e h g"

text \<open>
  A history: invocations, of which a failing one leaves the state as it was, events on the rest of
  the ledger, and the archival of temporary entries.
\<close>

datatype 'w gov_action = GovInvoke "'w gov_env" gov_call | GovOthers "'w \<Rightarrow> 'w" | GovArchive "(nat \<times> address) set" "nat set"

fun gov_act :: "'w gov_action \<Rightarrow> 'w gov \<Rightarrow> 'w gov" where
  "gov_act (GovInvoke e c) g = (case gov_exec e c g of Inl _ \<Rightarrow> g | Inr g' \<Rightarrow> g')"
| "gov_act (GovOthers f) g = g\<lparr> gov_wld := f (gov_wld g) \<rparr>"
| "gov_act (GovArchive votes vetoes) g = g\<lparr> gtemp := \<lparr> voted_tmp = voted_tmp (gtemp g) |` (- votes),
     applied_weight_tmp = applied_weight_tmp (gtemp g) |` (- votes),
     veto_approvals_tmp = veto_approvals_tmp (gtemp g) |` (- vetoes) \<rparr> \<rparr>"

fun gov_run :: "'w gov_action list \<Rightarrow> 'w gov \<Rightarrow> 'w gov" where
  "gov_run [] g = g"
| "gov_run (x # xs) g = gov_run xs (gov_act x g)"

text \<open>The delegation pointers and their reverse index; what an executed proposal leaves.\<close>

definition graph :: "'w gov \<Rightarrow> (address \<rightharpoonup> address) \<times> (address \<rightharpoonup> address list)" where
  "graph g = (delegation (gbook g), delegators (gbook g))"

definition founding :: "'w gov \<Rightarrow> address option \<times> address option" where
  "founding g = (iln_contract (gcfg g), gov_token (gcfg g))"

definition executed_from :: "governance_proposal \<Rightarrow> 'w gov \<Rightarrow> 'w gov \<Rightarrow> bool" where
  "executed_from p g g' \<longleftrightarrow> proposal_at (gbook g') = (proposal_at (gbook g))(gp_id p \<mapsto> p\<lparr> gp_status := Executed \<rparr>) \<and>
     graph g' = graph g \<and> vote_receipt (gbook g') = vote_receipt (gbook g) \<and>
     proposal_count (gcfg g') = proposal_count (gcfg g) \<and> founding g' = founding g"

section \<open>Lemmas: inversion and frames\<close>

lemma gov_auth_eq_Inr [res_simps]: "gov_auth e a = Inr u \<longleftrightarrow> a \<in> auths e"
  by (simp add: gov_auth_def)

lemma require_iln_eq_Inr [res_simps]:
  "require_iln e g = Inr a \<longleftrightarrow> iln_contract (gcfg g) = Some a \<and> a \<in> auths e"
  by (auto simp: require_iln_def get_iln_contract_def res_simps)

lemma gov_transfer_eq_Inr [res_simps]:
  "gov_transfer e t from to x g = Inr g' \<longleftrightarrow>
     (\<exists>w. x_transfer (ext e) (gov_wld g) t (insert (self e) (auths e)) from to x = Some w \<and> g' = g\<lparr> gov_wld := w \<rparr>)"
  by (auto simp: gov_transfer_def res_simps)

lemma gov_publish_simps [simp]:
  "gcfg (gov_publish ev g) = gcfg g" "gbook (gov_publish ev g) = gbook g" "gtemp (gov_publish ev g) = gtemp g"
  "gov_wld (gov_publish ev g) = gov_wld g"
  by (simp_all add: gov_publish_def)

lemmas gov_setters = gov_initialize_def set_max_delegation_depth_def set_gov_token_total_supply_def
  set_min_quorum_bps_def set_min_proposal_deposit_def set_proposal_deposit_sink_def
  set_quadratic_voting_enabled_def set_min_proposal_balance_def set_execution_delay_def
  configure_veto_multisig_def disable_veto_power_def disable_veto_power_with_reason_def
  internal_disable_veto_power_def

text \<open>The deposit paths touch only the deposit entries, the ledger and the event log.\<close>

lemma refund_frame:
  assumes "refund_proposal_deposit e n a g = Inr (b, g')"
  shows "gcfg g' = gcfg g" and "gtemp g' = gtemp g" and "proposal_at (gbook g') = proposal_at (gbook g)"
    and "graph g' = graph g" and "vote_receipt (gbook g') = vote_receipt (gbook g)"
  using assms
  by (auto simp: refund_proposal_deposit_def settle_deposit_def graph_def Let_def res_simps split: if_splits)

lemma forfeit_frame:
  assumes "forfeit_proposal_deposit e n a g = Inr (b, g')"
  shows "gcfg g' = gcfg g" and "gtemp g' = gtemp g" and "proposal_at (gbook g') = proposal_at (gbook g)"
    and "graph g' = graph g" and "vote_receipt (gbook g') = vote_receipt (gbook g)"
  using assms
  by (auto simp: forfeit_proposal_deposit_def settle_deposit_def graph_def Let_def res_simps
      split: if_splits option.splits)

lemma transition_status_eq_Inr [res_simps]:
  "transition_status p st g = Inr (p', g') \<longleftrightarrow>
     is_legal_transition (gp_status p) st \<and> p' = p\<lparr> gp_status := st \<rparr> \<and> g' = store_proposal p' g"
  by (auto simp: transition_status_def Let_def)

lemma load_proposal_eq_Inr [res_simps]:
  "load_proposal n g = Inr p \<longleftrightarrow> n \<noteq> 0 \<and> n \<le> unwrap_or (proposal_count (gcfg g)) 0 \<and>
     proposal_at (gbook g) n = Some p \<and> gp_id p = n"
  by (auto simp: load_proposal_def res_simps)

lemma own_weight_frame:
  assumes "own_weight e a n g = Inr (w, g')"
  shows "gcfg g' = gcfg g" and "gtemp g' = gtemp g" and "proposal_at (gbook g') = proposal_at (gbook g)"
    and "graph g' = graph g" and "vote_receipt (gbook g') = vote_receipt (gbook g)"
    and "delegated_to_me (gbook g') = delegated_to_me (gbook g)"
  using assms by (auto simp: own_weight_def graph_def res_simps split: option.splits)

lemma graph_upd [simp]:
  "graph (store_proposal p g) = graph g" "graph (gov_publish ev g) = graph g" "graph (record_vote a n w g) = graph g"
  "graph (g\<lparr> gcfg := c \<rparr>) = graph g" "graph (g\<lparr> gtemp := t \<rparr>) = graph g" "graph (g\<lparr> gov_wld := v \<rparr>) = graph g"
  "graph (put_veto_state n x y k q h g) = graph g" "graph (record_proposal e p b g) = graph g"
  by (simp_all add: graph_def store_proposal_def record_vote_def put_veto_state_def record_proposal_def Let_def)

lemma resolve_vote_eq_Inr:
  assumes "resolve_vote e p g = Inr g'"
  obtains eta g1 where "votes_against p < votes_for p" and "0 \<le> votes_against p"
    and "eta = sequence e + unwrap_or (execution_delay (gcfg g)) 0" and "gp_status p = Active"
    and "g1 = store_proposal (p\<lparr> eta_ledger := eta, gp_status := Passed \<rparr>) g"
    and "\<exists>b. refund_proposal_deposit e (gp_id p) (gp_proposer p) g1 = Inr (b, g')"
proof -
  have legal: "is_legal_transition st Passed \<Longrightarrow> st = Active" for st by (cases st) simp_all
  show thesis
    using assms that legal
    by (auto simp: resolve_vote_def reject_with_def res_simps Let_def not_less not_le split: if_splits)
qed

lemma run_action_eq_Inr:
  assumes "run_action e p g = Inr g'"
  obtains c f args where "gp_status p = Passed" and "voting_end p \<le> timestamp e" and "eta_ledger p \<le> sequence e"
    and "action_call (self e) (action_type p) g = Inr (c, f, args)"
    and "(x_invoke e (gov_wld g) c f args = None \<and> g' = gov_publish (ProposalExecutionFailed (gp_id p) (action_type p)) g) \<or>
      (x_invoke e (gov_wld g) c f args \<noteq> None \<and> executed_from p g g')"
proof -
  from assms obtain c f args where a: "gp_status p = Passed" "voting_end p \<le> timestamp e" "eta_ledger p \<le> sequence e"
    and call: "action_call (self e) (action_type p) g = Inr (c, f, args)"
    by (auto simp: run_action_def assert_executable_def res_simps not_less split: if_splits)
  have "executed_from p g g'" if w: "x_invoke e (gov_wld g) c f args = Some w" for w
  proof -
    let ?g1 = "store_proposal (p\<lparr> gp_status := Executed \<rparr>) (g\<lparr> gov_wld := w \<rparr>)"
    let ?g2 = "?g1\<lparr> gbook := (gbook ?g1)\<lparr> proposal_executed_record := (proposal_executed_record (gbook ?g1))(gp_id p \<mapsto> True) \<rparr>,
      gcfg := (gcfg ?g1)\<lparr> execution_nonce := Some (sat_add_u64 (unwrap_or (execution_nonce (gcfg ?g1)) 0) 1) \<rparr> \<rparr>"
    from assms call w obtain b g3 ev where r: "refund_proposal_deposit e (gp_id p) (gp_proposer p) ?g2 = Inr (b, g3)"
      and g': "g' = gov_publish ev g3"
      by (auto simp: run_action_def res_simps Let_def)
    show ?thesis using refund_frame [OF r] g' by (simp add: executed_from_def store_proposal_def graph_def founding_def)
  qed
  moreover have "g' = gov_publish (ProposalExecutionFailed (gp_id p) (action_type p)) g"
    if "x_invoke e (gov_wld g) c f args = None"
    using assms call that by (auto simp: run_action_def res_simps)
  ultimately show thesis by (intro that [OF a call]) (cases "x_invoke e (gov_wld g) c f args"; simp)
qed

lemma verified_proposer_frame:
  assumes "verified_proposer p g = Inr (a, g')"
  shows "gcfg g' = gcfg g" and "gtemp g' = gtemp g" and "proposal_at (gbook g') = proposal_at (gbook g)"
    and "graph g' = graph g" and "vote_receipt (gbook g') = vote_receipt (gbook g)"
  using assms by (auto simp: verified_proposer_def graph_def split: option.splits if_splits)

text \<open>A veto either records an approval or cancels the proposal.\<close>

definition same_votes :: "'w gov \<Rightarrow> 'w gov \<Rightarrow> bool" where
  "same_votes g g' \<longleftrightarrow> graph g' = graph g \<and> vote_receipt (gbook g') = vote_receipt (gbook g) \<and>
     proposal_count (gcfg g') = proposal_count (gcfg g) \<and> founding g' = founding g"

lemma execute_veto_eq_Inr:
  assumes "execute_veto e a h prev approvals quota p g = Inr g'"
  shows "same_votes g g'" and "proposal_at (gbook g') = (proposal_at (gbook g))(gp_id p \<mapsto> p\<lparr> gp_status := Vetoed \<rparr>)"
    and "gp_status p = Active \<or> gp_status p = Passed"
proof -
  have legal: "is_legal_transition st Vetoed \<Longrightarrow> st = Active \<or> st = Passed" for st by (cases st) simp_all
  let ?g1 = "g\<lparr> gtemp := (gtemp g)\<lparr> veto_approvals_tmp := (veto_approvals_tmp (gtemp g))(gp_id p := None) \<rparr>,
    gbook := (gbook g)\<lparr> veto_approval_receipt := (\<lambda>(m, x). if m = gp_id p \<and> x \<in> set approvals then None
      else veto_approval_receipt (gbook g) (m, x)) \<rparr> \<rparr>"
  let ?g2 = "put_veto_state (gp_id p) prev VetoExecuted (length approvals) quota h
    (store_proposal (p\<lparr> gp_status := Vetoed \<rparr>) ?g1)"
  from assms obtain g3 b ev where st: "is_legal_transition (gp_status p) Vetoed"
    and g3: "forfeit_proposal_deposit e (gp_id p) (gp_proposer p) ?g2 = Inr (b, g3)" "g' = gov_publish ev g3"
    by (auto simp: execute_veto_def Let_def res_simps)
  have "same_votes g ?g2" "proposal_at (gbook ?g2) = (proposal_at (gbook g))(gp_id p \<mapsto> p\<lparr> gp_status := Vetoed \<rparr>)"
    by (simp_all add: same_votes_def founding_def graph_def store_proposal_def put_veto_state_def)
  then show "same_votes g g'" "proposal_at (gbook g') = (proposal_at (gbook g))(gp_id p \<mapsto> p\<lparr> gp_status := Vetoed \<rparr>)"
    using forfeit_frame [OF g3(1)] g3(2) by (simp_all add: same_votes_def founding_def)
  show "gp_status p = Active \<or> gp_status p = Passed" using legal [OF st] .
qed

lemma veto_proposal_eq_Inr:
  assumes "veto_proposal e a n h g = Inr g'"
  obtains p where "proposal_at (gbook g) n = Some p" and "gp_id p = n" and "same_votes g g'"
    and "proposal_at (gbook g') = proposal_at (gbook g) \<or>
      (gp_status p = Active \<or> gp_status p = Passed) \<and>
      proposal_at (gbook g') = (proposal_at (gbook g))(n \<mapsto> p\<lparr> gp_status := Vetoed \<rparr>)"
proof -
  from assms obtain p x g0 where p: "proposal_at (gbook g) n = Some p" "gp_id p = n"
    and v: "verified_proposer p g = Inr (x, g0)"
    and r0: "(\<exists>ev st prev k q. g' = gov_publish ev (put_veto_state n prev st k q h (snd (record_veto_approval n a g0)))) \<or>
       (\<exists>prev q. execute_veto e a h prev (fst (record_veto_approval n a g0)) q p (snd (record_veto_approval n a g0)) = Inr g')"
    unfolding veto_proposal_def Let_def by (force simp: res_simps split: if_splits)
  obtain approvals g2 where rec: "record_veto_approval n a g0 = (approvals, g2)" by fastforce
  note r = r0 [unfolded rec fst_conv snd_conv] and f = verified_proposer_frame [OF v]
  have g2: "same_votes g g2" "proposal_at (gbook g2) = proposal_at (gbook g)"
    using f rec by (auto simp: same_votes_def founding_def graph_def record_veto_approval_def Let_def)
  from r show thesis
  proof (elim exE disjE, goal_cases)
    case (1 ev st prev k q)
    then have "same_votes g g'" "proposal_at (gbook g') = proposal_at (gbook g)"
      using g2 by (simp_all add: same_votes_def founding_def put_veto_state_def)
    then show ?case using p by (intro that [of p]) simp_all
  next
    case (2 prev q)
    note x = execute_veto_eq_Inr [OF 2]
    have "same_votes g g'" using x(1) g2(1) by (simp add: same_votes_def founding_def)
    moreover have "proposal_at (gbook g') = (proposal_at (gbook g))(n \<mapsto> p\<lparr> gp_status := Vetoed \<rparr>)"
      using x(2) g2(2) p(2) by simp
    ultimately show ?case using p x(3) by (intro that [of p]) simp_all
  qed
qed

lemma escrow_deposit_frame:
  assumes "escrow_deposit e t n a d g = Inr g'"
  shows "gcfg g' = gcfg g" and "proposal_at (gbook g') = proposal_at (gbook g)"
    and "graph g' = graph g" and "vote_receipt (gbook g') = vote_receipt (gbook g)"
  using assms by (auto simp: escrow_deposit_def graph_def res_simps split: if_splits)

lemma create_proposal_eq_Inr:
  assumes "create_proposal e a act h v g = Inr (n, g')"
  shows "n = sat_add_u64 (unwrap_or (proposal_count (gcfg g)) 0) 1"
    and "proposal_at (gbook g') = (proposal_at (gbook g))(n \<mapsto> new_proposal e n a act h v)"
    and "proposal_count (gcfg g') = Some n" and "graph g' = graph g"
    and "vote_receipt (gbook g') = vote_receipt (gbook g)" and "founding g' = founding g" and "gov_token (gcfg g) \<noteq> None"
proof -
  from assms obtain t bal d g3 ev where t: "gov_token (gcfg g) = Some t" and n: "n = sat_add_u64 (unwrap_or (proposal_count (gcfg g)) 0) 1"
    and g3: "escrow_deposit e t n a d (record_proposal e (new_proposal e n a act h v) bal g) = Inr g3"
    and g': "g' = gov_publish ev g3"
    by (auto simp: create_proposal_def get_gov_token_def res_simps Let_def split: if_splits)
  note f = escrow_deposit_frame [OF g3]
  show "n = sat_add_u64 (unwrap_or (proposal_count (gcfg g)) 0) 1" by (fact n)
  show "proposal_at (gbook g') = (proposal_at (gbook g))(n \<mapsto> new_proposal e n a act h v)"
    "proposal_count (gcfg g') = Some n" "graph g' = graph g" "vote_receipt (gbook g') = vote_receipt (gbook g)"
    "founding g' = founding g" "gov_token (gcfg g) \<noteq> None"
    using f t by (simp_all add: g' record_proposal_def Let_def graph_def new_proposal_def founding_def)
qed

lemma cast_vote_eq_Inr:
  assumes "cast_vote e a n b g = Inr g'"
  obtains p own g1 w where "a \<in> auths e" and "proposal_at (gbook g) n = Some p" and "gp_id p = n" and "gp_status p = Active"
    and "timestamp e < voting_end p" and "\<not> has_voted a n g" and "own_weight e a n g = Inr (own, g1)"
    and "vote_weight own a g1 = Inr w" and "w \<noteq> 0"
    and "proposal_at (gbook g') = (proposal_at (gbook g))(n \<mapsto> count_vote b w p)"
    and "vote_receipt (gbook g') = (vote_receipt (gbook g))((n, a) \<mapsto> w)" and "graph g' = graph g" and "gcfg g' = gcfg g"
proof -
  from assms obtain p own g1 w where c: "a \<in> auths e" "proposal_at (gbook g) n = Some p" "gp_id p = n"
    "gp_status p = Active" "timestamp e < voting_end p" "\<not> has_voted a n g" "own_weight e a n g = Inr (own, g1)"
    "vote_weight own a g1 = Inr w" "w \<noteq> 0"
    and g': "g' = gov_publish (VoteCast n a b w) (store_proposal (count_vote b w p) (record_vote a n w g1))"
    by (auto simp: cast_vote_def res_simps not_le split: if_splits)
  note f = own_weight_frame [OF c(7)]
  have "gp_id (count_vote b w p) = n" using c(3) by (simp add: count_vote_def)
  then show thesis
    using f by (intro that [OF c]) (simp_all add: g' store_proposal_def record_vote_def graph_def)
qed

lemma delegation_helper_frame [simp]:
  "gcfg (adjust_delegated_to_me a v g) = gcfg g" "gcfg (remove_delegator d a g) = gcfg g"
  "gcfg (add_delegator d a g) = gcfg g" "gcfg (set_delegation a x g) = gcfg g"
  "proposal_at (gbook (adjust_delegated_to_me a v g)) = proposal_at (gbook g)"
  "proposal_at (gbook (remove_delegator d a g)) = proposal_at (gbook g)"
  "proposal_at (gbook (add_delegator d a g)) = proposal_at (gbook g)"
  "proposal_at (gbook (set_delegation a x g)) = proposal_at (gbook g)"
  "vote_receipt (gbook (adjust_delegated_to_me a v g)) = vote_receipt (gbook g)"
  "vote_receipt (gbook (remove_delegator d a g)) = vote_receipt (gbook g)"
  "vote_receipt (gbook (add_delegator d a g)) = vote_receipt (gbook g)"
  "vote_receipt (gbook (set_delegation a x g)) = vote_receipt (gbook g)"
  "gov_wld (adjust_delegated_to_me a v g) = gov_wld g" "gov_wld (remove_delegator d a g) = gov_wld g"
  "gov_wld (add_delegator d a g) = gov_wld g" "gov_wld (set_delegation a x g) = gov_wld g"
  by (simp_all add: adjust_delegated_to_me_def remove_delegator_def add_delegator_def set_delegation_def Let_def)

lemma drop_old_delegation_frame [simp]:
  "gcfg (drop_old_delegation a v g) = gcfg g" "gov_wld (drop_old_delegation a v g) = gov_wld g"
  "proposal_at (gbook (drop_old_delegation a v g)) = proposal_at (gbook g)"
  "vote_receipt (gbook (drop_old_delegation a v g)) = vote_receipt (gbook g)"
  by (simp_all add: drop_old_delegation_def split: option.split)

lemma delegate_votes_eq_Inr:
  assumes "delegate_votes e a d g = Inr g'"
  obtains proven ev where "a \<noteq> d" and "cycle_check (delegation (gbook g)) a (get_max_delegation_depth g) (delegation (gbook g) d) = Inr ()"
    and "g' = gov_publish ev (adjust_delegated_to_me (resolve_terminal d g) proven
      (add_delegator d a (set_delegation a (Some d) (drop_old_delegation a proven g))))"
  using assms by (auto simp: delegate_votes_def Let_def res_simps split: if_splits)

lemma undelegate_votes_eq_Inr:
  assumes "undelegate_votes e a g = Inr g'"
  obtains ev where "delegation (gbook g) a = None" and "g' = gov_publish ev g"
  | ev bal old where "delegation (gbook g) a = Some old" and "g' = gov_publish ev (set_delegation a None (drop_old_delegation a bal g))"
  using assms by (auto simp: undelegate_votes_def res_simps split: option.splits if_splits)

lemma delegation_frame:
  assumes "delegate_votes e a d g = Inr g' \<or> undelegate_votes e a g = Inr g'"
  shows "gcfg g' = gcfg g" and "proposal_at (gbook g') = proposal_at (gbook g)"
    and "vote_receipt (gbook g') = vote_receipt (gbook g)"
  using assms by (auto elim!: delegate_votes_eq_Inr undelegate_votes_eq_Inr)

lemma checkpoint_frame:
  assumes "checkpoint_balance e a g = Inr g'"
  shows "gcfg g' = gcfg g" and "proposal_at (gbook g') = proposal_at (gbook g)"
    and "vote_receipt (gbook g') = vote_receipt (gbook g)" and "graph g' = graph g"
  using assms by (auto simp: checkpoint_balance_def graph_def Let_def res_simps)

lemma gov_execute_eq_Inr:
  assumes "gov_execute_proposal e n g = Inr g'"
  obtains p where "proposal_at (gbook g) n = Some p" and "gp_id p = n" and "voting_end p \<le> timestamp e"
    and "gp_status p = Active \<and> resolve_vote e p g = Inr g' \<or> gp_status p = Passed \<and> run_action e p g = Inr g'"
  using assms by (auto simp: gov_execute_proposal_def res_simps not_less split: if_splits)

fun sets_only :: "gov_call \<Rightarrow> bool" where
  "sets_only (CreateProposal _ _ _ _) = False"
| "sets_only (DelegateVotes _ _) = False"
| "sets_only (UndelegateVotes _) = False"
| "sets_only (CastVote _ _ _) = False"
| "sets_only (ExecuteProposal _) = False"
| "sets_only (VetoProposal _ _ _) = False"
| "sets_only _ = True"

text \<open>The remaining calls change parameters; re-initialisation would reset the proposal counter.\<close>

lemma setter_frame:
  assumes "gov_exec e c g = Inr g'" and "sets_only c"
  shows "graph g' = graph g" and "proposal_at (gbook g') = proposal_at (gbook g)"
    and "vote_receipt (gbook g') = vote_receipt (gbook g)"
    and "iln_contract (gcfg g) \<noteq> None \<Longrightarrow> proposal_count (gcfg g') = proposal_count (gcfg g)"
    and "iln_contract (gcfg g) \<noteq> None \<Longrightarrow> founding g' = founding g"
    and "iln_contract (gcfg g') = None \<Longrightarrow> founding g' = founding g"
  using assms
  by (cases c; clarsimp simp: gov_setters res_simps graph_def founding_def checkpoint_balance_def Let_def split: if_splits)+

end
