(* ===== verification/GovDelegation.thy ===== *)
theory GovDelegation
  imports Governance
begin

text \<open>
  Vote delegation and the quadratic weight.

  Shown here: the integer square root ends and is the floor of the root; in every state the
  contract can reach the delegation pointers are acyclic, the reverse index is exact, and the
  depth-first search over it, which would not end on a cycle, ends with the length of the longest
  chain of delegations into the address.
\<close>

section \<open>The integer square root\<close>

text \<open>The midpoint lies strictly above the lower bound, also where \<open>hi - lo + 1\<close> saturates.\<close>

lemma isqrt_mid:
  assumes "0 \<le> lo" and "lo < hi" and "hi \<le> i128_max"
  shows "lo < saturating_add lo (clamp_i128 (quot (saturating_add (saturating_sub hi lo) 1) 2)) \<and>
    saturating_add lo (clamp_i128 (quot (saturating_add (saturating_sub hi lo) 1) 2)) \<le> hi"
proof -
  let ?c = "clamp_i128 (hi - lo + 1)"
  have sub: "saturating_sub hi lo = hi - lo" using assms by (simp add: saturating_sub_def clamp_i128_def width_defs)
  have c: "2 \<le> ?c" "?c \<le> hi - lo + 1" "?c \<le> i128_max" using assms by (simp_all add: clamp_i128_def width_defs)
  have q: "quot ?c 2 = ?c div 2" using c(1) by (simp add: quot_nonneg)
  have "1 \<le> ?c div 2" "?c div 2 \<le> hi - lo" using c assms by linarith+
  moreover from this have "clamp_i128 (?c div 2) = ?c div 2" "clamp_i128 (lo + ?c div 2) = lo + ?c div 2"
    using assms by (simp_all add: clamp_i128_def width_defs)
  ultimately show ?thesis by (simp add: sub saturating_add_def q)
qed

lemma square_fits:
  assumes "0 \<le> n" and "n \<le> i128_max" and "0 \<le> m"
  shows "(case checked_mul m m of Some sq \<Rightarrow> sq \<le> n | None \<Rightarrow> False) \<longleftrightarrow> m * m \<le> n"
proof -
  have "0 \<le> m * m" using assms(3) by simp
  then have "i128_min \<le> m * m" by (rule order_trans [rotated]) (simp add: width_defs)
  then show ?thesis using assms(2) by (auto simp: checked_mul_def in_i128_def)
qed

lemma isqrt_loop_correct:
  assumes "0 \<le> lo" and "lo \<le> hi" and "hi \<le> i128_max" and "lo * lo \<le> n" and "n < (hi + 1) * (hi + 1)"
    and "n \<le> i128_max"
  shows "\<exists>r. isqrt_loop n lo hi = Some r \<and> 0 \<le> r \<and> r * r \<le> n \<and> n < (r + 1) * (r + 1)"
  using assms
proof (induction "nat (hi - lo)" arbitrary: lo hi rule: less_induct)
  case less
  show ?case
  proof (cases "lo < hi")
    case False
    then show ?thesis using less.prems by (subst isqrt_loop.simps) (auto simp: not_less)
  next
    case True
    define mid where "mid = saturating_add lo (clamp_i128 (quot (saturating_add (saturating_sub hi lo) 1) 2))"
    have mid: "lo < mid" "mid \<le> hi" using isqrt_mid [OF less.prems(1) True less.prems(3)] by (simp_all add: mid_def)
    have n: "0 \<le> n" using less.prems(1,4) by (meson mult_nonneg_nonneg order_trans)
    have sq: "(case checked_mul mid mid of Some sq \<Rightarrow> sq \<le> n | None \<Rightarrow> False) \<longleftrightarrow> mid * mid \<le> n"
      using square_fits [OF n less.prems(6)] mid(1) less.prems(1) by simp
    have dec: "saturating_sub mid 1 = mid - 1"
      using mid less.prems by (simp add: saturating_sub_def clamp_i128_def width_defs)
    have step: "isqrt_loop n lo hi = (if mid * mid \<le> n then isqrt_loop n mid hi else isqrt_loop n lo (mid - 1))"
      using True by (subst isqrt_loop.simps) (simp add: Let_def dec flip: mid_def sq)
    show ?thesis
    proof (cases "mid * mid \<le> n")
      case True
      then show ?thesis using less.hyps [of hi mid] less.prems mid step by simp
    next
      case False
      then show ?thesis using less.hyps [of "mid - 1" lo] less.prems mid step by simp
    qed
  qed
qed

text \<open>
  The quadratic vote weight is the floor of the square root for every i128 balance: the binary
  search ends and neither its midpoint nor its square overflows unnoticed.
\<close>

lemma isqrt_floor:
  assumes "0 \<le> n" and "n \<le> i128_max"
  shows "\<exists>r. isqrt n = Some r \<and> 0 \<le> r \<and> r * r \<le> n \<and> n < (r + 1) * (r + 1)"
proof (cases "n \<le> 1")
  case True
  then have "n = 0 \<or> n = 1" using assms(1) by linarith
  then show ?thesis by (auto simp: isqrt_def)
next
  case False
  have "n < (n + 1) * (n + 1)" using assms(1) by (simp add: algebra_simps add_strict_increasing)
  then show ?thesis using isqrt_loop_correct [of 0 n n] assms False by (simp add: isqrt_def)
qed

section \<open>The depth-first search\<close>

text \<open>\<open>chain_into D a k\<close>: some chain of \<open>k\<close> delegations ends in \<open>a\<close>.\<close>

fun chain_into :: "(address \<rightharpoonup> address) \<Rightarrow> address \<Rightarrow> nat \<Rightarrow> bool" where
  "chain_into D a 0 \<longleftrightarrow> True"
| "chain_into D a (Suc k) \<longleftrightarrow> (\<exists>p. D p = Some a \<and> chain_into D p k)"

definition longest_chain :: "(address \<rightharpoonup> address) \<Rightarrow> address \<Rightarrow> nat" where
  "longest_chain D a = Max {k. chain_into D a k}"

text \<open>Every finished entry of the search holds the length of the longest chain, in a u32.\<close>

definition finished :: "(address \<rightharpoonup> address) \<Rightarrow> (address \<rightharpoonup> nat) \<Rightarrow> bool" where
  "finished D best \<longleftrightarrow> (\<forall>a v. best a = Some v \<longrightarrow> v = min (longest_chain D a) u32_max)"

text \<open>
  What the search relies on: a rank that rises along every delegation, and an index of exactly
  the addresses that delegate to an address.
\<close>

definition delegation_index :: "(address \<rightharpoonup> address) \<Rightarrow> (address \<Rightarrow> address list) \<Rightarrow> (address \<Rightarrow> nat) \<Rightarrow> bool" where
  "delegation_index D preds rank \<longleftrightarrow>
     (\<forall>a b. D a = Some b \<longrightarrow> rank a < rank b) \<and> (\<forall>b. set (preds b) = {a. D a = Some b})"

lemma index_rises: "delegation_index D preds rank \<Longrightarrow> D a = Some b \<Longrightarrow> rank a < rank b"
  by (simp add: delegation_index_def)

lemma index_exact: "delegation_index D preds rank \<Longrightarrow> set (preds b) = {a. D a = Some b}"
  by (simp add: delegation_index_def)

lemma chain_le_rank:
  assumes "delegation_index D preds rank" and "chain_into D a k"
  shows "k \<le> rank a"
  using assms(2)
proof (induction k arbitrary: a)
  case (Suc k)
  then obtain p where "D p = Some a" "chain_into D p k" by auto
  then show ?case using Suc.IH index_rises [OF assms(1)] by fastforce
qed simp

lemma finite_chains: "delegation_index D preds rank \<Longrightarrow> finite {k. chain_into D a k}"
  by (rule finite_subset [of _ "{..rank a}"]) (auto dest: chain_le_rank)

lemma longest_chain_max:
  assumes "delegation_index D preds rank"
  shows "chain_into D a (longest_chain D a)" and "chain_into D a k \<Longrightarrow> k \<le> longest_chain D a"
proof -
  have "0 \<in> {k. chain_into D a k}" by simp
  then show "chain_into D a (longest_chain D a)" unfolding longest_chain_def
    using Max_in [OF finite_chains [OF assms], of a] by blast
  show "chain_into D a k \<Longrightarrow> k \<le> longest_chain D a" unfolding longest_chain_def
    using finite_chains [OF assms] by (intro Max_ge) simp_all
qed

lemma longest_chain_Suc:
  assumes "delegation_index D preds rank" and "p \<in> set (preds a)"
  shows "Suc (longest_chain D p) \<le> longest_chain D a"
  using longest_chain_max(1) [OF assms(1), of p] index_exact [OF assms(1)] assms(2)
  by (intro longest_chain_max(2) [OF assms(1)]) auto

lemma longest_chain_cases:
  assumes "delegation_index D preds rank"
  shows "longest_chain D a = 0 \<or> (\<exists>p \<in> set (preds a). longest_chain D a \<le> Suc (longest_chain D p))"
proof (cases "longest_chain D a")
  case (Suc k)
  then obtain p where "D p = Some a" "chain_into D p k" using longest_chain_max(1) [OF assms, of a] by auto
  then show ?thesis using longest_chain_max(2) [OF assms] index_exact [OF assms] Suc by auto
qed simp

lemma node_best_upper:
  assumes "\<And>p. p \<in> set ps \<Longrightarrow> sat_add_u32 (unwrap_or (best p) 0) 1 \<le> m" and "b \<le> m"
  shows "fold (\<lambda>p b. let c = sat_add_u32 (unwrap_or (best p) 0) 1 in if c > b then c else b) ps b \<le> m"
  using assms by (induction ps arbitrary: b) (simp_all add: Let_def)

lemma node_best_lower:
  "b \<le> fold (\<lambda>p b. let c = sat_add_u32 (unwrap_or (best p) 0) 1 in if c > b then c else b) ps b \<and>
   (\<forall>p \<in> set ps. sat_add_u32 (unwrap_or (best p) 0) 1 \<le>
      fold (\<lambda>p b. let c = sat_add_u32 (unwrap_or (best p) 0) 1 in if c > b then c else b) ps b)"
proof (induction ps arbitrary: b)
  case (Cons q ps)
  let ?c = "sat_add_u32 (unwrap_or (best q) 0) 1"
  show ?case using Cons [of "if ?c > b then ?c else b"] by (auto simp: Let_def)
qed simp

lemma node_best_finished:
  assumes idx: "delegation_index D preds rank" and "finished D best" and "set (preds a) \<subseteq> dom best"
  shows "node_best best (preds a) = min (longest_chain D a) u32_max"
proof -
  have val: "sat_add_u32 (unwrap_or (best p) 0) 1 = min (Suc (longest_chain D p)) u32_max"
    if pa: "p \<in> set (preds a)" for p
  proof -
    obtain v where v: "best p = Some v" using assms(3) pa by blast
    then have "v = min (longest_chain D p) u32_max" using assms(2) by (simp add: finished_def)
    then show ?thesis using v by (simp add: sat_add_u32_def min_def)
  qed
  have "node_best best (preds a) \<le> min (longest_chain D a) u32_max"
    unfolding node_best_def using longest_chain_Suc [OF idx] val by (intro node_best_upper) (fastforce simp: min_def)+
  moreover have "min (longest_chain D a) u32_max \<le> node_best best (preds a)"
  proof (cases "longest_chain D a = 0")
    case False
    then obtain p where p: "p \<in> set (preds a)" "longest_chain D a \<le> Suc (longest_chain D p)"
      using longest_chain_cases [OF idx, of a] by auto
    have "sat_add_u32 (unwrap_or (best p) 0) 1 \<le> node_best best (preds a)"
      unfolding node_best_def using node_best_lower [of 0 best "preds a"] p(1) by blast
    then show ?thesis using p(2) val [OF p(1)] by simp
  qed simp
  ultimately show ?thesis by (rule antisym)
qed

text \<open>A node on top of the stack is worked off together with everything it pushes.\<close>

definition worked_off :: "(address \<rightharpoonup> address) \<Rightarrow> (address \<Rightarrow> address list) \<Rightarrow> (address \<rightharpoonup> nat) \<Rightarrow> address list \<Rightarrow>
    (address \<times> bool) list \<Rightarrow> bool" where
  "worked_off D preds best ps rest \<longleftrightarrow>
     (\<exists>best'. inbound_loop preds best (map (\<lambda>p. (p, False)) ps @ rest) = inbound_loop preds best' rest \<and>
        finished D best' \<and> best \<subseteq>\<^sub>m best' \<and> set ps \<subseteq> dom best')"

lemma search_list:
  assumes "\<And>p best rest. p \<in> set ps \<Longrightarrow> finished D best \<Longrightarrow> worked_off D preds best [p] rest" and "finished D best"
  shows "worked_off D preds best ps rest"
  using assms
proof (induction ps arbitrary: best)
  case Nil
  then show ?case by (auto simp: worked_off_def)
next
  case (Cons p ps)
  obtain b1 where b1: "inbound_loop preds best ((p, False) # map (\<lambda>p. (p, False)) ps @ rest) =
      inbound_loop preds b1 (map (\<lambda>p. (p, False)) ps @ rest)" "finished D b1" "best \<subseteq>\<^sub>m b1" "p \<in> dom b1"
    using Cons.prems(1) [of p best] Cons.prems(2) by (auto simp: worked_off_def)
  obtain b2 where b2: "inbound_loop preds b1 (map (\<lambda>p. (p, False)) ps @ rest) = inbound_loop preds b2 rest"
    "finished D b2" "b1 \<subseteq>\<^sub>m b2" "set ps \<subseteq> dom b2"
    using Cons.IH [OF _ b1(2)] Cons.prems(1) by (auto simp: worked_off_def)
  have "best \<subseteq>\<^sub>m b2" "p \<in> dom b2" using b1(3,4) b2(3) map_le_trans map_le_implies_dom_le by blast+
  then show ?case using b1 b2 by (auto simp: worked_off_def)
qed

lemma search_node:
  assumes idx: "delegation_index D preds rank"
  shows "finished D best \<Longrightarrow> worked_off D preds best [a] rest"
proof (induction "rank a" arbitrary: a best rest rule: less_induct)
  case (less a best rest)
  show ?case
  proof (cases "best a")
    case (Some v)
    then show ?thesis using less.prems unfolding worked_off_def
      by (intro exI [of _ best]) (auto simp: inbound_loop.simps [of preds best "(a, False) # rest"])
  next
    case None
    let ?ps = "rev (filter (\<lambda>p. best p = None) (preds a))"
    have ps: "rank p < rank a" if "p \<in> set ?ps" for p using that index_exact [OF idx] index_rises [OF idx] by auto
    obtain b1 where b1: "inbound_loop preds best (map (\<lambda>p. (p, False)) ?ps @ (a, True) # rest) =
        inbound_loop preds b1 ((a, True) # rest)" "finished D b1" "best \<subseteq>\<^sub>m b1" "set ?ps \<subseteq> dom b1"
      using search_list [of ?ps D preds best "(a, True) # rest"] less.hyps [OF ps] less.prems
      unfolding worked_off_def by blast
    have "dom best \<subseteq> dom b1" using b1(3) by (rule map_le_implies_dom_le)
    moreover have "set (preds a) \<subseteq> dom best \<union> set ?ps" by auto
    ultimately have "set (preds a) \<subseteq> dom b1" using b1(4) by blast
    then have nb: "node_best b1 (preds a) = min (longest_chain D a) u32_max" by (rule node_best_finished [OF idx b1(2)])
    let ?b = "b1(a \<mapsto> node_best b1 (preds a))"
    have "inbound_loop preds best ((a, False) # rest) = inbound_loop preds ?b rest"
      using None b1(1) by (simp add: inbound_loop.simps [of preds best "(a, False) # rest"]
          inbound_loop.simps [of preds b1 "(a, True) # rest"] rev_map)
    moreover have "finished D ?b" using b1(2) nb by (simp add: finished_def)
    moreover have "best \<subseteq>\<^sub>m ?b" using b1(3) None by (auto simp: map_le_def)
    ultimately show ?thesis by (auto simp: worked_off_def)
  qed
qed

lemma search_correct:
  assumes "delegation_index D preds rank"
  shows "map_option (\<lambda>best. unwrap_or (best a) 0) (inbound_loop preds Map.empty [(a, False)]) =
    Some (min (longest_chain D a) u32_max)"
proof -
  have "finished D Map.empty" by (simp add: finished_def)
  from search_node [OF assms this, of a "[]"] obtain best where
    b: "inbound_loop preds Map.empty [(a, False)] = inbound_loop preds best []" "finished D best" "a \<in> dom best"
    by (auto simp: worked_off_def)
  from b(3) obtain v where "best a = Some v" by blast
  with b show ?thesis by (auto simp: finished_def inbound_loop.simps [of preds best "[]"])
qed

section \<open>The delegation graph of the contract\<close>

definition graph_ok :: "'w gov \<Rightarrow> bool" where
  "graph_ok g \<longleftrightarrow> (\<exists>rank. delegation_index (delegation (gbook g)) (\<lambda>a. get_delegators a g) rank)"

lemma graph_ok_cong: "graph g' = graph g \<Longrightarrow> graph_ok g' = graph_ok g"
  by (simp add: graph_def graph_ok_def get_delegators_def)

text \<open>What the helpers do to the pointers and to the index.\<close>

lemma graph_helpers [simp]:
  "delegation (gbook (adjust_delegated_to_me a v g)) = delegation (gbook g)"
  "get_delegators x (adjust_delegated_to_me a v g) = get_delegators x g"
  "delegation (gbook (remove_delegator d a g)) = delegation (gbook g)"
  "get_delegators x (remove_delegator d a g) =
     (if x = d then filter (\<lambda>y. y \<noteq> a) (get_delegators d g) else get_delegators x g)"
  "delegation (gbook (add_delegator d a g)) = delegation (gbook g)"
  "set (get_delegators x (add_delegator d a g)) =
     (if x = d then insert a (set (get_delegators d g)) else set (get_delegators x g))"
  "delegation (gbook (set_delegation a y g)) = (delegation (gbook g))(a := y)"
  "get_delegators x (set_delegation a y g) = get_delegators x g"
  "get_delegators x (gov_publish ev g) = get_delegators x g"
  by (auto simp: adjust_delegated_to_me_def remove_delegator_def add_delegator_def set_delegation_def get_delegators_def Let_def)

lemma drop_old_delegation_graph:
  assumes "\<And>b. set (get_delegators b g) = {x. delegation (gbook g) x = Some b}"
  shows "delegation (gbook (drop_old_delegation a v g)) = delegation (gbook g)"
    and "set (get_delegators b (drop_old_delegation a v g)) = {x. delegation (gbook g) x = Some b \<and> x \<noteq> a}"
  using assms by (auto simp: drop_old_delegation_def split: option.split)

text \<open>The cycle check walks the whole chain or fails.\<close>

definition points_to :: "(address \<rightharpoonup> address) \<Rightarrow> (address \<times> address) set" where
  "points_to D = {(x, y). D x = Some y}"

lemma cycle_check_sound:
  assumes "cycle_check D a k (Some x) = Inr ()"
  shows "(x, a) \<notin> (points_to D)\<^sup>*"
  using assms
proof (induction k arbitrary: x)
  case (Suc k)
  show ?case
  proof
    assume "(x, a) \<in> (points_to D)\<^sup>*"
    then show False
    proof (cases rule: converse_rtranclE)
      case base
      then show ?thesis using Suc.prems by simp
    next
      case (step y)
      then have "D x = Some y" by (simp add: points_to_def)
      then show ?thesis using Suc.IH [of y] Suc.prems step(2) by (simp split: if_splits)
    qed
  qed
qed (simp split: if_splits)

text \<open>A new edge that closes no cycle: lift everything its target leads to.\<close>

lemma rank_add_edge:
  assumes rises: "\<And>x y. D x = Some y \<Longrightarrow> rank x < (rank y :: nat)" and "(d, a) \<notin> (points_to D)\<^sup>*"
  shows "\<exists>rank' :: address \<Rightarrow> nat. \<forall>x y. (D(a := Some d)) x = Some y \<longrightarrow> rank' x < rank' y"
proof -
  let ?R = "\<lambda>x. (d, x) \<in> (points_to D)\<^sup>*"
  let ?rank = "\<lambda>x. rank x + (if ?R x then Suc (rank a) else 0)"
  have "?rank x < ?rank y" if xy: "(D(a := Some d)) x = Some y" for x y
  proof (cases "x = a")
    case True
    then show ?thesis using xy assms(2) by simp
  next
    case False
    then have e: "D x = Some y" using xy by simp
    then have "?R x \<Longrightarrow> ?R y" by (auto simp: points_to_def intro: rtrancl_into_rtrancl)
    then show ?thesis using rises [OF e] by auto
  qed
  then show ?thesis by (intro exI [of _ ?rank] allI impI)
qed

lemma delegate_keeps_graph:
  assumes ok: "graph_ok g" and "delegate_votes e a d g = Inr g'"
  shows "graph_ok g'"
proof -
  let ?D = "delegation (gbook g)"
  from ok obtain rank where idx: "delegation_index ?D (\<lambda>x. get_delegators x g) rank" by (auto simp: graph_ok_def)
  note exact = index_exact [OF idx] and rises = index_rises [OF idx]
  from assms(2) obtain proven ev where ad: "a \<noteq> d" "cycle_check ?D a (get_max_delegation_depth g) (?D d) = Inr ()"
    and g': "g' = gov_publish ev (adjust_delegated_to_me (resolve_terminal d g) proven
      (add_delegator d a (set_delegation a (Some d) (drop_old_delegation a proven g))))"
    by (rule delegate_votes_eq_Inr)
  have "(d, a) \<notin> (points_to ?D)\<^sup>*"
  proof
    assume "(d, a) \<in> (points_to ?D)\<^sup>*"
    then show False
    proof (cases rule: converse_rtranclE)
      case base
      then show ?thesis using ad(1) by simp
    next
      case (step y)
      then have "?D d = Some y" by (simp add: points_to_def)
      then show ?thesis using cycle_check_sound ad(2) step(2) by metis
    qed
  qed
  then obtain rank' :: "address \<Rightarrow> nat" where r': "\<forall>x y. (?D(a := Some d)) x = Some y \<longrightarrow> rank' x < rank' y"
    using rank_add_edge [of ?D rank] rises by blast
  have D': "delegation (gbook g') = ?D(a := Some d)" by (simp add: g' drop_old_delegation_graph(1) [OF exact])
  have "set (get_delegators b g') = {x. (?D(a := Some d)) x = Some b}" for b
    by (auto simp: g' drop_old_delegation_graph(2) [OF exact])
  then have "delegation_index (delegation (gbook g')) (\<lambda>x. get_delegators x g') rank'"
    using r' unfolding D' delegation_index_def by blast
  then show ?thesis unfolding graph_ok_def by blast
qed

lemma undelegate_keeps_graph:
  assumes ok: "graph_ok g" and "undelegate_votes e a g = Inr g'"
  shows "graph_ok g'"
proof -
  from ok obtain rank where idx: "delegation_index (delegation (gbook g)) (\<lambda>x. get_delegators x g) rank"
    by (auto simp: graph_ok_def)
  note exact = index_exact [OF idx] and rises = index_rises [OF idx]
  from assms(2) show ?thesis
  proof (cases rule: undelegate_votes_eq_Inr)
    case (1 ev)
    then show ?thesis using ok by (simp add: graph_ok_def)
  next
    case (2 ev bal old)
    have "delegation_index (delegation (gbook g')) (\<lambda>x. get_delegators x g') rank"
      using rises by (auto simp: 2(2) delegation_index_def drop_old_delegation_graph [OF exact] split: if_splits)
    then show ?thesis by (auto simp: graph_ok_def)
  qed
qed

lemma exec_keeps_graph:
  assumes "graph_ok g" and "gov_exec e c g = Inr g'"
  shows "graph_ok g'"
proof (cases "sets_only c")
  case True
  then show ?thesis using setter_frame(1) [OF assms(2)] assms(1) graph_ok_cong by blast
next
  case False
  then have "graph g' = graph g \<or> graph_ok g'" using assms
  proof (cases c)
    case (CreateProposal a act h v)
    then show ?thesis using assms(2) create_proposal_eq_Inr(4) by (auto simp: res_simps)
  next
    case (CastVote a n b)
    then show ?thesis using assms(2) by (auto elim: cast_vote_eq_Inr)
  next
    case (ExecuteProposal n)
    then have "gov_execute_proposal e n g = Inr g'" using assms(2) by simp
    then show ?thesis
      by (elim gov_execute_eq_Inr disjE conjE resolve_vote_eq_Inr run_action_eq_Inr exE)
        (auto simp: executed_from_def dest: refund_frame(4))
  next
    case (VetoProposal a n h)
    then show ?thesis using assms(2) by (auto elim!: veto_proposal_eq_Inr simp: same_votes_def)
  next
    case (DelegateVotes a d)
    then show ?thesis using delegate_keeps_graph [OF assms(1), of e a d g'] assms(2) by simp
  next
    case (UndelegateVotes a)
    then show ?thesis using undelegate_keeps_graph [OF assms(1), of e a g'] assms(2) by simp
  qed simp_all
  then show ?thesis using assms(1) graph_ok_cong by blast
qed

lemma run_keeps_graph: "graph_ok g \<Longrightarrow> graph_ok (gov_run acts g)"
proof (induction acts arbitrary: g)
  case (Cons act acts)
  have "graph_ok (gov_act act g)"
  proof (cases act)
    case (GovInvoke e c)
    then show ?thesis using Cons.prems exec_keeps_graph by (auto split: sum.split)
  qed (use Cons.prems in \<open>simp_all add: graph_ok_def get_delegators_def\<close>)
  then show ?case using Cons.IH by simp
qed simp

lemma fresh_graph_ok: "graph_ok (fresh_gov w)"
  by (auto simp: graph_ok_def delegation_index_def fresh_gov_def get_delegators_def)

lemma rank_acyclic:
  assumes "\<And>x y. D x = Some y \<Longrightarrow> rank x < (rank y :: nat)" and "(a, b) \<in> (points_to D)\<^sup>+"
  shows "rank a < rank b"
  using assms(2) by (induction rule: trancl_induct) (use assms(1) in \<open>auto simp: points_to_def dest: less_trans\<close>)

section \<open>Properties\<close>

text \<open>
  C40: after every history of the governance contract no address delegates to itself through any
  number of hops, the list of delegators of an address is exact, and the search for the deepest
  chain into an address ends with the length of the longest chain of delegations into it.
\<close>

theorem delegation_graph_sound:
  "(a, a) \<notin> (points_to (delegation (gbook (gov_run acts (fresh_gov w)))))\<^sup>+ \<and>
   set (get_delegators a (gov_run acts (fresh_gov w))) = {x. delegation (gbook (gov_run acts (fresh_gov w))) x = Some a} \<and>
   longest_inbound_depth a (gov_run acts (fresh_gov w)) =
     Some (min (longest_chain (delegation (gbook (gov_run acts (fresh_gov w)))) a) u32_max)"
proof -
  let ?g = "gov_run acts (fresh_gov w)"
  obtain rank where idx: "delegation_index (delegation (gbook ?g)) (\<lambda>x. get_delegators x ?g) rank"
    using run_keeps_graph [OF fresh_graph_ok, of acts w] unfolding graph_ok_def by blast
  have "(a, a) \<notin> (points_to (delegation (gbook ?g)))\<^sup>+" using rank_acyclic [of "delegation (gbook ?g)" rank a a] index_rises [OF idx] by blast
  then show ?thesis using index_exact [OF idx] search_correct [OF idx] by (simp add: longest_inbound_depth_def)
qed

end
