(* ===== verification/GovVotes.thy ===== *)
theory GovVotes
  imports GovDelegation
begin

text \<open>
  The life cycle of a governance proposal and the vote.

  \<open>gp_step\<close> is what an invocation may do to a stored proposal: a vote while it is active, passing
  with quorum and majority after the voting window, execution after the announced ledger, a veto.
  Shown here: every invocation makes at most one such step on each stored proposal, so no history
  ever leaves a proposal rejected, and executed and vetoed proposals never change; nobody votes
  twice on a proposal, whatever the host archives; the delegation pointer of a voter plays no part
  in their own vote, so weight that was delegated is counted twice when the delegator votes too.
\<close>

section \<open>Steps of a proposal\<close>

inductive gp_step :: "('w, 'm) gov_env_scheme \<Rightarrow> gov_call \<Rightarrow> 'w gov \<Rightarrow> governance_proposal \<Rightarrow> governance_proposal \<Rightarrow> bool"
  for e :: "('w, 'm) gov_env_scheme" and c :: gov_call and g :: "'w gov" and p :: governance_proposal where
  gp_vote: "c = CastVote a (gp_id p) b \<Longrightarrow> gp_status p = Active \<Longrightarrow> timestamp e < voting_end p \<Longrightarrow>
    gp_step e c g p (count_vote b w p)"
| gp_pass: "c = ExecuteProposal (gp_id p) \<Longrightarrow> gp_status p = Active \<Longrightarrow> voting_end p \<le> timestamp e \<Longrightarrow>
    quorum_of g = Inr k \<Longrightarrow> k \<le> votes_for p + votes_against p \<Longrightarrow>
    votes_against p < votes_for p \<Longrightarrow> 0 \<le> votes_against p \<Longrightarrow> sequence e \<le> eta \<Longrightarrow>
    gp_step e c g p (p\<lparr> eta_ledger := eta, gp_status := Passed \<rparr>)"
| gp_execute: "c = ExecuteProposal (gp_id p) \<Longrightarrow> gp_status p = Passed \<Longrightarrow> voting_end p \<le> timestamp e \<Longrightarrow>
    eta_ledger p \<le> sequence e \<Longrightarrow> gp_step e c g p (p\<lparr> gp_status := Executed \<rparr>)"
| gp_veto: "c = VetoProposal a (gp_id p) h \<Longrightarrow> gp_status p = Active \<or> gp_status p = Passed \<Longrightarrow>
    gp_step e c g p (p\<lparr> gp_status := Vetoed \<rparr>)"

text \<open>What a proposal never loses, and what its status says about its votes.\<close>

definition gp_terms :: "governance_proposal \<Rightarrow> nat \<times> address \<times> bytes32 \<times> proposal_action \<times> int \<times> nat \<times> nat" where
  "gp_terms p = (gp_id p, gp_proposer p, description_hash p, action_type p, proposed_value p, gp_created_at p, voting_end p)"

definition gp_ok :: "governance_proposal \<Rightarrow> bool" where
  "gp_ok p \<longleftrightarrow> gp_status p \<noteq> Rejected \<and>
     (gp_status p = Passed \<or> gp_status p = Executed \<longrightarrow> 0 \<le> votes_against p \<and> votes_against p < votes_for p)"

text \<open>
  In the history \<open>acts\<close> from \<open>g\<close> an invocation has passed the proposal: after its voting window, with
  the quorum of that moment and a ledger from which it may be executed. An invocation has executed
  it: after the window and not before that ledger.
\<close>

definition passed_in :: "'w gov \<Rightarrow> 'w gov_action list \<Rightarrow> governance_proposal \<Rightarrow> bool" where
  "passed_in g acts q \<longleftrightarrow> (\<exists>xs e ys k. acts = xs @ GovInvoke e (ExecuteProposal (gp_id q)) # ys \<and>
     voting_end q \<le> timestamp e \<and> sequence e \<le> eta_ledger q \<and> quorum_of (gov_run xs g) = Inr k \<and>
     k \<le> votes_for q + votes_against q)"

definition executed_in :: "'w gov_action list \<Rightarrow> governance_proposal \<Rightarrow> bool" where
  "executed_in acts q \<longleftrightarrow> (\<exists>e. GovInvoke e (ExecuteProposal (gp_id q)) \<in> set acts \<and>
     voting_end q \<le> timestamp e \<and> eta_ledger q \<le> sequence e)"

definition gp_evolved :: "'w gov \<Rightarrow> 'w gov_action list \<Rightarrow> governance_proposal \<Rightarrow> governance_proposal \<Rightarrow> bool" where
  "gp_evolved g acts p q \<longleftrightarrow> gp_terms q = gp_terms p \<and>
     (gp_status p = Executed \<or> gp_status p = Vetoed \<longrightarrow> q = p) \<and>
     (gp_status p = Passed \<longrightarrow> gp_status q \<noteq> Active \<and> votes_for q = votes_for p \<and>
        votes_against q = votes_against p \<and> eta_ledger q = eta_ledger p) \<and>
     (gp_status p = Active \<and> (gp_status q = Passed \<or> gp_status q = Executed) \<longrightarrow> passed_in g acts q) \<and>
     (gp_status p \<noteq> Executed \<and> gp_status q = Executed \<longrightarrow> executed_in acts q)"

abbreviation proposals :: "'w gov \<Rightarrow> nat" where
  "proposals g \<equiv> unwrap_or (proposal_count (gcfg g)) 0"

text \<open>Stored proposals are well formed and counted; there are none before the initialisation.\<close>

definition votes_ok :: "'w gov \<Rightarrow> bool" where
  "votes_ok g \<longleftrightarrow> proposals g \<le> u64_max \<and>
     (iln_contract (gcfg g) = None \<longrightarrow> gov_token (gcfg g) = None \<and> proposal_count (gcfg g) = None \<and>
        proposal_at (gbook g) = Map.empty) \<and>
     (\<forall>n p. proposal_at (gbook g) n = Some p \<longrightarrow> gp_id p = n \<and> n \<le> proposals g \<and> gp_ok p)"

text \<open>
  An example: a deployment over the mock token, of which \<open>Address 1\<close> holds 5000; they propose a fee
  rate, vote for it, and anybody passes the proposal once the window is over.
\<close>

definition gov_call_env :: "nat \<Rightarrow> address \<Rightarrow> mock_ledger gov_env" where
  "gov_call_env ts a = env.extend (call_env mock_ext ts ts {a}) \<lparr> x_invoke = (\<lambda>w _ _ _. Some w) \<rparr>"

definition gov_setup :: "mock_ledger gov_action list" where
  "gov_setup =
     [GovInvoke (gov_call_env 10 (Address 2)) (GovInitialize (Address 6) (Address 7) (Address 8) (Address 9) (Address 2) 5000),
      GovInvoke (gov_call_env 20 (Address 1)) (CreateProposal (Address 1) (UpdateFeeRate 50) [] 50)]"

definition gov_ballot :: "mock_ledger gov_action list" where
  "gov_ballot =
     [GovInvoke (gov_call_env 30 (Address 1)) (CastVote (Address 1) 1 True),
      GovInvoke (gov_call_env 259220 (Address 3)) (ExecuteProposal 1)]"

abbreviation gov_ledger :: mock_ledger where
  "gov_ledger \<equiv> [Address 9 \<mapsto> mock_holding (Address 1) 5000]"

section \<open>Every invocation makes at most one step\<close>

lemma count_vote_simps [simp]:
  "gp_status (count_vote b w p) = gp_status p" "gp_terms (count_vote b w p) = gp_terms p"
  "gp_id (count_vote b w p) = gp_id p" "voting_end (count_vote b w p) = voting_end p"
  "eta_ledger (count_vote b w p) = eta_ledger p"
  by (simp_all add: count_vote_def gp_terms_def)

lemma gp_step_keeps:
  assumes "gp_step e c g p q"
  shows "gp_terms q = gp_terms p" and "gp_ok p \<Longrightarrow> gp_ok q"
proof -
  have "gp_terms q = gp_terms p \<and> (gp_ok p \<longrightarrow> gp_ok q)"
    using assms
  proof (cases rule: gp_step.cases)
    case gp_veto
    then show ?thesis by (simp add: gp_terms_def gp_ok_def)
  qed (simp_all add: gp_terms_def gp_ok_def count_vote_def)
  then show "gp_terms q = gp_terms p" "gp_ok p \<Longrightarrow> gp_ok q" by simp_all
qed

lemma gp_terms_id: "gp_terms q = gp_terms p \<Longrightarrow> gp_id q = gp_id p \<and> voting_end q = voting_end p"
  by (simp add: gp_terms_def)

lemma resolve_vote_quorum:
  assumes "resolve_vote e p g = Inr g'"
  shows "\<exists>k. quorum_of g = Inr k \<and> k \<le> votes_for p + votes_against p"
  using assms by (auto simp: resolve_vote_def reject_with_def res_simps Let_def not_less split: if_splits)

lemma gov_execute_steps:
  assumes "gov_execute_proposal e n g = Inr g'"
  obtains "proposal_at (gbook g') = proposal_at (gbook g)" and "same_votes g g'"
  | p q where "proposal_at (gbook g) n = Some p" and "gp_id p = n" and "gp_step e (ExecuteProposal n) g p q"
      and "proposal_at (gbook g') = (proposal_at (gbook g))(n \<mapsto> q)" and "same_votes g g'"
proof -
  obtain p where p: "proposal_at (gbook g) n = Some p" "gp_id p = n" "voting_end p \<le> timestamp e"
    and r: "gp_status p = Active \<and> resolve_vote e p g = Inr g' \<or> gp_status p = Passed \<and> run_action e p g = Inr g'"
    using assms by (rule gov_execute_eq_Inr)
  from r show thesis
  proof (elim disjE conjE)
    assume st: "gp_status p = Active" and v: "resolve_vote e p g = Inr g'"
    obtain k where k: "quorum_of g = Inr k" "k \<le> votes_for p + votes_against p"
      using resolve_vote_quorum [OF v] by blast
    from v show thesis
    proof (rule resolve_vote_eq_Inr, elim exE)
      fix eta g1 b
      assume m: "votes_against p < votes_for p" "0 \<le> votes_against p"
        "eta = sequence e + unwrap_or (execution_delay (gcfg g)) 0"
        and g1: "g1 = store_proposal (p\<lparr> eta_ledger := eta, gp_status := Passed \<rparr>) g"
        and rf: "refund_proposal_deposit e (gp_id p) (gp_proposer p) g1 = Inr (b, g')"
      have "gp_step e (ExecuteProposal n) g p (p\<lparr> eta_ledger := eta, gp_status := Passed \<rparr>)"
        using p st m k by (intro gp_pass) simp_all
      then show thesis
        using refund_frame [OF rf] p by (intro that(2) [OF p(1,2)])
          (simp_all add: g1 store_proposal_def same_votes_def graph_def founding_def)
    qed
  next
    assume st: "gp_status p = Passed" and v: "run_action e p g = Inr g'"
    from v show thesis
    proof (rule run_action_eq_Inr, elim disjE conjE)
      assume "g' = gov_publish (ProposalExecutionFailed (gp_id p) (action_type p)) g"
      then show thesis by (intro that(1)) (simp_all add: same_votes_def founding_def)
    next
      assume eta: "eta_ledger p \<le> sequence e" and x: "executed_from p g g'"
      have "gp_step e (ExecuteProposal n) g p (p\<lparr> gp_status := Executed \<rparr>)"
        using p st eta by (intro gp_execute) simp_all
      then show thesis using x p by (intro that(2) [OF p(1,2)]) (simp_all add: executed_from_def same_votes_def)
    qed
  qed
qed

text \<open>The calls that neither create a proposal nor set a parameter.\<close>

lemma exec_steps:
  assumes "gov_exec e c g = Inr g'" and "\<not> sets_only c" and "\<nexists>a act h v. c = CreateProposal a act h v"
  obtains "proposal_at (gbook g') = proposal_at (gbook g)" and "proposal_count (gcfg g') = proposal_count (gcfg g)"
      and "founding g' = founding g"
  | n p q where "proposal_at (gbook g) n = Some p" and "gp_id p = n" and "gp_step e c g p q"
      and "proposal_at (gbook g') = (proposal_at (gbook g))(n \<mapsto> q)"
      and "proposal_count (gcfg g') = proposal_count (gcfg g)" and "founding g' = founding g"
proof (cases c)
  case (CastVote a n b)
  then have "cast_vote e a n b g = Inr g'" using assms(1) by simp
  then show thesis
  proof (rule cast_vote_eq_Inr)
    fix p own g1 w
    assume p: "proposal_at (gbook g) n = Some p" "gp_id p = n" "gp_status p = Active" "timestamp e < voting_end p"
      and g': "proposal_at (gbook g') = (proposal_at (gbook g))(n \<mapsto> count_vote b w p)" "gcfg g' = gcfg g"
    have "gp_step e c g p (count_vote b w p)" using p CastVote by (intro gp_vote) simp_all
    then show thesis using p g' by (intro that(2) [OF p(1,2)]) (simp_all add: founding_def)
  qed
next
  case (ExecuteProposal n)
  then have "gov_execute_proposal e n g = Inr g'" using assms(1) by simp
  then show thesis
  proof (rule gov_execute_steps)
    assume "proposal_at (gbook g') = proposal_at (gbook g)" "same_votes g g'"
    then show thesis using that(1) by (simp add: same_votes_def)
  next
    fix p q
    assume "proposal_at (gbook g) n = Some p" "gp_id p = n" "gp_step e (ExecuteProposal n) g p q"
      "proposal_at (gbook g') = (proposal_at (gbook g))(n \<mapsto> q)" "same_votes g g'"
    then show thesis using that(2) ExecuteProposal by (simp add: same_votes_def)
  qed
next
  case (VetoProposal a n h)
  then have "veto_proposal e a n h g = Inr g'" using assms(1) by simp
  then obtain p where p: "proposal_at (gbook g) n = Some p" "gp_id p = n" and sv: "same_votes g g'"
    and r: "proposal_at (gbook g') = proposal_at (gbook g) \<or> (gp_status p = Active \<or> gp_status p = Passed) \<and>
      proposal_at (gbook g') = (proposal_at (gbook g))(n \<mapsto> p\<lparr> gp_status := Vetoed \<rparr>)"
    by (rule veto_proposal_eq_Inr)
  show thesis
  proof (cases "proposal_at (gbook g') = proposal_at (gbook g)")
    case True
    then show thesis using that(1) sv by (simp add: same_votes_def)
  next
    case False
    then have "gp_step e c g p (p\<lparr> gp_status := Vetoed \<rparr>)" using p r VetoProposal by (intro gp_veto) simp_all
    then show thesis using p r False sv by (intro that(2) [OF p]) (simp_all add: same_votes_def)
  qed
next
  case (DelegateVotes a d)
  then show thesis using assms(1) delegation_frame [of e a d g g'] by (intro that(1)) (simp_all add: founding_def)
next
  case (UndelegateVotes a)
  then show thesis using assms(1) delegation_frame [of e a a g g'] by (intro that(1)) (simp_all add: founding_def)
qed (use assms(2,3) in auto)

lemma setter_unfounded:
  assumes "gov_exec e c g = Inr g'" and "sets_only c" and "iln_contract (gcfg g') = None"
  shows "proposal_count (gcfg g') = proposal_count (gcfg g)"
  using assms by (cases c; clarsimp simp: gov_setters res_simps checkpoint_balance_def Let_def split: if_splits)

lemma setter_founds:
  assumes "gov_exec e c g = Inr g'" and "sets_only c" and "iln_contract (gcfg g) = None" and "proposal_count (gcfg g) = None"
  shows "proposals g' = 0"
  using assms by (cases c; clarsimp simp: gov_setters res_simps checkpoint_balance_def Let_def split: if_splits)

definition steps_to :: "('w, 'm) gov_env_scheme \<Rightarrow> gov_call \<Rightarrow> 'w gov \<Rightarrow> 'w gov \<Rightarrow> bool" where
  "steps_to e c g g' \<longleftrightarrow> (\<forall>n p. proposal_at (gbook g) n = Some p \<longrightarrow>
     (\<exists>q. proposal_at (gbook g') n = Some q \<and> (q = p \<or> gp_step e c g p q)))"

lemma exec_votes_ok:
  assumes ok: "votes_ok g" and x: "gov_exec e c g = Inr g'"
  shows "votes_ok g' \<and> proposals g \<le> proposals g' \<and> (proposals g' < u64_max \<longrightarrow> steps_to e c g g')"
proof (cases "sets_only c")
  case True
  note f = setter_frame [OF x True]
  show ?thesis
  proof (cases "iln_contract (gcfg g)")
    case None
    then have none: "gov_token (gcfg g) = None" "proposal_count (gcfg g) = None" "proposal_at (gbook g) = Map.empty"
      using ok by (simp_all add: votes_ok_def)
    then have "proposals g' = 0" using setter_founds [OF x True None] by simp
    then show ?thesis using none f(2,6) setter_unfounded [OF x True] None
      by (simp add: votes_ok_def steps_to_def founding_def)
  next
    case (Some iln)
    then show ?thesis using ok f by (simp add: votes_ok_def steps_to_def founding_def)
  qed
next
  case False
  show ?thesis
  proof (cases "\<exists>a act h v. c = CreateProposal a act h v")
    case True
    then obtain a act h v n where "create_proposal e a act h v g = Inr (n, g')" using x by (auto simp: res_simps)
    note cr = create_proposal_eq_Inr [OF this]
    have iln: "iln_contract (gcfg g) \<noteq> None" using ok cr(7) by (auto simp: votes_ok_def)
    then have "iln_contract (gcfg g') \<noteq> None" using cr(6) by (simp add: founding_def)
    moreover have le: "proposals g \<le> n" "n \<le> u64_max" "n < u64_max \<Longrightarrow> n = Suc (proposals g)"
      using ok cr(1) by (auto simp: votes_ok_def sat_add_u64_def)
    moreover have "gp_ok (new_proposal e n a act h v)" "gp_id (new_proposal e n a act h v) = n"
      by (simp_all add: gp_ok_def new_proposal_def)
    moreover have "m \<le> n" if "proposal_at (gbook g) m = Some r" for m r
      using ok that le(1) unfolding votes_ok_def by (meson order_trans)
    ultimately have "votes_ok g'" using ok by (auto simp: votes_ok_def cr(2,3))
    moreover have "steps_to e c g g'" if "n < u64_max"
    proof -
      have "proposal_at (gbook g) n = None" using ok le(3) [OF that] unfolding votes_ok_def
        by (metis not_less_eq_eq option.exhaust order_refl)
      then show ?thesis by (auto simp: steps_to_def cr(2))
    qed
    ultimately show ?thesis using le(1) by (simp add: cr(3))
  next
    case False
    from exec_steps [OF x \<open>\<not> sets_only c\<close> False] show ?thesis
    proof cases
      case 1
      then show ?thesis using ok by (simp add: votes_ok_def steps_to_def founding_def)
    next
      case (2 n p q)
      have "gp_ok q" "gp_id q = n" using gp_step_keeps [OF 2(3)] ok 2(1,2) gp_terms_id [of q p] by (auto simp: votes_ok_def)
      then have "votes_ok g'" using ok 2 by (auto simp: votes_ok_def founding_def)
      then show ?thesis using 2 by (auto simp: steps_to_def)
    qed
  qed
qed

lemma gov_run_append [simp]: "gov_run (xs @ ys) g = gov_run ys (gov_run xs g)"
  by (induction xs arbitrary: g) simp_all

lemma act_votes_ok:
  assumes "votes_ok g"
  shows "votes_ok (gov_act x g) \<and> proposals g \<le> proposals (gov_act x g)"
proof (cases x)
  case (GovInvoke e c)
  then show ?thesis using assms exec_votes_ok [OF assms, of e c] by (cases "gov_exec e c g") auto
qed (use assms in \<open>simp_all add: votes_ok_def\<close>)

lemma run_votes_ok: "votes_ok g \<Longrightarrow> votes_ok (gov_run xs g) \<and> proposals g \<le> proposals (gov_run xs g)"
proof (induction xs rule: rev_induct)
  case (snoc x xs)
  then show ?case using act_votes_ok [of "gov_run xs g" x] by (auto intro: order_trans)
qed simp

lemma fresh_votes_ok: "votes_ok (fresh_gov w)"
  by (simp add: votes_ok_def fresh_gov_def)

section \<open>Histories of a proposal\<close>

lemma passed_in_snoc: "passed_in g xs q \<Longrightarrow> passed_in g (xs @ [x]) q"
  unfolding passed_in_def by (metis append_Cons append_assoc)

lemma executed_in_snoc: "executed_in xs q \<Longrightarrow> executed_in (xs @ [x]) q"
  by (auto simp: executed_in_def)

lemma passed_in_cong:
  assumes "gp_id q = gp_id r" "voting_end q = voting_end r" "eta_ledger q = eta_ledger r"
    "votes_for q = votes_for r" "votes_against q = votes_against r"
  shows "passed_in g xs q = passed_in g xs r"
  using assms by (simp add: passed_in_def)

lemma gp_evolved_refl: "gp_evolved g [] p p"
  by (cases "gp_status p") (simp_all add: gp_evolved_def)

lemma gp_evolved_skip: "gp_evolved g xs p q \<Longrightarrow> gp_evolved g (xs @ [x]) p q"
  by (auto simp: gp_evolved_def intro: passed_in_snoc executed_in_snoc)

lemma gp_evolved_live:
  assumes "gp_evolved g xs p q" and "gp_status p \<noteq> Rejected" and "gp_status q = Active \<or> gp_status q = Passed"
  shows "gp_status p = Active \<or> gp_status p = Passed \<and> gp_status q = Passed"
  using assms unfolding gp_evolved_def by (cases "gp_status p") auto

lemma gp_evolved_step:
  assumes ev: "gp_evolved g xs p q" and st: "gp_step e c (gov_run xs g) q r" and ok: "gp_status p \<noteq> Rejected"
  shows "gp_evolved g (xs @ [GovInvoke e c]) p r"
proof -
  have terms: "gp_terms r = gp_terms p" using gp_step_keeps(1) [OF st] ev by (simp add: gp_evolved_def)
  from st show ?thesis
  proof (cases rule: gp_step.cases)
    case (gp_vote a b w)
    then have "gp_status p = Active" "gp_status r = Active" using gp_evolved_live [OF ev ok] by simp_all
    then show ?thesis using terms by (simp add: gp_evolved_def)
  next
    case (gp_pass k eta)
    then have p: "gp_status p = Active" "gp_status r = Passed" using gp_evolved_live [OF ev ok] by simp_all
    have "passed_in g (xs @ [GovInvoke e c]) r"
      unfolding passed_in_def using gp_pass by (intro exI [of _ xs] exI [of _ e] exI [of _ "[]"] exI [of _ k]) simp
    then show ?thesis using terms p by (simp add: gp_evolved_def)
  next
    case gp_execute
    have r: "gp_status r = Executed" "votes_for r = votes_for q" "votes_against r = votes_against q"
      "eta_ledger r = eta_ledger q" "gp_id r = gp_id q" "voting_end r = voting_end q"
      by (simp_all add: gp_execute)
    have x: "executed_in (xs @ [GovInvoke e c]) r"
      unfolding executed_in_def r using gp_execute by (intro exI [of _ e]) simp
    have pin: "passed_in g xs r = passed_in g xs q" by (rule passed_in_cong) (simp_all add: r)
    consider "gp_status p = Active" | "gp_status p = Passed" using gp_evolved_live [OF ev ok] gp_execute(3) by auto
    then show ?thesis
    proof cases
      case 1
      then have "passed_in g xs q" using ev gp_execute(3) by (simp add: gp_evolved_def)
      then show ?thesis using terms 1 x r(1) pin by (simp add: gp_evolved_def passed_in_snoc)
    next
      case 2
      then show ?thesis using terms x r ev by (simp add: gp_evolved_def)
    qed
  next
    case (gp_veto a h)
    have r: "gp_status r = Vetoed" "votes_for r = votes_for q" "votes_against r = votes_against q" "eta_ledger r = eta_ledger q"
      by (simp_all add: gp_veto)
    consider "gp_status p = Active" | "gp_status p = Passed" using gp_evolved_live [OF ev ok] gp_veto(3) by auto
    then show ?thesis using terms r ev by cases (simp_all add: gp_evolved_def)
  qed
qed

lemma run_evolves:
  assumes ok: "votes_ok g" and p: "proposal_at (gbook g) n = Some p" and "proposals (gov_run xs g) < u64_max"
  shows "\<exists>q. proposal_at (gbook (gov_run xs g)) n = Some q \<and> gp_evolved g xs p q"
  using assms(3)
proof (induction xs rule: rev_induct)
  case Nil
  then show ?case using p gp_evolved_refl by auto
next
  case (snoc x xs)
  let ?g = "gov_run xs g"
  note inv = run_votes_ok [OF ok, of xs]
  have "proposals ?g \<le> proposals (gov_act x ?g)" using act_votes_ok inv by blast
  then obtain q where q: "proposal_at (gbook ?g) n = Some q" "gp_evolved g xs p q"
    using snoc.IH snoc.prems by auto
  have "gp_status p \<noteq> Rejected" using ok p by (auto simp: votes_ok_def gp_ok_def)
  note step = gp_evolved_step [OF q(2) _ this]
  show ?case
  proof (cases x)
    case (GovInvoke e c)
    show ?thesis
    proof (cases "gov_exec e c ?g")
      case (Inl f)
      then show ?thesis using q GovInvoke gp_evolved_skip by fastforce
    next
      case (Inr g')
      then have "steps_to e c ?g g'" using exec_votes_ok [of ?g e c g'] inv snoc.prems GovInvoke by simp
      then obtain r where "proposal_at (gbook g') n = Some r" "r = q \<or> gp_step e c ?g q r"
        using q(1) by (auto simp: steps_to_def)
      then show ?thesis using Inr GovInvoke q(2) step gp_evolved_skip by auto
    qed
  qed (use q gp_evolved_skip in auto)
qed

section \<open>Votes\<close>

lemma exec_keeps_receipt:
  assumes x: "gov_exec e c g = Inr g'" and r: "vote_receipt (gbook g) (n, a) = Some w"
  shows "vote_receipt (gbook g') (n, a) = Some w"
proof (cases "sets_only c")
  case True
  then show ?thesis using setter_frame(3) [OF x] r by simp
next
  case False
  then show ?thesis
  proof (cases c)
    case (CreateProposal b act h v)
    then obtain k where "create_proposal e b act h v g = Inr (k, g')" using x by (auto simp: res_simps)
    then show ?thesis using create_proposal_eq_Inr(5) r by metis
  next
    case (CastVote b m s)
    then have "cast_vote e b m s g = Inr g'" using x by simp
    then show ?thesis by (rule cast_vote_eq_Inr) (use r in \<open>auto simp: has_voted_def\<close>)
  next
    case (ExecuteProposal m)
    then have "gov_execute_proposal e m g = Inr g'" using x by simp
    then show ?thesis by (rule gov_execute_steps) (use r in \<open>simp_all add: same_votes_def\<close>)
  next
    case (VetoProposal b m h)
    then have "veto_proposal e b m h g = Inr g'" using x by simp
    then show ?thesis by (rule veto_proposal_eq_Inr) (use r in \<open>simp add: same_votes_def\<close>)
  next
    case (DelegateVotes b d)
    then show ?thesis using x r delegation_frame(3) [of e b d g g'] by simp
  next
    case (UndelegateVotes b)
    then show ?thesis using x r delegation_frame(3) [of e b b g g'] by simp
  qed simp_all
qed

lemma run_keeps_receipt:
  "vote_receipt (gbook g) (n, a) = Some w \<Longrightarrow> vote_receipt (gbook (gov_run xs g)) (n, a) = Some w"
proof (induction xs arbitrary: g)
  case (Cons x xs)
  have "vote_receipt (gbook (gov_act x g)) (n, a) = Some w"
    by (cases x) (use Cons.prems exec_keeps_receipt in \<open>auto split: sum.split\<close>)
  then show ?case using Cons.IH by simp
qed simp

lemma receipt_rejects:
  assumes "vote_receipt (gbook g) (n, a) = Some w"
  shows "\<exists>f. cast_vote e a n b g = Inl f"
proof (cases "cast_vote e a n b g")
  case (Inr g')
  then show ?thesis by (rule cast_vote_eq_Inr) (use assms in \<open>simp add: has_voted_def\<close>)
qed simp

lemma own_weight_snapshot:
  "own_weight e a n g = Inr (own, g') \<Longrightarrow> vote_weight_snapshot (gbook g') (n, a) = Some own"
  by (auto simp: own_weight_def res_simps split: option.splits)

lemma cast_vote_weight:
  assumes "cast_vote e a n b g = Inr g'"
  shows "\<exists>own w. vote_weight_snapshot (gbook g') (n, a) = Some own \<and> vote_receipt (gbook g') (n, a) = Some w \<and>
    Some w = (let raw = saturating_add own (unwrap_or (delegated_to_me (gbook g) a) 0)
              in if is_quadratic_voting_enabled g then isqrt raw else Some raw)"
proof -
  from assms obtain p own g1 w where o: "own_weight e a n g = Inr (own, g1)" and w: "vote_weight own a g1 = Inr w"
    and g': "g' = gov_publish (VoteCast n a b w) (store_proposal (count_vote b w p) (record_vote a n w g1))"
    by (auto simp: cast_vote_def res_simps split: if_splits)
  have "vote_weight_snapshot (gbook g') (n, a) = Some own" "vote_receipt (gbook g') (n, a) = Some w"
    using own_weight_snapshot [OF o] by (simp_all add: g' store_proposal_def record_vote_def)
  moreover have "Some w = (let raw = saturating_add own (unwrap_or (delegated_to_me (gbook g) a) 0)
      in if is_quadratic_voting_enabled g then isqrt raw else Some raw)"
    using w own_weight_frame(1,6) [OF o]
    by (auto simp: vote_weight_def is_quadratic_voting_enabled_def Let_def res_simps split: if_splits)
  ultimately show ?thesis by blast
qed

text \<open>
  Voting never looks at the delegation pointers: who has delegated their weight votes as if they
  had not, while their delegate's vote includes the same weight.
\<close>

lemma set_delegation_reads [simp]:
  "load_proposal n (set_delegation x d g) = load_proposal n g" "has_voted a n (set_delegation x d g) = has_voted a n g"
  "get_gov_token (set_delegation x d g) = get_gov_token g" "gov_balance e t a (set_delegation x d g) = gov_balance e t a g"
  "eligible_checkpoint a l (set_delegation x d g) = eligible_checkpoint a l g"
  "vote_weight w a (set_delegation x d g) = vote_weight w a g"
  "vote_weight_snapshot (gbook (set_delegation x d g)) = vote_weight_snapshot (gbook g)"
  "proposal_created_ledger (gbook (set_delegation x d g)) = proposal_created_ledger (gbook g)"
  by (simp_all add: set_delegation_def load_proposal_def has_voted_def get_gov_token_def gov_balance_def
      eligible_checkpoint_def vote_weight_def is_quadratic_voting_enabled_def)

lemma set_delegation_writes [simp]:
  "store_proposal p (set_delegation x d g) = set_delegation x d (store_proposal p g)"
  "record_vote a n w (set_delegation x d g) = set_delegation x d (record_vote a n w g)"
  "gov_publish ev (set_delegation x d g) = set_delegation x d (gov_publish ev g)"
  "(set_delegation x d g)\<lparr> gbook := (gbook (set_delegation x d g))\<lparr> vote_weight_snapshot := f \<rparr> \<rparr> =
   set_delegation x d (g\<lparr> gbook := (gbook g)\<lparr> vote_weight_snapshot := f \<rparr> \<rparr>)"
  by (simp_all add: set_delegation_def store_proposal_def record_vote_def gov_publish_def)

lemma own_weight_set_delegation:
  "own_weight e a n (set_delegation x d g) = and_then (own_weight e a n g) (\<lambda>(w, g'). Inr (w, set_delegation x d g'))"
  by (cases "vote_weight_snapshot (gbook g) (n, a)")
    (simp_all add: own_weight_def proven_own_balance_def and_then_assoc)

lemma cast_vote_ignores_delegation:
  "cast_vote e a n b (set_delegation x d g) = and_then (cast_vote e a n b g) (\<lambda>g'. Inr (set_delegation x d g'))"
  by (simp add: cast_vote_def own_weight_set_delegation and_then_assoc split_beta
      if_distrib [of "\<lambda>m. and_then m f" for f] cong: if_cong)

section \<open>The example\<close>

lemma gov_call_env_simps [simp]:
  "timestamp (gov_call_env ts a) = ts" "sequence (gov_call_env ts a) = ts" "self (gov_call_env ts a) = Address 0"
  "auths (gov_call_env ts a) = {a}" "ext (gov_call_env ts a) = mock_ext" "x_invoke (gov_call_env ts a) w c f xs = Some w"
  by (simp_all add: gov_call_env_def call_env_def env.extend_def)

lemmas gov_example = gov_setup_def gov_ballot_def fresh_gov_def gov_initialize_def create_proposal_def gov_auth_def
  get_gov_token_def gov_balance_def mock_ext_balance mock_holding_def mock_balance_def escrow_deposit_def
  record_proposal_def new_proposal_def gov_publish_def sat_add_u64_def width_defs DEFAULT_PROPOSAL_DEPOSIT_def
  DEFAULT_MIN_PROPOSAL_BALANCE_def VOTING_PERIOD_SECS_def Let_def

lemmas gov_example_vote = cast_vote_def load_proposal_def has_voted_def own_weight_def vote_weight_def
  is_quadratic_voting_enabled_def count_vote_def record_vote_def store_proposal_def saturating_add_def clamp_i128_def

lemma gov_setup_state:
  obtains p where "proposal_at (gbook (gov_run gov_setup (fresh_gov gov_ledger))) 1 = Some p" "gp_status p = Active"
  by (simp add: gov_example)

lemma gov_vote_state:
  obtains g1 where "cast_vote (gov_call_env 30 (Address 1)) (Address 1) 1 True (gov_run gov_setup (fresh_gov gov_ledger)) = Inr g1"
    "vote_receipt (gbook g1) (1, Address 1) = Some 5000"
  by (simp add: gov_example gov_example_vote)

lemma gov_ballot_state:
  obtains q where "proposal_at (gbook (gov_run gov_ballot (gov_run gov_setup (fresh_gov gov_ledger)))) 1 = Some q"
    "gp_status q = Passed" "votes_for q = 5000"
    "unwrap_or (proposal_count (gcfg (gov_run gov_ballot (gov_run gov_setup (fresh_gov gov_ledger))))) 0 < u64_max"
  by (simp add: gov_example gov_example_vote gov_execute_proposal_def resolve_vote_def quorum_of_def checked_add_def
      in_i128_def saturating_mul_def quot_def DEFAULT_MIN_QUORUM_BPS_def transition_status_def refund_proposal_deposit_def
      settle_deposit_def)

section \<open>Properties\<close>

text \<open>
  C38: the life of a governance proposal along every history, as long as fewer than 2^64 - 1
  proposals are created. Its terms never change; it is never \<open>Rejected\<close> (the code writes that status
  only in calls that fail); it passes only after its voting window, with the quorum of that moment
  and more votes for than against; once it has passed its tallies and its execution ledger are
  fixed; it is executed only after the window and not before that ledger; \<open>Executed\<close> and \<open>Vetoed\<close>
  are final.
\<close>

theorem proposal_lifecycle:
  assumes "g = gov_run acts (fresh_gov w)" and "proposal_at (gbook g) n = Some p"
    and "unwrap_or (proposal_count (gcfg (gov_run later g))) 0 < u64_max"
  shows "\<exists>q. proposal_at (gbook (gov_run later g)) n = Some q \<and> gp_id q = n \<and> gp_terms q = gp_terms p \<and>
    gp_status q \<noteq> Rejected \<and>
    (gp_status q = Passed \<or> gp_status q = Executed \<longrightarrow> 0 \<le> votes_against q \<and> votes_against q < votes_for q) \<and>
    (gp_status p = Executed \<or> gp_status p = Vetoed \<longrightarrow> q = p) \<and>
    (gp_status p = Passed \<longrightarrow> gp_status q \<noteq> Active \<and> votes_for q = votes_for p \<and>
       votes_against q = votes_against p \<and> eta_ledger q = eta_ledger p) \<and>
    (gp_status p = Active \<and> (gp_status q = Passed \<or> gp_status q = Executed) \<longrightarrow> passed_in g later q) \<and>
    (gp_status p \<noteq> Executed \<and> gp_status q = Executed \<longrightarrow> executed_in later q)"
proof -
  have ok: "votes_ok g" unfolding assms(1) by (rule conjunct1 [OF run_votes_ok [OF fresh_votes_ok]])
  obtain q where q: "proposal_at (gbook (gov_run later g)) n = Some q" "gp_evolved g later p q"
    using run_evolves [OF ok assms(2,3)] by blast
  have "gp_ok q" "gp_id q = n" using run_votes_ok [OF ok, of later] q(1) by (auto simp: votes_ok_def)
  then show ?thesis using q by (simp add: gp_evolved_def gp_ok_def)
qed

theorem proposal_lifecycle_witness:
  "case proposal_at (gbook (gov_run (gov_setup @ gov_ballot) (fresh_gov gov_ledger))) 1 of
     None \<Rightarrow> False
   | Some q \<Rightarrow> gp_status q = Passed \<and> votes_for q = 5000 \<and> votes_against q < votes_for q \<and>
       passed_in (gov_run gov_setup (fresh_gov gov_ledger)) gov_ballot q"
proof -
  obtain p where p: "proposal_at (gbook (gov_run gov_setup (fresh_gov gov_ledger))) 1 = Some p" "gp_status p = Active"
    by (rule gov_setup_state)
  obtain q where q: "proposal_at (gbook (gov_run gov_ballot (gov_run gov_setup (fresh_gov gov_ledger)))) 1 = Some q"
    "gp_status q = Passed" "votes_for q = 5000"
    and few: "unwrap_or (proposal_count (gcfg (gov_run gov_ballot (gov_run gov_setup (fresh_gov gov_ledger))))) 0 < u64_max"
    by (rule gov_ballot_state)
  show ?thesis unfolding gov_run_append using proposal_lifecycle [OF refl p(1) few] p(2) q by (simp del: One_nat_def)
qed

text \<open>
  C39: a vote counts once. A successful \<open>cast_vote\<close> is made by an authorised voter on an active
  proposal before the end of its window; it adds a non-zero weight to the chosen tally and changes
  no other proposal. The weight is the voter's recorded own weight plus what is delegated to them,
  or the integer square root of that sum under quadratic voting. After any further history,
  including the archival of temporary entries, the receipt still holds that weight and every other
  vote of the same address on the proposal fails.
\<close>

theorem vote_counts_once:
  assumes "cast_vote e a n b g = Inr g1"
  shows "\<exists>p own v. a \<in> auths e \<and> proposal_at (gbook g) n = Some p \<and> gp_status p = Active \<and>
    timestamp e < voting_end p \<and> v \<noteq> 0 \<and>
    proposal_at (gbook g1) = (proposal_at (gbook g))(n \<mapsto> count_vote b v p) \<and>
    vote_weight_snapshot (gbook g1) (n, a) = Some own \<and>
    Some v = (let raw = saturating_add own (unwrap_or (delegated_to_me (gbook g) a) 0)
              in if is_quadratic_voting_enabled g then isqrt raw else Some raw) \<and>
    vote_receipt (gbook (gov_run acts g1)) (n, a) = Some v \<and>
    (\<exists>f. cast_vote e' a n b' (gov_run acts g1) = Inl f)"
proof -
  obtain own v where w: "vote_weight_snapshot (gbook g1) (n, a) = Some own" "vote_receipt (gbook g1) (n, a) = Some v"
    "Some v = (let raw = saturating_add own (unwrap_or (delegated_to_me (gbook g) a) 0)
              in if is_quadratic_voting_enabled g then isqrt raw else Some raw)"
    using cast_vote_weight [OF assms] by blast
  note kept = run_keeps_receipt [OF w(2), of acts]
  from assms show ?thesis
  proof (rule cast_vote_eq_Inr)
    fix p own' g2 v'
    assume c: "a \<in> auths e" "proposal_at (gbook g) n = Some p" "gp_status p = Active" "timestamp e < voting_end p" "v' \<noteq> 0"
      "proposal_at (gbook g1) = (proposal_at (gbook g))(n \<mapsto> count_vote b v' p)"
      "vote_receipt (gbook g1) = (vote_receipt (gbook g))((n, a) \<mapsto> v')"
    then have "v' = v" using w(2) by simp
    then show ?thesis using c w(1,3) kept receipt_rejects [OF kept] by blast
  qed
qed

theorem vote_counts_once_witness:
  "case cast_vote (gov_call_env 30 (Address 1)) (Address 1) 1 True (gov_run gov_setup (fresh_gov gov_ledger)) of
     Inl _ \<Rightarrow> False
   | Inr g1 \<Rightarrow> vote_receipt (gbook (gov_run [GovArchive UNIV UNIV] g1)) (1, Address 1) = Some 5000 \<and>
       (\<exists>f. cast_vote (gov_call_env 40 (Address 1)) (Address 1) 1 False (gov_run [GovArchive UNIV UNIV] g1) = Inl f)"
proof -
  obtain g1 where g1: "cast_vote (gov_call_env 30 (Address 1)) (Address 1) 1 True (gov_run gov_setup (fresh_gov gov_ledger)) = Inr g1"
    "vote_receipt (gbook g1) (1, Address 1) = Some 5000"
    by (rule gov_vote_state)
  show ?thesis
    using vote_counts_once [OF g1(1), of "[GovArchive UNIV UNIV]" "gov_call_env 40 (Address 1)" False] g1
    by (auto simp del: One_nat_def)
qed

end
