(* ===== verification/Spec2Isabelle.thy ===== *)
theory Spec2Isabelle
  imports Lifecycle ClaimPriority GovVotes
begin

text \<open>
  The Invoice Liquidity Network: a model of its Soroban contracts and the proofs about them.

  \<^bold>\<open>The program.\<close> A freelancer submits an invoice; liquidity providers (LPs) fund it at a discount,
  which pays the freelancer at once; the payer settles the full amount later, or the invoice
  defaults. The invoice contract (src/contracts/invoice_liquidity) holds the invoices, the money in
  transit, reputation scores, a queue of LPs, the oracle registry and a multisig administration.
  The insurance pool (src/contracts/insurance_pool) sells default protection to LPs; the
  governance contract (src/contracts/iln_governance) lets token holders vote on parameters of the
  other contracts.

  \<^bold>\<open>Conventions.\<close> Contract storage is a record with one field per storage key, grouped by component
  (\<open>Storage\<close> for the invoice contract, the record \<open>pool\<close>, the record \<open>gov\<close>). An entry point is a
  function from the environment \<open>env\<close> (ledger time and sequence, own address, authorisations, random
  draw) and the state to a sum: \<open>Inl\<close> is an error or a trap, \<open>Inr\<close> the new state and result. A
  failed invocation rolls back, so its writes are lost; a call that writes and then fails is
  modelled with the write and the error. \<open>i128\<close> values are \<open>int\<close> and unsigned values \<open>nat\<close>, with the
  checked, saturating, truncating and wrapping operations of the source written out (\<open>Prelude\<close>).
  Other contracts are parameters: the rest of the ledger is a type variable that is touched only
  through the record \<open>ext\<close> of calls, and what is relied on is stated in locales.

  \<^bold>\<open>Theories of the invoice contract.\<close> Paths are relative to src/contracts/invoice_liquidity/src.
  \<^item> \<open>Prelude\<close>: results, machine integers, lemma collections. \<open>Types\<close> (invoice.rs, errors.rs,
    constants.rs), \<open>Events\<close> (events.rs), \<open>Storage\<close> (storage.rs): the data and the state.
  \<^item> \<open>InvoiceStore\<close> (invoice.rs, storage.rs): invoice records in the single and the split format,
    which both satisfy the locale \<open>invoice_repository\<close>; indices, statistics, appeals, disputes.
  \<^item> \<open>Access\<close> (access.rs): roles, reentrancy lock, rate limits, audit log.
  \<^item> \<open>TopPayers\<close> (top_payers.rs): the bounded min-heap of payers. Every update leaves exactly the
    contents a bounded multiset would have (locale \<open>score_board\<close>), and the view is sorted.
  \<^item> \<open>Reputation\<close> (invoice.rs): the decaying payer score. The cut-off loop equals the unbounded one;
    reads and writes are given exactly.
  \<^item> \<open>TokenSafety\<close> (token_safety.rs) and \<open>MockLedger\<close> (src/contracts/tests/mocks/mock_token.rs): payouts
    that escrow the share of a frozen recipient. The token laws are the locales \<open>sep41\<close> and
    \<open>sep41_spend\<close>, interpreted on the token contract of the repository.
  \<^item> \<open>Nft\<close> (nft.rs), \<open>Twap\<close> (twap.rs, twap_accumulator.rs): the NFT of an invoice follows its status;
    the windowed average lies within the sampled prices; the accumulator never stores anything.
  \<^item> \<open>Multisig\<close> (multisig.rs): an action runs once, with enough approvals of configured signers;
    a stale rotation can lock the multisig for good.
  \<^item> \<open>FundQueue\<close> (storage.rs and the queue entry points of lib.rs): joining, resolving, recovering.
  \<^item> \<open>Terms\<close>, \<open>Admin\<close> (lib.rs, rate_logic.rs, config.rs): validation, fees, rates; initialisation,
    parameters, pause, upgrade, migration, rollback rehearsal.
  \<^item> \<open>Oracle\<close>, \<open>Prices\<close> (oracle_registry.rs): the circuit breaker characterised on every history, the
    Identity gate, the median with outlier rejection and what an honest majority guarantees.
  \<^item> \<open>Invoices\<close>, \<open>Funding\<close>, \<open>Settlement\<close> (lib.rs): submission, change, transfer, cancellation, expiry;
    \<open>fund_invoice\<close>; payment, default, appeal, dispute.
  \<^item> \<open>Views\<close> (lib.rs): the paginated and aggregated reads. \<open>Calls\<close>: every entry point as one datatype
    \<open>call\<close> with \<open>exec\<close>, and which state each group of calls leaves alone.
  \<^item> \<open>Solvency\<close>: what the contract holds beyond what it has escrowed, through funding, payment and
    default (locale \<open>payment_ledger\<close>). \<open>Examples\<close>: the small deployment the witnesses run on.
  \<^item> \<open>Lifecycle\<close>: the life of an invoice as an abstract machine (\<open>life_step\<close>), the simulation of the
    contract by it (locale \<open>simulation\<close>), and what follows in every reachable state: consistent
    amounts and status, final states, a bound on status changes, one dispute.

  \<^bold>\<open>Theories of the other contracts.\<close>
  \<^item> \<open>InsurancePool\<close> (src/contracts/insurance_pool/src/lib.rs, insurance_interface.rs): the booked
    reserve is covered (locale \<open>sep41_pool\<close>), an invoice is paid once, an announced change of the
    administrator never takes effect early and can only be stopped by cancelling or replacing it.
  \<^item> \<open>ClaimPriority\<close> (claim_prioritization.rs): the allocation of a pool that cannot pay every claim.
  \<^item> \<open>Governance\<close> (src/contracts/iln_governance/src/lib.rs): state and entry points. \<open>GovDelegation\<close>: the
    integer square root, the acyclic delegation graph and the search over it. \<open>GovVotes\<close>: the life of
    a proposal along every history, and that a vote counts once.

  \<^bold>\<open>Bounds and termination.\<close> No definition uses fuel. Loops are structural recursion or functions
  with a termination proof; where termination is a claim of its own (the search over the delegation
  graph, which does not end on a cycle, and the binary search of the square root) the loop is a
  partial function into \<open>option\<close>, and the result is proved to be \<open>Some\<close>. The walks along delegation
  pointers count down the configured depth as the source counts up to it.

  \<^bold>\<open>Not modelled.\<close> Lifetimes of storage entries, except where the code reads them and except that
  temporary entries of the governance contract may vanish; metering; the distribution and
  reputation bonus contracts, which the modelled contracts only call; the sample TWAP oracle; the
  command line, SDK, indexer and frontend; scripts and tests. Names that the sources use without
  declaring them are modelled as they are used, and listed among the findings of the manifest.
\<close>

end
